(* ===== verification/Prelude.thy ===== *)
theory Prelude
  imports Main "HOL-Library.Word" "HOL-Library.AList" "HOL-Library.Signed_Division"
begin

text \<open>
  Shared vocabulary of the development: the machine integer types of the C++ code, byte
  buffers, a state-and-exception computation type for code that both mutates state and
  throws, and the generic lemmas on words, lists and association lists that the component
  theories use.
\<close>

unbundle bit_operations_syntax

section \<open>Machine types\<close>

type_synonym u8 = "8 word"
type_synonym u32 = "32 word"
type_synonym u64 = "64 word"

text \<open>A C buffer is the list of its bytes.\<close>
type_synonym buffer = "u8 list"

named_theorems smx_simps \<open>unfolding of state-and-exception computations\<close>
named_theorems mem_simps \<open>observations of memory after an operation\<close>
named_theorems core_simps \<open>register reads after register writes\<close>

section \<open>Computations with state and exceptions\<close>

text \<open>
  A C++ function that changes an object and may throw: from a state to an outcome (\<open>Inl\<close>
  the exception, \<open>Inr\<close> the result) and the state reached. The state is kept on the exception
  path too, since C++ does not undo what was done before a \<open>throw\<close>.
\<close>

type_synonym ('s, 'e, 'a) smx = "'s \<Rightarrow> ('e + 'a) \<times> 's"

definition returnS :: "'a \<Rightarrow> ('s, 'e, 'a) smx" where
  "returnS x = (\<lambda>s. (Inr x, s))"

definition throwS :: "'e \<Rightarrow> ('s, 'e, 'a) smx" where
  "throwS e = (\<lambda>s. (Inl e, s))"

definition bindS :: "('s, 'e, 'a) smx \<Rightarrow> ('a \<Rightarrow> ('s, 'e, 'b) smx) \<Rightarrow> ('s, 'e, 'b) smx" where
  "bindS m f = (\<lambda>s. case m s of (Inl e, s') \<Rightarrow> (Inl e, s') | (Inr x, s') \<Rightarrow> f x s')"

definition thenS :: "('s, 'e, 'a) smx \<Rightarrow> ('s, 'e, 'b) smx \<Rightarrow> ('s, 'e, 'b) smx" where
  "thenS m k = bindS m (\<lambda>_. k)"

definition catchS :: "('s, 'e, 'a) smx \<Rightarrow> ('e \<Rightarrow> ('s, 'e, 'a) smx) \<Rightarrow> ('s, 'e, 'a) smx" where
  "catchS m h = (\<lambda>s. case m s of (Inl e, s') \<Rightarrow> h e s' | (Inr x, s') \<Rightarrow> (Inr x, s'))"

definition getS :: "('s \<Rightarrow> 'a) \<Rightarrow> ('s, 'e, 'a) smx" where
  "getS f = (\<lambda>s. (Inr (f s), s))"

definition modifyS :: "('s \<Rightarrow> 's) \<Rightarrow> ('s, 'e, unit) smx" where
  "modifyS f = (\<lambda>s. (Inr (), f s))"

text \<open>An optional value that must be there: reading an indeterminate field throws \<open>e\<close>.\<close>

definition needS :: "'e \<Rightarrow> ('s \<Rightarrow> 'a option) \<Rightarrow> ('s, 'e, 'a) smx" where
  "needS e f = (\<lambda>s. case f s of None \<Rightarrow> (Inl e, s) | Some x \<Rightarrow> (Inr x, s))"

lemma returnS_apply [simp, smx_simps]: "returnS x s = (Inr x, s)"
  by (simp add: returnS_def)

lemma throwS_apply [simp, smx_simps]: "throwS e s = (Inl e, s)"
  by (simp add: throwS_def)

lemma getS_apply [simp, smx_simps]: "getS f s = (Inr (f s), s)"
  by (simp add: getS_def)

lemma modifyS_apply [simp, smx_simps]: "modifyS f s = (Inr (), f s)"
  by (simp add: modifyS_def)

lemma bindS_Inr [simp]: "m s = (Inr x, s') \<Longrightarrow> bindS m f s = f x s'"
  by (simp add: bindS_def)

lemma bindS_Inl [simp]: "m s = (Inl e, s') \<Longrightarrow> bindS m f s = (Inl e, s')"
  by (simp add: bindS_def)

lemma thenS_Inr [simp]: "m s = (Inr x, s') \<Longrightarrow> thenS m k s = k s'"
  by (simp add: thenS_def)

lemma thenS_Inl [simp]: "m s = (Inl e, s') \<Longrightarrow> thenS m k s = (Inl e, s')"
  by (simp add: thenS_def)

lemma needS_Some [simp]: "f s = Some x \<Longrightarrow> needS e f s = (Inr x, s)"
  by (simp add: needS_def)

lemma needS_None [simp]: "f s = None \<Longrightarrow> needS e f s = (Inl e, s)"
  by (simp add: needS_def)

text \<open>
  A property kept by the primitive computations is kept by everything built from them:
  \<open>keepsS P m\<close> says that \<open>m\<close> leads from states with \<open>P\<close> to states with \<open>P\<close>, whether it
  returns or throws.
\<close>

definition keepsS :: "('s \<Rightarrow> bool) \<Rightarrow> ('s, 'e, 'a) smx \<Rightarrow> bool" where
  "keepsS P m \<longleftrightarrow> (\<forall>s. P s \<longrightarrow> P (snd (m s)))"

named_theorems keeps_intros \<open>compositional rules for keepsS\<close>

lemma keepsS_D: "keepsS P m \<Longrightarrow> P s \<Longrightarrow> m s = (r, s') \<Longrightarrow> P s'"
  by (metis keepsS_def snd_conv)

lemma keepsS_return [keeps_intros]: "keepsS P (returnS x)"
  by (simp add: keepsS_def)

lemma keepsS_throw [keeps_intros]: "keepsS P (throwS e)"
  by (simp add: keepsS_def)

lemma keepsS_get [keeps_intros]: "keepsS P (getS f)"
  by (simp add: keepsS_def)

lemma keepsS_need [keeps_intros]: "keepsS P (needS e f)"
  by (simp add: keepsS_def needS_def split: option.splits)

lemma keepsS_modify: "(\<And>s. P s \<Longrightarrow> P (f s)) \<Longrightarrow> keepsS P (modifyS f)"
  by (simp add: keepsS_def)

lemma keepsS_bind [keeps_intros]:
  "keepsS P m \<Longrightarrow> (\<And>x. keepsS P (f x)) \<Longrightarrow> keepsS P (bindS m f)"
  by (auto simp: keepsS_def bindS_def split: prod.splits sum.splits)

lemma keepsS_then [keeps_intros]: "keepsS P m \<Longrightarrow> keepsS P k \<Longrightarrow> keepsS P (thenS m k)"
  by (simp add: thenS_def keepsS_bind)

lemma keepsS_if [keeps_intros]:
  "(c \<Longrightarrow> keepsS P m) \<Longrightarrow> (\<not> c \<Longrightarrow> keepsS P k) \<Longrightarrow> keepsS P (if c then m else k)"
  by simp

section \<open>Buffers\<close>

text \<open>Storing the bytes \<open>bs\<close> in a buffer from index \<open>k\<close> on.\<close>

definition put_bytes :: "nat \<Rightarrow> buffer \<Rightarrow> buffer \<Rightarrow> buffer" where
  "put_bytes k bs buf = take k buf @ bs @ drop (k + length bs) buf"

lemma length_put_bytes [simp]: "k + length bs \<le> length buf \<Longrightarrow> length (put_bytes k bs buf) = length buf"
  by (simp add: put_bytes_def)

lemma put_bytes_all [simp]: "length bs = length buf \<Longrightarrow> put_bytes 0 bs buf = bs"
  by (simp add: put_bytes_def)

lemma put_bytes_append:
  "k + length bs \<le> length buf \<Longrightarrow> put_bytes (k + length bs) cs (put_bytes k bs buf) = put_bytes k (bs @ cs) buf"
  by (simp add: put_bytes_def min_absorb2 ac_simps)

lemma take_put_bytes_0 [simp]: "take (length bs) (put_bytes 0 bs buf) = bs"
  by (simp add: put_bytes_def)

section \<open>Association lists\<close>

lemma distinct_fst_update [simp]: "distinct (map fst (AList.update k v xs)) = distinct (map fst xs)"
  by (induction xs) (auto simp: AList.dom_update)

lemma in_set_AList_update:
  "(k', v') \<in> set (AList.update k v xs) \<Longrightarrow> (k', v') = (k, v) \<or> (k', v') \<in> set xs"
  by (induction xs) (auto split: if_splits)

section \<open>Words\<close>

lemma uint_and_31: "uint (a AND 31 :: u64) = uint a mod 32"
proof -
  have "a AND 31 = take_bit 5 a"
    by (simp add: take_bit_eq_mask mask_numeral)
  then show ?thesis
    by (simp add: take_bit_eq_mod uint_mod_distrib)
qed

lemma unat_and_31: "unat (a AND 31 :: u64) = unat a mod 32"
proof -
  have "a AND 31 = take_bit 5 a"
    by (simp add: take_bit_eq_mask mask_numeral)
  then show ?thesis
    by (simp add: take_bit_eq_mod unat_mod_distrib)
qed

lemma word_and_not_eq_diff: "a AND NOT b = a - (a AND b)" for a b :: "'l::len word"
proof -
  have "a - (a AND b) = a AND NOT (a AND b)"
    by (rule disjunctive_diff_eq_and_not) (simp add: bit_eq_iff bit_simps)
  also have "\<dots> = a AND NOT b"
    by (rule bit_word_eqI) (auto simp: bit_simps)
  finally show ?thesis ..
qed

lemma and_fff_take_bit: "x AND 0xfff = take_bit 12 x" for x :: u64
  by (simp add: take_bit_eq_mask mask_numeral)

lemma and_fff_page: "(x + 0x1000 * k) AND 0xfff = x AND 0xfff" for x k :: u64
proof -
  have "(i + 0x1000 * j) AND 0xfff = i AND 0xfff" for i j :: int
  proof -
    have "(0xfff :: int) = mask 12" by (simp add: mask_numeral)
    then show ?thesis by (simp only: flip: take_bit_eq_mask) (simp add: take_bit_eq_mod)
  qed
  then show ?thesis by transfer simp
qed

lemma and_ffffffff_take_bit: "w AND 0xffffffff = take_bit 32 w" for w :: u64
  by (simp add: take_bit_eq_mask mask_numeral)

lemma ucast_u8_u32_u8 [simp]: "ucast (ucast (c :: u8) :: u32) = c"
  by (rule bit_word_eqI) (simp add: bit_simps)

lemma ucast_u8_le: "(ucast (c :: u8) :: u32) \<le> 0xff"
proof -
  have "unat c < 2 ^ 8" using unsigned_less [of c, where ?'a = nat] by simp
  then show ?thesis by (simp add: word_le_nat_alt unsigned_ucast_eq take_bit_nat_eq_self)
qed

section \<open>Byte-addressed memories\<close>

text \<open>
  The abstract memory the stores are measured against: a partial map from addresses to bytes.
  \<open>upd_span m a bs\<close> stores \<open>bs\<close> at \<open>a, a + 1, ...\<close> (addresses wrap), \<open>span_of m a n\<close> lists
  what the \<open>n\<close> addresses from \<open>a\<close> on hold.
\<close>

definition upd_span :: "('l::len word \<Rightarrow> 'b option) \<Rightarrow> 'l word \<Rightarrow> 'b list \<Rightarrow> 'l word \<Rightarrow> 'b option" where
  "upd_span m a bs x = (if unat (x - a) < length bs then Some (bs ! unat (x - a)) else m x)"

definition span_of :: "('l::len word \<Rightarrow> 'c) \<Rightarrow> 'l word \<Rightarrow> nat \<Rightarrow> 'c list" where
  "span_of m a n = map (\<lambda>i. m (a + of_nat i)) [0..<n]"

lemma length_span_of [simp]: "length (span_of m a n) = n"
  by (simp add: span_of_def)

lemma nth_span_of [simp]: "i < n \<Longrightarrow> span_of m a n ! i = m (a + of_nat i)"
  by (simp add: span_of_def)

lemma span_of_add: "span_of m a (i + j) = span_of m a i @ span_of m (a + of_nat i) j"
  by (rule nth_equalityI) (auto simp: nth_append algebra_simps not_less of_nat_diff)

lemma span_of_split:
  assumes "span_of m a (i + j) = map Some bs"
  shows "span_of m a i = map Some (take i bs)" "span_of m (a + of_nat i) j = map Some (drop i bs)"
proof -
  have "span_of m a i = take i (span_of m a (i + j))" "span_of m (a + of_nat i) j = drop i (span_of m a (i + j))"
    by (simp_all add: span_of_add)
  then show "span_of m a i = map Some (take i bs)" "span_of m (a + of_nat i) j = map Some (drop i bs)"
    by (simp_all add: assms take_map drop_map)
qed

lemma span_of_cong:
  "a = b \<Longrightarrow> n = k \<Longrightarrow> (\<And>i. i < k \<Longrightarrow> m (b + of_nat i) = m' (b + of_nat i)) \<Longrightarrow> span_of m a n = span_of m' b k"
  by (simp add: span_of_def)

lemma upd_span_Nil [simp]: "upd_span m a [] = m"
  by (simp add: upd_span_def fun_eq_iff)

lemma upd_span_hit:
  "length bs \<le> 2 ^ LENGTH('l) \<Longrightarrow> i < length bs \<Longrightarrow> upd_span m (a::'l::len word) bs (a + of_nat i) = Some (bs ! i)"
  by (simp add: upd_span_def unat_of_nat)

lemma upd_span_miss: "\<not> unat (x - a) < length bs \<Longrightarrow> upd_span m a bs x = m x"
  by (simp add: upd_span_def)

lemma span_upd_span_same:
  "length bs \<le> 2 ^ LENGTH('l) \<Longrightarrow> span_of (upd_span m (a::'l::len word) bs) a (length bs) = map Some bs"
  by (rule nth_equalityI) (simp_all add: upd_span_hit)

lemma upd_span_id:
  assumes "span_of m a n = map Some bs"
  shows "upd_span m a bs = m"
proof
  fix x
  have len: "length bs = n" using arg_cong [OF assms, of length] by simp
  show "upd_span m a bs x = m x"
  proof (cases "unat (x - a) < n")
    case True
    then show ?thesis
      using arg_cong [OF assms, of "\<lambda>xs. xs ! unat (x - a)"] len by (simp add: upd_span_def)
  qed (simp add: upd_span_def len)
qed

lemma unat_diff_add:
  fixes a x :: "'l::len word"
  assumes "n < 2 ^ LENGTH('l)"
  shows "unat (x - (a + of_nat n)) =
    (if n \<le> unat (x - a) then unat (x - a) - n else unat (x - a) + 2 ^ LENGTH('l) - n)"
proof -
  have n: "unat (of_nat n :: 'l word) = n"
    using assms by (simp add: unat_of_nat)
  define d where "d = x - a"
  have "unat (d - of_nat n) = (if n \<le> unat d then unat d - n else unat d + 2 ^ LENGTH('l) - n)"
    using n by (simp add: unat_sub_if')
  then show ?thesis
    by (simp only: d_def diff_diff_eq)
qed

lemma upd_span_append:
  fixes a :: "'l::len word"
  assumes "length bs + length cs \<le> 2 ^ LENGTH('l)" "length bs < 2 ^ LENGTH('l)"
  shows "upd_span (upd_span m a bs) (a + of_nat (length bs)) cs = upd_span m a (bs @ cs)"
proof
  fix x
  let ?d = "unat (x - a)"
  have "unat (x - (a + of_nat (length bs)))
      = (if length bs \<le> ?d then ?d - length bs else ?d + 2 ^ LENGTH('l) - length bs)"
    using assms(2) by (rule unat_diff_add)
  then show "upd_span (upd_span m a bs) (a + of_nat (length bs)) cs x = upd_span m a (bs @ cs) x"
    using assms(1) by (auto simp: upd_span_def nth_append)
qed

text \<open>Two spans of addresses share no address.\<close>

definition disjoint_spans :: "'l::len word \<Rightarrow> nat \<Rightarrow> 'l word \<Rightarrow> nat \<Rightarrow> bool" where
  "disjoint_spans a n b k \<longleftrightarrow> n \<le> unat (b - a) \<and> k \<le> unat (a - b)"

lemma disjoint_spans_miss:
  fixes a b :: "'l::len word"
  assumes "disjoint_spans a n b k" "i < k"
  shows "\<not> unat (b + of_nat i - a) < n"
proof -
  have "i < unat (a - b)" using assms by (simp add: disjoint_spans_def)
  also have "unat (a - b) < 2 ^ LENGTH('l)" by (rule unsigned_less)
  finally have i: "unat (of_nat i :: 'l word) = i"
    by (simp add: unat_of_nat)
  define d where "d = b - a"
  define e where "e = a - b"
  have "e = 0 - d" by (simp add: d_def e_def)
  then have e: "unat e = (if unat d = 0 then 0 else 2 ^ LENGTH('l) - unat d)"
    by (simp only: unat_sub_if') simp
  have bi: "b + of_nat i - a = d + of_nat i" by (simp add: d_def)
  have "n \<le> unat d" "k \<le> unat e" using assms(1) by (simp_all add: disjoint_spans_def d_def e_def)
  then show ?thesis
    unfolding bi using assms(2) i e by (auto simp: unat_plus_if' split: if_splits)
qed

lemma span_upd_span_disjoint:
  "disjoint_spans a (length bs) b k \<Longrightarrow> span_of (upd_span m a bs) b k = span_of m b k"
  by (rule span_of_cong) (simp_all add: upd_span_miss disjoint_spans_miss)

lemma span_of_nth_Some:
  assumes "map Some out = span_of f a n" "i < n"
  shows "f (a + of_nat i) = Some (out ! i)"
proof -
  have "length out = n" using arg_cong [OF assms(1), of length] by simp
  then show ?thesis
    using assms(2) arg_cong [OF assms(1), of "\<lambda>xs. xs ! i"] by simp
qed

lemma span_of_mono:
  assumes "map Some out = span_of f a n" "\<And>x v. f x = Some v \<Longrightarrow> g x = Some v"
  shows "span_of g a n = map Some out"
proof -
  have len: "length out = n" using arg_cong [OF assms(1), of length] by simp
  show ?thesis
    by (rule nth_equalityI) (simp_all add: len assms(2) span_of_nth_Some [OF assms(1)])
qed

section \<open>Words as bytes\<close>

text \<open>
  \<open>word_bytes n w\<close> are the low \<open>n\<close> bytes of \<open>w\<close>, least significant first, \<open>bytes_word\<close> puts bytes
  together again; \<open>host_bytes\<close> and \<open>host_word\<close> are the same in the byte order of the host, which a
  pointer cast in the C++ code exposes.
\<close>

primrec word_bytes :: "nat \<Rightarrow> 'l::len word \<Rightarrow> buffer" where
  "word_bytes 0 w = []"
| "word_bytes (Suc n) w = ucast w # word_bytes n (drop_bit 8 w)"

primrec bytes_word :: "buffer \<Rightarrow> 'l::len word" where
  "bytes_word [] = 0"
| "bytes_word (b # bs) = ucast b OR push_bit 8 (bytes_word bs)"

definition host_bytes :: "bool \<Rightarrow> nat \<Rightarrow> 'l::len word \<Rightarrow> buffer" where
  "host_bytes big n w = (if big then rev (word_bytes n w) else word_bytes n w)"

definition host_word :: "bool \<Rightarrow> buffer \<Rightarrow> 'l::len word" where
  "host_word big bs = bytes_word (if big then rev bs else bs)"

lemma length_word_bytes [simp]: "length (word_bytes n w) = n"
  by (induction n arbitrary: w) simp_all

lemma length_host_bytes [simp]: "length (host_bytes big n w) = n"
  by (simp add: host_bytes_def)

lemma nth_word_bytes: "i < n \<Longrightarrow> word_bytes n w ! i = ucast (drop_bit (8 * i) w)"
proof (induction n arbitrary: i w)
  case (Suc n)
  then show ?case
    by (cases i) (simp_all add: drop_bit_drop_bit add.commute)
qed simp

lemma bit_bytes_word:
  "bit (bytes_word bs :: 'l::len word) k \<longleftrightarrow> k < LENGTH('l) \<and> k div 8 < length bs \<and> bit (bs ! (k div 8)) (k mod 8)"
proof (induction bs arbitrary: k)
  case (Cons b bs)
  show ?case
  proof (cases "k < 8")
    case True
    then have "k div 8 = 0" "k mod 8 = k" by simp_all
    with True show ?thesis by (simp add: bit_or_iff bit_push_bit_iff bit_ucast_iff)
  next
    case False
    then have k: "k div 8 = Suc ((k - 8) div 8)" "k mod 8 = (k - 8) mod 8"
      by (simp_all add: le_div_geq le_mod_geq)
    have "\<not> bit b k" using False bit_imp_le_length [of b k] by auto
    then show ?thesis
      using False by (auto simp: k bit_or_iff bit_push_bit_iff bit_ucast_iff Cons.IH)
  qed
qed simp

lemma bytes_word_bytes: "bytes_word (word_bytes n w) = take_bit (8 * n) w" for w :: "'l::len word"
proof (rule bit_word_eqI)
  fix k assume k: "k < LENGTH('l)"
  have lt: "k div 8 < n \<longleftrightarrow> k < 8 * n" by (simp add: less_mult_imp_div_less div_less_iff_less_mult mult.commute)
  have "8 * (k div 8) + k mod 8 = k" by simp
  then show "bit (bytes_word (word_bytes n w) :: 'l word) k = bit (take_bit (8 * n) w) k"
    using k lt by (auto simp: bit_bytes_word nth_word_bytes bit_simps)
qed

lemma word_bytes_word:
  assumes "8 * length bs \<le> LENGTH('l)"
  shows "word_bytes (length bs) (bytes_word bs :: 'l::len word) = bs"
proof (rule nth_equalityI)
  fix i assume "i < length (word_bytes (length bs) (bytes_word bs :: 'l word))"
  then have i: "i < length bs" by simp
  show "word_bytes (length bs) (bytes_word bs :: 'l word) ! i = bs ! i"
  proof (rule bit_word_eqI)
    fix k assume "k < LENGTH(8)"
    then have k: "k < 8" by simp
    then have "8 * i + k < LENGTH('l)" using i assms by linarith
    with i k show "bit (word_bytes (length bs) (bytes_word bs :: 'l word) ! i) k = bit (bs ! i) k"
      by (simp add: nth_word_bytes bit_simps bit_bytes_word)
  qed
qed simp

lemma host_word_bytes: "host_word big (host_bytes big n w) = take_bit (8 * n) w" for w :: "'l::len word"
  by (simp add: host_word_def host_bytes_def bytes_word_bytes)

lemma host_bytes_word:
  assumes "8 * length bs \<le> LENGTH('l)"
  shows "host_bytes big (length bs) (host_word big bs :: 'l::len word) = bs"
  using word_bytes_word [where 'l = 'l, of bs] word_bytes_word [where 'l = 'l, of "rev bs"] assms
  by (simp add: host_word_def host_bytes_def)

lemma take_bit_32_u32 [simp]: "take_bit 32 (w :: u32) = w"
  by (simp add: take_bit_length_eq [where 'a = 32, simplified])

end
