(* ===== verification/Phys_Mem.thy ===== *)
theory Phys_Mem
  imports Prelude
begin

text \<open>
  The physical memory store, \<open>src/physical_memory.C\<close> and \<open>include/physical_memory.h\<close>:
  memory blocks of 32 bytes with a free-byte mask and an initial-value shadow
  (class MemBlock), and the block map with accesses that may straddle two blocks (class
  PhysicalMemory). The \<open>verbose\<close> prints, the \<open>DO_TRACE\<close> and \<open>DO_BLOCKMEM_SUMMARY\<close> code,
  which the build does not compile, and NULL buffers, which no caller passes, are left out.
\<close>

unbundle bit_operations_syntax

section \<open>Constants and host environment\<close>

definition PM_BLOCK_SIZE :: int where
  "PM_BLOCK_SIZE = 32"

definition ALL_BYTES_DEFINED :: int where
  "ALL_BYTES_DEFINED = 0"

definition SOME_BYTES_UNDEFINED :: int where
  "SOME_BYTES_UNDEFINED = 1"

definition ALL_BYTES_FREE :: int where
  "ALL_BYTES_FREE = 2"

definition RANDOM_INITIAL_VALUE :: u32 where
  "RANDOM_INITIAL_VALUE = 0x100"

datatype MBLOCK_ERROR = SPLIT_ACCESS | MEM_ERROR

text \<open>
  What the store takes from the C run time: the values successive calls of \<open>rand()\<close> return, and
  the indeterminate contents of memory fresh from \<open>new unsigned char[]\<close>. Both are arbitrary
  sequences with a read position.
\<close>

record host_env =
  rand_seq :: "nat \<Rightarrow> u32"
  rand_pos :: nat
  junk_seq :: "nat \<Rightarrow> u8"
  junk_pos :: nat

definition host_rand :: "host_env \<Rightarrow> u32 \<times> host_env" where
  "host_rand h = (rand_seq h (rand_pos h), h\<lparr>rand_pos := rand_pos h + 1\<rparr>)"

definition host_new :: "nat \<Rightarrow> host_env \<Rightarrow> buffer \<times> host_env" where
  "host_new n h = (map (junk_seq h) [junk_pos h..<junk_pos h + n], h\<lparr>junk_pos := junk_pos h + n\<rparr>)"

section \<open>Class MemBlock\<close>

record MemBlock =
  mptr :: "buffer option"
  mptr_init :: "buffer option"
  free_bytes :: u64
  initial_byte_value :: u32

definition MemBlock_new :: MemBlock where
  "MemBlock_new = \<lparr>mptr = None, mptr_init = None, free_bytes = 0,
     initial_byte_value = RANDOM_INITIAL_VALUE\<rparr>"

definition SetInitialByteValue :: "u32 \<Rightarrow> MemBlock \<Rightarrow> MemBlock" where
  "SetInitialByteValue bval b = b\<lparr>initial_byte_value := bval\<rparr>"

definition BlockAddress :: "u64 \<Rightarrow> u64" where
  "BlockAddress address = address AND NOT (32 - 1)"

definition Offset :: "u64 \<Rightarrow> int" where
  "Offset address = uint (address AND (32 - 1))"

definition ValidateAccess :: "int \<Rightarrow> int \<Rightarrow> MBLOCK_ERROR + unit" where
  "ValidateAccess offset number_of_bytes =
     (if offset < 0 \<or> PM_BLOCK_SIZE \<le> offset then Inl MEM_ERROR
      else if number_of_bytes \<le> 0 \<or> PM_BLOCK_SIZE < number_of_bytes then Inl MEM_ERROR
      else if PM_BLOCK_SIZE < offset + number_of_bytes then Inl SPLIT_ACCESS
      else Inr ())"

definition AllocateBlock :: "MemBlock \<Rightarrow> host_env \<Rightarrow> MemBlock \<times> host_env" where
  "AllocateBlock b h =
     (case mptr b of
        Some _ \<Rightarrow> (b, h)
      | None \<Rightarrow> let (m, h') = host_new 32 h
                 in (b\<lparr>mptr := Some m, free_bytes := 0xffffffffffffffff\<rparr>, h'))"

definition InitialByteValue :: "MemBlock \<Rightarrow> host_env \<Rightarrow> u8 \<times> host_env" where
  "InitialByteValue b h =
     (if initial_byte_value b = RANDOM_INITIAL_VALUE
      then let (r, h') = host_rand h in (ucast (r AND 0xff), h')
      else (ucast (initial_byte_value b), h))"

fun init_loop :: "nat \<Rightarrow> MemBlock \<Rightarrow> host_env \<Rightarrow> buffer \<times> host_env" where
  "init_loop 0 b h = ([], h)"
| "init_loop (Suc n) b h =
     (let (v, h1) = InitialByteValue b h; (vs, h2) = init_loop n b h1 in (v # vs, h2))"

definition AllocateInitBlock :: "MemBlock \<Rightarrow> host_env \<Rightarrow> MemBlock \<times> host_env" where
  "AllocateInitBlock b h =
     (case mptr_init b of
        Some _ \<Rightarrow> (b, h)
      | None \<Rightarrow> let (m, h') = init_loop 32 b h in (b\<lparr>mptr_init := Some m\<rparr>, h'))"

text \<open>A dereferenced NULL pointer is \<open>the None\<close>, of which nothing can be proved.\<close>

definition ReadByte :: "nat \<Rightarrow> MemBlock \<Rightarrow> u8" where
  "ReadByte buffer_index b = the (mptr b) ! buffer_index"

definition ReadFreeByte :: "nat \<Rightarrow> MemBlock \<Rightarrow> u8" where
  "ReadFreeByte index b = the (mptr_init b) ! index"

definition WriteByte :: "nat \<Rightarrow> u8 \<Rightarrow> bool \<Rightarrow> MemBlock \<Rightarrow> MemBlock" where
  "WriteByte buffer_index byte_val is_initial_value b =
     (let b1 = b\<lparr>mptr := Some ((the (mptr b))[buffer_index := byte_val]),
                free_bytes := free_bytes b AND NOT (push_bit buffer_index 1)\<rparr>
      in if is_initial_value
         then b1\<lparr>mptr_init := Some ((the (mptr_init b))[buffer_index := byte_val])\<rparr>
         else b1)"

definition ByteIsFree :: "nat \<Rightarrow> MemBlock \<Rightarrow> bool" where
  "ByteIsFree buffer_index b \<longleftrightarrow> free_bytes b AND push_bit buffer_index 1 \<noteq> 0"

definition ByteCount :: "MemBlock \<Rightarrow> nat" where
  "ByteCount b = length (filter (\<lambda>i. \<not> ByteIsFree i b) [0..<32])"

definition MemBlock_ReadInitialState :: "u64 \<Rightarrow> bool \<Rightarrow> MemBlock \<Rightarrow> MBLOCK_ERROR + buffer" where
  "MemBlock_ReadInitialState address is_data b =
     (if Offset address \<noteq> 0 then Inl MEM_ERROR
      else case (if is_data then mptr_init b else mptr b) of
             None \<Rightarrow> Inl MEM_ERROR
           | Some m \<Rightarrow> Inr m)"

definition write_loop :: "nat \<Rightarrow> buffer \<Rightarrow> nat \<Rightarrow> bool \<Rightarrow> MemBlock \<Rightarrow> MemBlock" where
  "write_loop offset buf n initial_values b =
     foldl (\<lambda>b i. WriteByte (offset + i) (buf ! i) initial_values b) b [0..<n]"

definition MemBlock_Write ::
    "u64 \<Rightarrow> buffer \<Rightarrow> int \<Rightarrow> bool \<Rightarrow> MemBlock \<Rightarrow> host_env \<Rightarrow> (MBLOCK_ERROR + int) \<times> MemBlock \<times> host_env" where
  "MemBlock_Write address buf number_of_bytes initial_values b h =
     (let offset = Offset address
      in case ValidateAccess offset number_of_bytes of
           Inl e \<Rightarrow> (Inl e, b, h)
         | Inr _ \<Rightarrow>
             let (b1, h1) = AllocateBlock b h;
                 (b2, h2) = AllocateInitBlock b1 h1;
                 b3 = write_loop (nat offset) buf (nat number_of_bytes) initial_values b2
             in if ByteCount b3 = 0 then (Inl MEM_ERROR, b3, h2) else (Inr 0, b3, h2))"

text \<open>One turn of the read loop: the block, the count of undefined bytes and the bytes stored so far.\<close>

definition read_turn :: "nat \<Rightarrow> bool \<Rightarrow> MemBlock \<times> nat \<times> buffer \<Rightarrow> nat \<Rightarrow> MemBlock \<times> nat \<times> buffer" where
  "read_turn offset init_if_free acc i =
     (let (b, undef_count, out) = acc;
          buffer_index = offset + i;
          next_byte_value = ReadFreeByte buffer_index b
      in if ByteIsFree buffer_index b
         then (if init_if_free then WriteByte buffer_index next_byte_value False b else b,
               undef_count + 1, out @ [next_byte_value])
         else (b, undef_count, out @ [ReadByte buffer_index b]))"

definition read_loop :: "nat \<Rightarrow> bool \<Rightarrow> nat \<Rightarrow> MemBlock \<Rightarrow> MemBlock \<times> nat \<times> buffer" where
  "read_loop offset init_if_free n b = foldl (read_turn offset init_if_free) (b, 0, []) [0..<n]"

definition MemBlock_Read ::
    "u64 \<Rightarrow> int \<Rightarrow> bool \<Rightarrow> MemBlock \<Rightarrow> host_env \<Rightarrow> (MBLOCK_ERROR + int \<times> buffer) \<times> MemBlock \<times> host_env" where
  "MemBlock_Read address number_of_bytes init_if_free b h =
     (let offset = Offset address
      in case ValidateAccess offset number_of_bytes of
           Inl e \<Rightarrow> (Inl e, b, h)
         | Inr _ \<Rightarrow>
             let (b1, h1) = AllocateBlock b h;
                 (b2, h2) = AllocateInitBlock b1 h1;
                 (b3, undef_count, out) = read_loop (nat offset) init_if_free (nat number_of_bytes) b2;
                 rcode = (if int undef_count = number_of_bytes then ALL_BYTES_FREE
                          else if 0 < undef_count then SOME_BYTES_UNDEFINED
                          else ALL_BYTES_DEFINED)
             in if ByteCount b3 = 0 \<and> init_if_free then (Inl MEM_ERROR, b3, h2)
                else (Inr (rcode, out), b3, h2))"

section \<open>Class PhysicalMemory\<close>

text \<open>
  The hash map of blocks is an association list in insertion order; C++ leaves the iteration
  order of \<open>unordered_map\<close> open, and the only iteration, in \<open>AddressList\<close>, feeds a sort.
\<close>

record PhysicalMemory =
  physical_memory_by_block :: "(u64 \<times> MemBlock) list"
  pm_host :: host_env

definition PhysicalMemory_new :: "host_env \<Rightarrow> PhysicalMemory" where
  "PhysicalMemory_new h = \<lparr>physical_memory_by_block = [], pm_host = h\<rparr>"

text \<open>\<open>operator[]\<close> of the map: an absent block is default-constructed and stays in the map.\<close>

definition block_at :: "PhysicalMemory \<Rightarrow> u64 \<Rightarrow> MemBlock" where
  "block_at pm k = (case map_of (physical_memory_by_block pm) k of None \<Rightarrow> MemBlock_new | Some b \<Rightarrow> b)"

definition put_block :: "u64 \<Rightarrow> MemBlock \<Rightarrow> host_env \<Rightarrow> PhysicalMemory \<Rightarrow> PhysicalMemory" where
  "put_block k b h pm =
     pm\<lparr>physical_memory_by_block := AList.update k b (physical_memory_by_block pm), pm_host := h\<rparr>"

definition write_at ::
    "u64 \<Rightarrow> u64 \<Rightarrow> buffer \<Rightarrow> int \<Rightarrow> bool \<Rightarrow> PhysicalMemory \<Rightarrow> (MBLOCK_ERROR + int) \<times> PhysicalMemory" where
  "write_at k address buf n initial_values pm =
     (let (r, b, h) = MemBlock_Write address buf n initial_values (block_at pm k) (pm_host pm)
      in (r, put_block k b h pm))"

definition read_at ::
    "u64 \<Rightarrow> u64 \<Rightarrow> int \<Rightarrow> bool \<Rightarrow> PhysicalMemory \<Rightarrow> (MBLOCK_ERROR + int \<times> buffer) \<times> PhysicalMemory" where
  "read_at k address n init_if_free pm =
     (let (r, b, h) = MemBlock_Read address n init_if_free (block_at pm k) (pm_host pm)
      in (r, put_block k b h pm))"

definition BlockWrite ::
    "u64 \<Rightarrow> buffer \<Rightarrow> int \<Rightarrow> bool \<Rightarrow> PhysicalMemory \<Rightarrow> (MBLOCK_ERROR + int) \<times> PhysicalMemory" where
  "BlockWrite address buf number_of_bytes initial_values pm =
     (case write_at (BlockAddress address) address buf number_of_bytes initial_values pm of
        (Inr _, pm1) \<Rightarrow> (Inr 0, pm1)
      | (Inl MEM_ERROR, pm1) \<Rightarrow> (Inl MEM_ERROR, pm1)
      | (Inl SPLIT_ACCESS, pm1) \<Rightarrow>
          let address_1st_line = BlockAddress address;
              address_2nd_line = address_1st_line + 32;
              numbytes_1st_line = PM_BLOCK_SIZE - Offset address;
              numbytes_2nd_line = number_of_bytes - numbytes_1st_line
          in case write_at address_1st_line address buf numbytes_1st_line initial_values pm1 of
               (Inl e, pm2) \<Rightarrow> (Inl e, pm2)
             | (Inr _, pm2) \<Rightarrow>
                 (case write_at address_2nd_line (address + word_of_int numbytes_1st_line)
                         (drop (nat numbytes_1st_line) buf) numbytes_2nd_line initial_values pm2 of
                    (Inl e, pm3) \<Rightarrow> (Inl e, pm3)
                  | (Inr _, pm3) \<Rightarrow> (Inr 0, pm3)))"

definition BlockRead ::
    "u64 \<Rightarrow> bool \<Rightarrow> int \<Rightarrow> PhysicalMemory \<Rightarrow> (MBLOCK_ERROR + int \<times> buffer) \<times> PhysicalMemory" where
  "BlockRead address init_if_free number_of_bytes pm =
     (case read_at (BlockAddress address) address number_of_bytes init_if_free pm of
        (Inr r, pm1) \<Rightarrow> (Inr r, pm1)
      | (Inl MEM_ERROR, pm1) \<Rightarrow> (Inl MEM_ERROR, pm1)
      | (Inl SPLIT_ACCESS, pm1) \<Rightarrow>
          let address_1st_line = BlockAddress address;
              address_2nd_line = address_1st_line + 32;
              numbytes_1st_line = PM_BLOCK_SIZE - Offset address;
              numbytes_2nd_line = number_of_bytes - numbytes_1st_line
          in case read_at address_1st_line address numbytes_1st_line init_if_free pm1 of
               (Inl e, pm2) \<Rightarrow> (Inl e, pm2)
             | (Inr (rcode1, out1), pm2) \<Rightarrow>
                 (case read_at address_2nd_line (address + word_of_int numbytes_1st_line)
                         numbytes_2nd_line init_if_free pm2 of
                    (Inl e, pm3) \<Rightarrow> (Inl e, pm3)
                  | (Inr (rcode2, out2), pm3) \<Rightarrow>
                      (Inr (if rcode1 = rcode2 then rcode1 else SOME_BYTES_UNDEFINED, out1 @ out2), pm3)))"

definition PhysicalMemory_Write ::
    "u64 \<Rightarrow> buffer \<Rightarrow> int \<Rightarrow> bool \<Rightarrow> PhysicalMemory \<Rightarrow> (MBLOCK_ERROR + int) \<times> PhysicalMemory" where
  "PhysicalMemory_Write address buf number_of_bytes initial_values pm =
     (case BlockWrite address buf number_of_bytes initial_values pm of
        (Inl e, pm1) \<Rightarrow> (Inl e, pm1)
      | (Inr _, pm1) \<Rightarrow> (Inr 0, pm1))"

definition PhysicalMemory_Read ::
    "u64 \<Rightarrow> bool \<Rightarrow> int \<Rightarrow> PhysicalMemory \<Rightarrow> (MBLOCK_ERROR + int \<times> buffer) \<times> PhysicalMemory" where
  "PhysicalMemory_Read address init_if_free number_of_bytes pm =
     BlockRead address init_if_free number_of_bytes pm"

definition PhysicalMemory_ReadInitialState ::
    "u64 \<Rightarrow> bool \<Rightarrow> PhysicalMemory \<Rightarrow> (MBLOCK_ERROR + buffer) \<times> PhysicalMemory" where
  "PhysicalMemory_ReadInitialState address is_data pm =
     (if Offset address \<noteq> 0 then (Inl MEM_ERROR, pm)
      else (MemBlock_ReadInitialState address is_data (block_at pm address),
            put_block address (block_at pm address) (pm_host pm) pm))"

definition AddressList :: "bool \<Rightarrow> PhysicalMemory \<Rightarrow> u64 list" where
  "AddressList skip_empty_blocks pm =
     map fst (filter (\<lambda>(k, b). \<not> skip_empty_blocks \<or> 0 < ByteCount b) (physical_memory_by_block pm))"

section \<open>Addresses, blocks and offsets\<close>

lemma Offset_eq: "Offset a = int (unat a mod 32)"
  by (simp add: Offset_def uint_and_31 zmod_int)

lemma nat_Offset: "nat (Offset a) = unat a mod 32"
  by (simp add: Offset_eq)

lemma Offset_bounds [simp]: "0 \<le> Offset a" "Offset a < 32" "\<not> Offset a < 0" "\<not> 32 \<le> Offset a"
  by (simp_all add: Offset_eq)

lemma BlockAddress_eq: "BlockAddress a = a - of_nat (unat a mod 32)"
  using word_and_not_eq_diff [of a 31] by (simp add: BlockAddress_def flip: unat_and_31)

lemma unat_BlockAddress: "unat (BlockAddress a) = unat a - unat a mod 32"
proof -
  have "of_nat (unat a mod 32) = a AND 31"
    by (simp flip: unat_and_31)
  then show ?thesis
    unfolding BlockAddress_eq by (simp add: unat_sub_if' unat_and_31)
qed

lemma block_plus_offset: "BlockAddress a + of_nat (unat a mod 32) = a"
  by (simp add: BlockAddress_eq)

lemma BlockAddress_eqI:
  assumes "unat k mod 32 = 0" "j < 32"
  shows "BlockAddress (k + of_nat j) = k" "unat (k + of_nat j) mod 32 = j"
proof -
  have lt: "unat k < 2 ^ 64" using unsigned_less [of k] by simp
  have no_wrap: "unat k + j < 2 ^ 64"
  proof -
    obtain q where q: "unat k = 32 * q" using assms(1) by fastforce
    then show ?thesis using lt assms(2) by simp
  qed
  have u: "unat (k + of_nat j) = unat k + j"
    using assms(2) no_wrap by (simp add: unat_word_ariths(1) unat_of_nat)
  show m: "unat (k + of_nat j) mod 32 = j"
    using assms by (simp add: u mod_add_eq [symmetric])
  show "BlockAddress (k + of_nat j) = k"
    using m by (simp add: BlockAddress_eq)
qed

lemma aligned_block [simp]: "unat (BlockAddress a) mod 32 = 0"
  by (simp add: unat_BlockAddress minus_mod_eq_div_mult)

lemma aligned_next_block: "unat (BlockAddress a + 32) mod 32 = 0"
proof -
  have "unat (BlockAddress a + 32) mod 32 = (unat (BlockAddress a) + 32) mod 32"
    by (simp only: unat_word_ariths(1)) (simp add: mod_mod_cancel)
  then show ?thesis
    by simp
qed

lemma BlockAddress_add:
  assumes "unat a mod 32 + i < 32"
  shows "BlockAddress (a + of_nat i) = BlockAddress a" "unat (a + of_nat i) mod 32 = unat a mod 32 + i"
proof -
  have "a + of_nat i = BlockAddress a + of_nat (unat a mod 32 + i)"
    by (metis (no_types, lifting) add.assoc block_plus_offset of_nat_add)
  then show "BlockAddress (a + of_nat i) = BlockAddress a" "unat (a + of_nat i) mod 32 = unat a mod 32 + i"
    using BlockAddress_eqI [OF aligned_block assms, of a] by metis+
qed

lemma second_line:
  assumes "unat a mod 32 + n = 32"
  shows "a + of_nat n = BlockAddress a + 32" "BlockAddress (a + of_nat n) = BlockAddress a + 32"
    "unat (a + of_nat n) mod 32 = 0"
proof -
  have "a + of_nat n = BlockAddress a + of_nat (unat a mod 32 + n)"
    by (metis (no_types, lifting) add.assoc block_plus_offset of_nat_add)
  then show e: "a + of_nat n = BlockAddress a + 32"
    using assms by simp
  show "BlockAddress (a + of_nat n) = BlockAddress a + 32" "unat (a + of_nat n) mod 32 = 0"
    unfolding e using BlockAddress_eqI [OF aligned_next_block, of 0 a] by (simp_all add: aligned_next_block)
qed

text \<open>An access inside one block touches exactly the addresses of that block in its index range.\<close>

lemma span_in_block_diff:
  assumes "BlockAddress x = BlockAddress a" "unat a mod 32 \<le> unat x mod 32"
  shows "unat (x - a) = unat x mod 32 - unat a mod 32"
proof -
  have "x - a = of_nat (unat x mod 32) - of_nat (unat a mod 32)"
    using assms(1) block_plus_offset [of x] block_plus_offset [of a] by (metis add_diff_cancel_left)
  also have "\<dots> = of_nat (unat x mod 32 - unat a mod 32)"
    using assms(2) by (simp add: of_nat_diff)
  also have "unat \<dots> = unat x mod 32 - unat a mod 32"
    by (subst unat_of_nat, rule mod_less) (simp add: less_imp_diff_less)
  finally show ?thesis .
qed

lemma span_in_block:
  assumes "unat a mod 32 + n \<le> 32"
  shows "unat (x - a) < n \<longleftrightarrow>
    BlockAddress x = BlockAddress a \<and> unat a mod 32 \<le> unat x mod 32 \<and> unat x mod 32 < unat a mod 32 + n"
    (is "?l \<longleftrightarrow> ?r")
proof
  assume l: ?l
  have "x = a + of_nat (unat (x - a))" by simp
  with l show ?r
    using BlockAddress_add [of a "unat (x - a)"] assms by auto
next
  assume ?r
  with span_in_block_diff [of x a] show ?l by simp linarith
qed

section \<open>Blocks: well-formedness and contents\<close>

text \<open>
  A block is either untouched or has both its arrays. \<open>block_byte\<close> is the value of a byte in
  use, \<open>block_view\<close> what a read delivers once the block is allocated.
\<close>

definition wf_block :: "MemBlock \<Rightarrow> bool" where
  "wf_block b \<longleftrightarrow>
     (case (mptr b, mptr_init b) of
        (None, None) \<Rightarrow> free_bytes b = 0
      | (Some m, Some m0) \<Rightarrow> length m = 32 \<and> length m0 = 32
      | _ \<Rightarrow> False)"

definition allocated :: "MemBlock \<Rightarrow> bool" where
  "allocated b \<longleftrightarrow> mptr b \<noteq> None"

definition block_byte :: "MemBlock \<Rightarrow> nat \<Rightarrow> u8 option" where
  "block_byte b i = (case mptr b of None \<Rightarrow> None
     | Some m \<Rightarrow> if ByteIsFree i b then None else Some (m ! i))"

definition block_init :: "MemBlock \<Rightarrow> nat \<Rightarrow> u8 option" where
  "block_init b i = (case mptr_init b of None \<Rightarrow> None | Some m \<Rightarrow> Some (m ! i))"

definition block_view :: "MemBlock \<Rightarrow> nat \<Rightarrow> u8 option" where
  "block_view b i = (case block_byte b i of None \<Rightarrow> block_init b i | Some v \<Rightarrow> Some v)"

lemma wf_MemBlock_new [simp]: "wf_block MemBlock_new"
  by (simp add: wf_block_def MemBlock_new_def)

lemma ByteIsFree_iff: "i < 64 \<Longrightarrow> ByteIsFree i b \<longleftrightarrow> bit (free_bytes b) i"
  by (auto simp: ByteIsFree_def bit_iff_and_push_bit_not_eq_0)

lemma wf_allocated:
  assumes "wf_block b" "allocated b"
  obtains m m0 where "mptr b = Some m" "mptr_init b = Some m0" "length m = 32" "length m0 = 32"
  using assms by (auto simp: wf_block_def allocated_def split: option.splits)

lemma allocated_viewed: "wf_block b \<Longrightarrow> allocated b \<Longrightarrow> \<exists>v. block_view b i = Some v"
  by (erule (1) wf_allocated) (simp add: block_view_def block_byte_def block_init_def)

lemma length_init_loop: "init_loop n b h = (m, h') \<Longrightarrow> length m = n"
  by (induction n b h arbitrary: m h' rule: init_loop.induct) (auto split: prod.splits)

lemma length_host_new: "host_new n h = (m, h') \<Longrightarrow> length m = n"
  by (auto simp: host_new_def)

lemma bit_all_ones: "i < 64 \<Longrightarrow> bit (0xffffffffffffffff :: int) i"
proof -
  have "(0xffffffffffffffff :: int) = mask 64" by (simp add: mask_eq_exp_minus_1)
  then show "i < 64 \<Longrightarrow> ?thesis" by (simp only: bit_mask_iff) simp
qed

text \<open>Allocating a block leaves the bytes in use and every delivered value as they were.\<close>

definition prepare :: "MemBlock \<Rightarrow> host_env \<Rightarrow> MemBlock \<times> host_env" where
  "prepare b h = (let (b1, h1) = AllocateBlock b h in AllocateInitBlock b1 h1)"

lemma prepare_ok:
  assumes "wf_block b" "prepare b h = (b', h')"
  shows "wf_block b'" "allocated b'" "i < 32 \<Longrightarrow> block_byte b' i = block_byte b i"
    "block_init b i = Some v \<Longrightarrow> block_init b' i = Some v" "allocated b \<Longrightarrow> b' = b"
  using assms
  by (auto simp: prepare_def AllocateBlock_def AllocateInitBlock_def wf_block_def allocated_def
        block_byte_def block_init_def ByteIsFree_iff bit_all_ones
      split: option.splits prod.splits dest!: length_host_new length_init_loop)

lemma block_view_mono:
  assumes "block_byte b' i = block_byte b i"
    and "\<And>v. block_init b i = Some v \<Longrightarrow> block_init b' i = Some v"
    and "block_view b i = Some v"
  shows "block_view b' i = Some v"
  using assms by (auto simp: block_view_def split: option.splits)

lemma WriteByte_ok:
  assumes "wf_block b" "allocated b" "j < 32"
  shows "wf_block (WriteByte j v iv b)" "allocated (WriteByte j v iv b)"
    "i < 32 \<Longrightarrow> block_byte (WriteByte j v iv b) i = (if i = j then Some v else block_byte b i)"
    "i < 32 \<Longrightarrow> block_init (WriteByte j v iv b) i = (if iv \<and> i = j then Some v else block_init b i)"
proof -
  obtain m m0 where b: "mptr b = Some m" "mptr_init b = Some m0" "length m = 32" "length m0 = 32"
    using assms(1,2) by (rule wf_allocated)
  show "wf_block (WriteByte j v iv b)" "allocated (WriteByte j v iv b)"
    using b by (simp_all add: WriteByte_def Let_def wf_block_def allocated_def)
  show "i < 32 \<Longrightarrow> block_byte (WriteByte j v iv b) i = (if i = j then Some v else block_byte b i)"
    using b assms(3)
    by (simp add: WriteByte_def Let_def block_byte_def ByteIsFree_iff bit_simps nth_list_update)
  show "i < 32 \<Longrightarrow> block_init (WriteByte j v iv b) i = (if iv \<and> i = j then Some v else block_init b i)"
    using b assms(3) by (simp add: WriteByte_def Let_def block_init_def nth_list_update)
qed

lemma write_loop_Suc:
  "write_loop off buf (Suc n) iv b = WriteByte (off + n) (buf ! n) iv (write_loop off buf n iv b)"
  by (simp add: write_loop_def)

lemma write_loop_ok:
  assumes "wf_block b" "allocated b" "off + n \<le> 32"
  shows "wf_block (write_loop off buf n iv b) \<and> allocated (write_loop off buf n iv b) \<and>
    (\<forall>i<32. block_byte (write_loop off buf n iv b) i
       = (if off \<le> i \<and> i < off + n then Some (buf ! (i - off)) else block_byte b i) \<and>
     block_init (write_loop off buf n iv b) i
       = (if iv \<and> off \<le> i \<and> i < off + n then Some (buf ! (i - off)) else block_init b i))"
  using assms(3)
proof (induction n)
  case 0
  then show ?case using assms by (auto simp: write_loop_def)
next
  case (Suc n)
  then have IH: "wf_block (write_loop off buf n iv b)" "allocated (write_loop off buf n iv b)"
    by simp_all
  note W = WriteByte_ok [OF IH, of "off + n"]
  show ?case
    using Suc W by (auto simp: write_loop_Suc less_Suc_eq)
qed

lemma ByteCount_pos: "i < 32 \<Longrightarrow> block_byte b i \<noteq> None \<Longrightarrow> 0 < ByteCount b"
  by (auto simp: ByteCount_def block_byte_def filter_empty_conv split: option.splits if_splits)

text \<open>A valid write to one block.\<close>

lemma ValidateAccess_ok:
  assumes "0 < n" "Offset a + n \<le> 32"
  shows "ValidateAccess (Offset a) n = Inr ()"
proof -
  have "n \<le> 32" using assms(2) Offset_bounds(1) [of a] by linarith
  then show ?thesis using assms by (simp add: ValidateAccess_def PM_BLOCK_SIZE_def)
qed

lemma ValidateAccess_split:
  "0 < n \<Longrightarrow> n \<le> 32 \<Longrightarrow> 32 < Offset a + n \<Longrightarrow> ValidateAccess (Offset a) n = Inl SPLIT_ACCESS"
  by (simp add: ValidateAccess_def PM_BLOCK_SIZE_def)

lemma ValidateAccess_bad: "n \<le> 0 \<or> 32 < n \<Longrightarrow> ValidateAccess (Offset a) n = Inl MEM_ERROR"
  by (auto simp: ValidateAccess_def PM_BLOCK_SIZE_def)

lemma MemBlock_Write_ok:
  assumes "wf_block b" "0 < n" "unat a mod 32 + n \<le> 32"
  obtains b' h' where "MemBlock_Write a buf (int n) iv b h = (Inr 0, b', h')"
    "wf_block b'" "allocated b'"
    "\<And>i. i < 32 \<Longrightarrow> block_byte b' i =
       (if unat a mod 32 \<le> i \<and> i < unat a mod 32 + n then Some (buf ! (i - unat a mod 32)) else block_byte b i)"
    "\<And>i v. i < 32 \<Longrightarrow> block_init b i = Some v \<Longrightarrow> block_init b' i =
       Some (if iv \<and> unat a mod 32 \<le> i \<and> i < unat a mod 32 + n then buf ! (i - unat a mod 32) else v)"
proof -
  obtain b2 h2 where p: "prepare b h = (b2, h2)" by fastforce
  note P = prepare_ok [OF assms(1) p]
  let ?b' = "write_loop (unat a mod 32) buf n iv b2"
  note W = write_loop_ok [OF P(1,2) assms(3), of buf iv]
  have "block_byte ?b' (unat a mod 32) \<noteq> None"
    using W assms(2) by simp
  then have "0 < ByteCount ?b'"
    by (rule ByteCount_pos [rotated]) simp
  moreover have "ValidateAccess (Offset a) (int n) = Inr ()"
    by (rule ValidateAccess_ok) (use assms in \<open>simp_all add: Offset_eq\<close>)
  ultimately have "MemBlock_Write a buf (int n) iv b h = (Inr 0, ?b', h2)"
    using p by (auto simp: MemBlock_Write_def Let_def nat_Offset prepare_def split: prod.splits)
  then show thesis
    using W P by (intro that [of ?b' h2]) auto
qed

text \<open>A valid read of one block.\<close>

lemma read_loop_Suc: "read_loop off ini (Suc n) b = read_turn off ini (read_loop off ini n b) n"
  by (simp add: read_loop_def)

lemma read_loop_ok:
  assumes "wf_block b" "allocated b" "off + n \<le> 32" "read_loop off ini n b = (b', u, out)"
  shows "wf_block b' \<and> allocated b' \<and> map Some out = map (\<lambda>i. block_view b (off + i)) [0..<n] \<and>
    u = length (filter (\<lambda>i. block_byte b (off + i) = None) [0..<n]) \<and>
    (\<forall>i<32. block_byte b' i = (if ini \<and> off \<le> i \<and> i < off + n then block_view b i else block_byte b i) \<and>
      block_init b' i = block_init b i)"
  using assms(3,4)
proof (induction n arbitrary: b' u out)
  case 0
  then show ?case using assms(1,2) by (auto simp: read_loop_def)
next
  case (Suc n)
  obtain b1 u1 out1 where r: "read_loop off ini n b = (b1, u1, out1)"
    by (cases "read_loop off ini n b") auto
  from Suc.prems have lt: "off + n < 32" by simp
  have IH: "wf_block b1" "allocated b1" "map Some out1 = map (\<lambda>i. block_view b (off + i)) [0..<n]"
    "u1 = length (filter (\<lambda>i. block_byte b (off + i) = None) [0..<n])"
    "\<And>i. i < 32 \<Longrightarrow> block_byte b1 i = (if ini \<and> off \<le> i \<and> i < off + n then block_view b i else block_byte b i)"
    "\<And>i. i < 32 \<Longrightarrow> block_init b1 i = block_init b i"
    using Suc.IH [OF _ r] Suc.prems by simp_all
  obtain m m0 where m: "mptr b1 = Some m" "mptr_init b1 = Some m0"
    using IH(1,2) by (rule wf_allocated)
  have "block_byte b1 (off + n) = (if ByteIsFree (off + n) b1 then None else Some (ReadByte (off + n) b1))"
    "block_init b1 (off + n) = Some (ReadFreeByte (off + n) b1)"
    using m by (simp_all add: block_byte_def block_init_def ReadByte_def ReadFreeByte_def)
  then have rd: "ByteIsFree (off + n) b1 \<longleftrightarrow> block_byte b (off + n) = None"
    "\<not> ByteIsFree (off + n) b1 \<Longrightarrow> block_byte b (off + n) = Some (ReadByte (off + n) b1)"
    "block_init b (off + n) = Some (ReadFreeByte (off + n) b1)"
    using IH(5,6) [OF lt] by (auto split: if_splits)
  note W = WriteByte_ok [OF IH(1,2) lt]
  show ?case
  proof (cases "ByteIsFree (off + n) b1")
    case True
    then have "block_view b (off + n) = Some (ReadFreeByte (off + n) b1)"
      using rd by (simp add: block_view_def)
    then show ?thesis
      using Suc.prems(2) True rd IH W by (auto simp: read_loop_Suc r read_turn_def Let_def less_Suc_eq)
  next
    case False
    then have "block_view b (off + n) = Some (ReadByte (off + n) b1)"
      using rd by (simp add: block_view_def)
    then show ?thesis
      using Suc.prems(2) False rd IH W by (auto simp: read_loop_Suc r read_turn_def Let_def less_Suc_eq)
  qed
qed

definition read_code :: "nat \<Rightarrow> u8 option list \<Rightarrow> int" where
  "read_code n vs =
     (let u = length (filter (\<lambda>v. v = None) vs)
      in if u = n then ALL_BYTES_FREE else if 0 < u then SOME_BYTES_UNDEFINED else ALL_BYTES_DEFINED)"

lemma MemBlock_Read_ok:
  assumes "wf_block b" "0 < n" "unat a mod 32 + n \<le> 32"
  obtains b' h' out where
    "MemBlock_Read a (int n) ini b h =
       (Inr (read_code n (map (\<lambda>i. block_byte b (unat a mod 32 + i)) [0..<n]), out), b', h')"
    "wf_block b'" "allocated b'"
    "map Some out = map (\<lambda>i. block_view b' (unat a mod 32 + i)) [0..<n]"
    "\<And>i v. i < 32 \<Longrightarrow> block_view b i = Some v \<Longrightarrow> block_view b' i = Some v"
    "\<And>i. i < 32 \<Longrightarrow> block_byte b' i =
       (if ini \<and> unat a mod 32 \<le> i \<and> i < unat a mod 32 + n then block_view b' i else block_byte b i)"
proof -
  let ?o = "unat a mod 32"
  obtain b2 h2 where p: "prepare b h = (b2, h2)" by fastforce
  note P = prepare_ok [OF assms(1) p]
  obtain b' u out where r: "read_loop ?o ini n b2 = (b', u, out)" by (metis prod_cases3)
  note R = read_loop_ok [OF P(1,2) assms(3) r]
  have view: "block_view b' i = block_view b2 i" if "i < 32" for i
    using R that allocated_viewed [OF P(1,2), of i] by (auto simp: block_view_def split: option.splits)
  have vmono: "block_view b2 i = Some v" if "i < 32" "block_view b i = Some v" for i v
    using block_view_mono [of b2 i b v] P(3,4) that by blast
  have u: "u = length (filter (\<lambda>v. v = None) (map (\<lambda>i. block_byte b (?o + i)) [0..<n]))"
    using R P(3) assms(3) by (auto simp: filter_map o_def intro!: arg_cong [of _ _ length] filter_cong)
  have "0 < ByteCount b' \<or> \<not> ini"
    using R assms(2) allocated_viewed [OF P(1,2), of ?o] ByteCount_pos [of ?o b'] by auto
  moreover have "ValidateAccess (Offset a) (int n) = Inr ()"
    by (rule ValidateAccess_ok) (use assms in \<open>simp_all add: Offset_eq\<close>)
  ultimately have "MemBlock_Read a (int n) ini b h =
      (Inr (read_code n (map (\<lambda>i. block_byte b (?o + i)) [0..<n]), out), b', h2)"
    using p r by (auto simp: MemBlock_Read_def Let_def nat_Offset prepare_def read_code_def u split: prod.splits)
  moreover have "map Some out = map (\<lambda>i. block_view b' (?o + i)) [0..<n]"
    using R view assms(3) by auto
  ultimately show thesis
    using R P(3) view vmono by (intro that [of out b' h2]) auto
qed

section \<open>The store: well-formedness and contents\<close>

definition wf_pm :: "PhysicalMemory \<Rightarrow> bool" where
  "wf_pm pm \<longleftrightarrow> distinct (map fst (physical_memory_by_block pm)) \<and>
     list_all (\<lambda>(k, b). Offset k = 0 \<and> wf_block b) (physical_memory_by_block pm)"

text \<open>The bytes in use, and what a read delivers where the block has been touched.\<close>

definition pm_byte :: "PhysicalMemory \<Rightarrow> u64 \<Rightarrow> u8 option" where
  "pm_byte pm a = block_byte (block_at pm (BlockAddress a)) (nat (Offset a))"

definition pm_view :: "PhysicalMemory \<Rightarrow> u64 \<Rightarrow> u8 option" where
  "pm_view pm a = block_view (block_at pm (BlockAddress a)) (nat (Offset a))"

lemma pm_view_byte: "pm_byte pm a = Some v \<Longrightarrow> pm_view pm a = Some v"
  by (simp add: pm_byte_def pm_view_def block_view_def)

lemma wf_PhysicalMemory_new [simp]: "wf_pm (PhysicalMemory_new h)"
  by (simp add: wf_pm_def PhysicalMemory_new_def)

lemma wf_block_at: "wf_pm pm \<Longrightarrow> wf_block (block_at pm k)"
  by (auto simp: wf_pm_def block_at_def list_all_iff dest: map_of_SomeD split: option.splits)

lemma wf_put_block:
  "wf_pm pm \<Longrightarrow> wf_block b \<Longrightarrow> unat k mod 32 = 0 \<Longrightarrow> wf_pm (put_block k b h pm)"
  by (auto simp: wf_pm_def put_block_def list_all_iff Offset_eq dest!: in_set_AList_update)

lemma block_at_put_block: "block_at (put_block k b h pm) k' = (if k' = k then b else block_at pm k')"
  by (simp add: block_at_def put_block_def update_conv)

lemma put_same_block [simp]:
  "pm_byte (put_block k (block_at pm k) h pm) = pm_byte pm"
  "pm_view (put_block k (block_at pm k) h pm) = pm_view pm"
  by (simp_all add: fun_eq_iff pm_byte_def pm_view_def block_at_put_block)

lemma write_at_ok:
  assumes "wf_pm pm" "0 < n" "unat a mod 32 + n \<le> 32" "n \<le> length buf"
  obtains pm' where "write_at (BlockAddress a) a buf (int n) iv pm = (Inr 0, pm')" "wf_pm pm'"
    "pm_byte pm' = upd_span (pm_byte pm) a (take n buf)"
    "\<And>x v. \<not> unat (x - a) < n \<Longrightarrow> pm_view pm x = Some v \<Longrightarrow> pm_view pm' x = Some v"
proof -
  let ?k = "BlockAddress a"
  obtain b' h' where w: "MemBlock_Write a buf (int n) iv (block_at pm ?k) (pm_host pm) = (Inr 0, b', h')"
    and b': "wf_block b'" "allocated b'"
    and byte: "\<And>i. i < 32 \<Longrightarrow> block_byte b' i = (if unat a mod 32 \<le> i \<and> i < unat a mod 32 + n
       then Some (buf ! (i - unat a mod 32)) else block_byte (block_at pm ?k) i)"
    and ini: "\<And>i v. i < 32 \<Longrightarrow> block_init (block_at pm ?k) i = Some v \<Longrightarrow> block_init b' i =
       Some (if iv \<and> unat a mod 32 \<le> i \<and> i < unat a mod 32 + n then buf ! (i - unat a mod 32) else v)"
    by (rule MemBlock_Write_ok [OF wf_block_at [OF assms(1)] assms(2,3)]) (rule that)
  let ?pm' = "put_block ?k b' h' pm"
  have "write_at ?k a buf (int n) iv pm = (Inr 0, ?pm')"
    by (simp add: write_at_def w)
  moreover have "wf_pm ?pm'"
    using assms(1) b'(1) by (simp add: wf_put_block)
  moreover have "pm_byte ?pm' x = upd_span (pm_byte pm) a (take n buf) x" for x
    using byte [of "unat x mod 32"] span_in_block [OF assms(3), of x] span_in_block_diff [of x a] assms(4)
    by (auto simp: pm_byte_def upd_span_def block_at_put_block nat_Offset)
  moreover have "pm_view ?pm' x = Some v" if "\<not> unat (x - a) < n" "pm_view pm x = Some v" for x v
    using that byte [of "unat x mod 32"] ini [of "unat x mod 32"] span_in_block [OF assms(3), of x]
    by (auto simp: pm_view_def block_view_def block_at_put_block nat_Offset split: option.splits)
  ultimately show thesis
    by (intro that [of ?pm']) auto
qed

lemma read_at_ok:
  assumes "wf_pm pm" "0 < n" "unat a mod 32 + n \<le> 32"
  obtains pm' out where
    "read_at (BlockAddress a) a (int n) ini pm = (Inr (read_code n (span_of (pm_byte pm) a n), out), pm')"
    "wf_pm pm'" "map Some out = span_of (pm_view pm') a n"
    "\<And>x v. pm_view pm x = Some v \<Longrightarrow> pm_view pm' x = Some v"
    "pm_byte pm' = (if ini then upd_span (pm_byte pm) a out else pm_byte pm)"
proof -
  let ?k = "BlockAddress a" and ?o = "unat a mod 32"
  obtain b' h' out where
    r: "MemBlock_Read a (int n) ini (block_at pm ?k) (pm_host pm) =
       (Inr (read_code n (map (\<lambda>i. block_byte (block_at pm ?k) (?o + i)) [0..<n]), out), b', h')"
    and b': "wf_block b'" "allocated b'"
    and out: "map Some out = map (\<lambda>i. block_view b' (?o + i)) [0..<n]"
    and view: "\<And>i v. i < 32 \<Longrightarrow> block_view (block_at pm ?k) i = Some v \<Longrightarrow> block_view b' i = Some v"
    and byte: "\<And>i. i < 32 \<Longrightarrow> block_byte b' i =
       (if ini \<and> ?o \<le> i \<and> i < ?o + n then block_view b' i else block_byte (block_at pm ?k) i)"
    by (rule MemBlock_Read_ok [OF wf_block_at [OF assms(1)] assms(2,3)]) (rule that)
  let ?pm' = "put_block ?k b' h' pm"
  have add: "BlockAddress (a + of_nat i) = ?k" "unat (a + of_nat i) mod 32 = ?o + i" if "i < n" for i
    using BlockAddress_add [of a i] that assms(3) by simp_all
  have "map (\<lambda>i. block_byte (block_at pm ?k) (?o + i)) [0..<n] = span_of (pm_byte pm) a n"
    by (simp add: span_of_def pm_byte_def nat_Offset add)
  moreover have span: "map Some out = span_of (pm_view ?pm') a n"
    by (simp add: out span_of_def pm_view_def nat_Offset add block_at_put_block)
  moreover have "pm_view ?pm' x = Some v" if "pm_view pm x = Some v" for x v
    using view [of "unat x mod 32"] that by (auto simp: pm_view_def nat_Offset block_at_put_block)
  moreover have "pm_byte ?pm' x = (if ini then upd_span (pm_byte pm) a out else pm_byte pm) x" for x
  proof -
    have len: "length out = n" using arg_cong [OF out, of length] by simp
    have hit: "Some (out ! i) = block_view b' (?o + i)" if "i < n" for i
      using arg_cong [OF out, of "\<lambda>xs. xs ! i"] len that by simp
    show ?thesis
      using byte [of "unat x mod 32"] span_in_block [OF assms(3), of x] span_in_block_diff [of x a] hit len
      by (auto simp: pm_byte_def upd_span_def block_at_put_block nat_Offset)
  qed
  ultimately show thesis
    using assms(1) b'(1) r by (intro that [of out ?pm']) (auto simp: read_at_def wf_put_block)
qed

section \<open>Accesses that straddle two blocks\<close>

lemma write_at_error:
  "ValidateAccess (Offset a) n = Inl e \<Longrightarrow>
    write_at k a buf n iv pm = (Inl e, put_block k (block_at pm k) (pm_host pm) pm)"
  by (simp add: write_at_def MemBlock_Write_def)

lemma read_at_error:
  "ValidateAccess (Offset a) n = Inl e \<Longrightarrow>
    read_at k a n ini pm = (Inl e, put_block k (block_at pm k) (pm_host pm) pm)"
  by (simp add: read_at_def MemBlock_Read_def)

lemma wf_put_same: "wf_pm pm \<Longrightarrow> wf_pm (put_block (BlockAddress a) (block_at pm (BlockAddress a)) h pm)"
  by (simp add: wf_put_block wf_block_at)

text \<open>The two parts of an access that crosses into the next block.\<close>

lemma split_parts:
  assumes "n \<le> 32" "\<not> unat a mod 32 + n \<le> 32"
  obtains n1 n2 where "n = n1 + n2" "0 < n1" "0 < n2" "n1 \<le> 32" "n2 \<le> 32"
    "PM_BLOCK_SIZE - Offset a = int n1" "int n - int n1 = int n2"
    "unat a mod 32 + n1 = 32" "unat (a + of_nat n1) mod 32 + n2 \<le> 32"
    "BlockAddress a + 32 = BlockAddress (a + of_nat n1)"
    "ValidateAccess (Offset a) (int n) = Inl SPLIT_ACCESS"
proof -
  let ?n1 = "32 - unat a mod 32"
  have o: "unat a mod 32 < 32" by simp
  then have s: "unat a mod 32 + ?n1 = 32" by simp
  have v: "ValidateAccess (Offset a) (int n) = Inl SPLIT_ACCESS"
    using assms by (intro ValidateAccess_split) (simp_all add: Offset_eq)
  show thesis
    by (rule that [of ?n1 "n - ?n1"])
      (use assms o second_line [OF s] in \<open>simp_all add: v [unfolded Offset_eq] PM_BLOCK_SIZE_def Offset_eq\<close>)
qed

lemma PhysicalMemory_Write_ok:
  assumes "wf_pm pm" "0 < n" "n \<le> 32" "n \<le> length buf"
  obtains pm' where "PhysicalMemory_Write a buf (int n) iv pm = (Inr 0, pm')" "wf_pm pm'"
    "pm_byte pm' = upd_span (pm_byte pm) a (take n buf)"
    "\<And>x v. \<not> unat (x - a) < n \<Longrightarrow> pm_view pm x = Some v \<Longrightarrow> pm_view pm' x = Some v"
proof (cases "unat a mod 32 + n \<le> 32")
  case True
  obtain pm' where "write_at (BlockAddress a) a buf (int n) iv pm = (Inr 0, pm')" "wf_pm pm'"
    "pm_byte pm' = upd_span (pm_byte pm) a (take n buf)"
    "\<And>x v. \<not> unat (x - a) < n \<Longrightarrow> pm_view pm x = Some v \<Longrightarrow> pm_view pm' x = Some v"
    by (rule write_at_ok [OF assms(1,2) True assms(4)]) (rule that)
  then show thesis
    by (intro that [of pm']) (simp_all add: PhysicalMemory_Write_def BlockWrite_def)
next
  case False
  obtain n1 n2 where n: "n = n1 + n2" "0 < n1" "0 < n2" "n1 \<le> 32" "n2 \<le> 32"
    and ints: "PM_BLOCK_SIZE - Offset a = int n1" "int n - int n1 = int n2"
    and offs: "unat a mod 32 + n1 = 32" "unat (a + of_nat n1) mod 32 + n2 \<le> 32"
    and line2: "BlockAddress a + 32 = BlockAddress (a + of_nat n1)"
    and split: "ValidateAccess (Offset a) (int n) = Inl SPLIT_ACCESS"
    by (rule split_parts [OF assms(3) False])
  define pm1 where "pm1 = put_block (BlockAddress a) (block_at pm (BlockAddress a)) (pm_host pm) pm"
  have pm1: "wf_pm pm1" "pm_byte pm1 = pm_byte pm" "pm_view pm1 = pm_view pm"
    using assms(1) by (simp_all add: pm1_def wf_put_same)
  have len: "n1 \<le> length buf" "n2 \<le> length (drop n1 buf)" using n assms(4) by simp_all
  obtain pm2 where w2: "write_at (BlockAddress a) a buf (int n1) iv pm1 = (Inr 0, pm2)" "wf_pm pm2"
    "pm_byte pm2 = upd_span (pm_byte pm1) a (take n1 buf)"
    "\<And>x v. \<not> unat (x - a) < n1 \<Longrightarrow> pm_view pm1 x = Some v \<Longrightarrow> pm_view pm2 x = Some v"
    using offs(1) by (auto intro: write_at_ok [OF pm1(1) n(2) _ len(1), of a iv])
  let ?a2 = "a + of_nat n1"
  obtain pm3 where w3: "write_at (BlockAddress ?a2) ?a2 (drop n1 buf) (int n2) iv pm2 = (Inr 0, pm3)" "wf_pm pm3"
    "pm_byte pm3 = upd_span (pm_byte pm2) ?a2 (take n2 (drop n1 buf))"
    "\<And>x v. \<not> unat (x - ?a2) < n2 \<Longrightarrow> pm_view pm2 x = Some v \<Longrightarrow> pm_view pm3 x = Some v"
    by (rule write_at_ok [OF w2(2) n(3) offs(2) len(2)]) (rule that)
  have "PhysicalMemory_Write a buf (int n) iv pm = (Inr 0, pm3)"
    using w2(1) w3(1)
    by (simp add: PhysicalMemory_Write_def BlockWrite_def write_at_error [OF split] Let_def ints line2
        flip: pm1_def)
  moreover have "pm_byte pm3 = upd_span (pm_byte pm) a (take n buf)"
    using upd_span_append [of "take n1 buf" "take n2 (drop n1 buf)" "pm_byte pm" a] n len
    by (simp add: w3(3) w2(3) pm1(2) take_add min_absorb2)
  moreover have "pm_view pm3 x = Some v" if "\<not> unat (x - a) < n" "pm_view pm x = Some v" for x v
    using that w2(4) [of x v] w3(4) [of x v] unat_diff_add [of n1 x a] n pm1(3) by (auto split: if_splits)
  ultimately show thesis
    using w3(2) by (intro that [of pm3]) auto
qed

lemma read_code_append:
  assumes "length vs = i" "length ws = j" "0 < i" "0 < j"
  shows "(if read_code i vs = read_code j ws then read_code i vs else SOME_BYTES_UNDEFINED)
    = read_code (i + j) (vs @ ws)"
  using assms length_filter_le [of "\<lambda>v. v = None" vs] length_filter_le [of "\<lambda>v. v = None" ws]
  by (auto simp: read_code_def Let_def ALL_BYTES_DEFINED_def SOME_BYTES_UNDEFINED_def ALL_BYTES_FREE_def)

lemma PhysicalMemory_Read_ok:
  assumes "wf_pm pm" "0 < n" "n \<le> 32"
  obtains pm' out where
    "PhysicalMemory_Read a ini (int n) pm = (Inr (read_code n (span_of (pm_byte pm) a n), out), pm')"
    "wf_pm pm'" "map Some out = span_of (pm_view pm') a n"
    "\<And>x v. pm_view pm x = Some v \<Longrightarrow> pm_view pm' x = Some v"
    "pm_byte pm' = (if ini then upd_span (pm_byte pm) a out else pm_byte pm)"
proof (cases "unat a mod 32 + n \<le> 32")
  case True
  obtain pm' out where
    "read_at (BlockAddress a) a (int n) ini pm = (Inr (read_code n (span_of (pm_byte pm) a n), out), pm')"
    "wf_pm pm'" "map Some out = span_of (pm_view pm') a n"
    "\<And>x v. pm_view pm x = Some v \<Longrightarrow> pm_view pm' x = Some v"
    "pm_byte pm' = (if ini then upd_span (pm_byte pm) a out else pm_byte pm)"
    by (rule read_at_ok [OF assms(1,2) True]) (rule that)
  then show thesis
    by (intro that [of out pm']) (simp_all add: PhysicalMemory_Read_def BlockRead_def)
next
  case False
  obtain n1 n2 where n: "n = n1 + n2" "0 < n1" "0 < n2" "n1 \<le> 32" "n2 \<le> 32"
    and ints: "PM_BLOCK_SIZE - Offset a = int n1" "int n - int n1 = int n2"
    and offs: "unat a mod 32 + n1 = 32" "unat (a + of_nat n1) mod 32 + n2 \<le> 32"
    and line2: "BlockAddress a + 32 = BlockAddress (a + of_nat n1)"
    and split: "ValidateAccess (Offset a) (int n) = Inl SPLIT_ACCESS"
    by (rule split_parts [OF assms(3) False])
  define pm1 where "pm1 = put_block (BlockAddress a) (block_at pm (BlockAddress a)) (pm_host pm) pm"
  have pm1: "wf_pm pm1" "pm_byte pm1 = pm_byte pm" "pm_view pm1 = pm_view pm"
    using assms(1) by (simp_all add: pm1_def wf_put_same)
  let ?a2 = "a + of_nat n1"
  obtain pm2 out1 where r2:
    "read_at (BlockAddress a) a (int n1) ini pm1 = (Inr (read_code n1 (span_of (pm_byte pm) a n1), out1), pm2)"
    "wf_pm pm2" "map Some out1 = span_of (pm_view pm2) a n1"
    "\<And>x v. pm_view pm x = Some v \<Longrightarrow> pm_view pm2 x = Some v"
    "pm_byte pm2 = (if ini then upd_span (pm_byte pm) a out1 else pm_byte pm)"
    by (rule read_at_ok [OF pm1(1) n(2) eq_imp_le [OF offs(1)], unfolded pm1(2,3)]) (rule that)
  obtain pm3 out2 where r3:
    "read_at (BlockAddress ?a2) ?a2 (int n2) ini pm2 =
       (Inr (read_code n2 (span_of (pm_byte pm2) ?a2 n2), out2), pm3)"
    "wf_pm pm3" "map Some out2 = span_of (pm_view pm3) ?a2 n2"
    "\<And>x v. pm_view pm2 x = Some v \<Longrightarrow> pm_view pm3 x = Some v"
    "pm_byte pm3 = (if ini then upd_span (pm_byte pm2) ?a2 out2 else pm_byte pm2)"
    by (rule read_at_ok [OF r2(2) n(3) offs(2)]) (rule that)
  have len: "length out1 = n1" "length out2 = n2"
    using arg_cong [OF r2(3), of length] arg_cong [OF r3(3), of length] by simp_all
  have "disjoint_spans a n1 ?a2 n2"
    using n unat_diff_add [of n1 a a] by (simp add: disjoint_spans_def unat_of_nat)
  then have code2: "span_of (pm_byte pm2) ?a2 n2 = span_of (pm_byte pm) ?a2 n2"
    using r2(5) len by (simp add: span_upd_span_disjoint)
  have code: "(if read_code n1 (span_of (pm_byte pm) a n1) = read_code n2 (span_of (pm_byte pm) ?a2 n2)
      then read_code n1 (span_of (pm_byte pm) a n1) else SOME_BYTES_UNDEFINED)
    = read_code n (span_of (pm_byte pm) a n)"
    using read_code_append [of "span_of (pm_byte pm) a n1" n1 "span_of (pm_byte pm) ?a2 n2" n2] n
    by (simp add: span_of_add)
  have "PhysicalMemory_Read a ini (int n) pm = (Inr (read_code n (span_of (pm_byte pm) a n), out1 @ out2), pm3)"
    using r2(1) r3(1) code
    by (simp add: PhysicalMemory_Read_def BlockRead_def read_at_error [OF split] Let_def ints line2 code2
        flip: pm1_def)
  moreover have "span_of (pm_view pm3) a n1 = map Some out1"
    using r2(3) r3(4) by (rule span_of_mono)
  then have "map Some (out1 @ out2) = span_of (pm_view pm3) a n"
    by (simp add: n(1) span_of_add r3(3))
  moreover have "pm_byte pm3 = (if ini then upd_span (pm_byte pm) a (out1 @ out2) else pm_byte pm)"
    using upd_span_append [of out1 out2 "pm_byte pm" a] n len r2(5) r3(5) by simp
  ultimately show thesis
    using r2(4) r3(2,4) by (intro that [of "out1 @ out2" pm3]) auto
qed

section \<open>The interface of a byte store\<close>

text \<open>
  What the memory model relies on: a store whose writes update exactly the bytes addressed and
  whose reads deliver the bytes in use, give an unwritten byte a value that stays the same, and
  change no byte in use. The bound of 32 bytes is the block size.
\<close>

locale byte_store =
  fixes ok :: "'s \<Rightarrow> bool"
    and byte :: "'s \<Rightarrow> u64 \<Rightarrow> u8 option"
    and view :: "'s \<Rightarrow> u64 \<Rightarrow> u8 option"
    and wr :: "u64 \<Rightarrow> buffer \<Rightarrow> 's \<Rightarrow> 's"
    and rd :: "u64 \<Rightarrow> nat \<Rightarrow> 's \<Rightarrow> buffer \<times> 's"
  assumes view_byte: "byte s a = Some v \<Longrightarrow> view s a = Some v"
    and wr_ok: "ok s \<Longrightarrow> 0 < length bs \<Longrightarrow> length bs \<le> 32 \<Longrightarrow> ok (wr a bs s)"
    and wr_byte: "ok s \<Longrightarrow> 0 < length bs \<Longrightarrow> length bs \<le> 32 \<Longrightarrow> byte (wr a bs s) = upd_span (byte s) a bs"
    and wr_view: "ok s \<Longrightarrow> 0 < length bs \<Longrightarrow> length bs \<le> 32 \<Longrightarrow> \<not> unat (x - a) < length bs \<Longrightarrow>
      view s x = Some v \<Longrightarrow> view (wr a bs s) x = Some v"
    and rd_ok: "ok s \<Longrightarrow> 0 < n \<Longrightarrow> n \<le> 32 \<Longrightarrow> ok (snd (rd a n s))"
    and rd_out: "ok s \<Longrightarrow> 0 < n \<Longrightarrow> n \<le> 32 \<Longrightarrow>
      map Some (fst (rd a n s)) = span_of (view (snd (rd a n s))) a n"
    and rd_view: "ok s \<Longrightarrow> 0 < n \<Longrightarrow> n \<le> 32 \<Longrightarrow> view s x = Some v \<Longrightarrow> view (snd (rd a n s)) x = Some v"
begin

lemma read_viewed:
  assumes "ok s" "0 < n" "n \<le> 32" "span_of (view s) a n = map Some bs"
  shows "fst (rd a n s) = bs"
proof -
  have "span_of (view (snd (rd a n s))) a n = map Some bs"
    using assms(4) [symmetric] rd_view [OF assms(1-3)] by (rule span_of_mono)
  then have "map Some (fst (rd a n s)) = map Some bs"
    using rd_out [OF assms(1-3)] by simp
  then show ?thesis by (simp add: inj_map_eq_map)
qed

lemma read_defined:
  assumes "ok s" "0 < n" "n \<le> 32" "span_of (byte s) a n = map Some bs"
  shows "fst (rd a n s) = bs"
  using assms(1-3)
  by (rule read_viewed) (rule span_of_mono [OF assms(4) [symmetric] view_byte])

lemma read_own_write:
  assumes "ok s" "0 < length bs" "length bs \<le> 32"
  shows "fst (rd a (length bs) (wr a bs s)) = bs"
proof (rule read_defined)
  show "ok (wr a bs s)" using assms by (rule wr_ok)
  show "span_of (byte (wr a bs s)) a (length bs) = map Some bs"
    using assms(3) by (simp add: wr_byte [OF assms] span_upd_span_same)
qed (use assms in simp_all)

lemma read_other_write:
  assumes "ok s" "0 < length bs" "length bs \<le> 32" "0 < n" "n \<le> 32" "disjoint_spans a (length bs) b n"
  shows "fst (rd b n (wr a bs (snd (rd b n s)))) = fst (rd b n s)"
proof (rule read_viewed)
  note r = assms(1) assms(4,5)
  show "ok (wr a bs (snd (rd b n s)))"
    using rd_ok [OF r] assms(2,3) by (rule wr_ok)
  have "span_of (view (wr a bs (snd (rd b n s)))) b n = span_of (view (snd (rd b n s))) b n"
  proof (rule span_of_cong [OF refl refl])
    fix i assume "i < n"
    then have miss: "\<not> unat (b + of_nat i - a) < length bs"
      using assms(6) by (simp add: disjoint_spans_miss)
    have "view (snd (rd b n s)) (b + of_nat i) = Some (fst (rd b n s) ! i)"
      using rd_out [OF r] \<open>i < n\<close> by (rule span_of_nth_Some)
    then show "view (wr a bs (snd (rd b n s))) (b + of_nat i) = view (snd (rd b n s)) (b + of_nat i)"
      using wr_view [OF rd_ok [OF r] assms(2,3) miss] by simp
  qed
  then show "span_of (view (wr a bs (snd (rd b n s)))) b n = map Some (fst (rd b n s))"
    using rd_out [OF r] by simp
qed (use assms in simp_all)

lemma read_twice:
  assumes "ok s" "0 < n" "n \<le> 32"
  shows "fst (rd a n (snd (rd a n s))) = fst (rd a n s)"
  using rd_ok [OF assms] assms(2,3) rd_out [OF assms, symmetric] by (rule read_viewed)

end

text \<open>The store's own operations, at accesses of a legal size.\<close>

definition store_write :: "bool \<Rightarrow> u64 \<Rightarrow> buffer \<Rightarrow> PhysicalMemory \<Rightarrow> PhysicalMemory" where
  "store_write iv a bs pm = snd (PhysicalMemory_Write a bs (int (length bs)) iv pm)"

definition store_read :: "bool \<Rightarrow> u64 \<Rightarrow> nat \<Rightarrow> PhysicalMemory \<Rightarrow> buffer \<times> PhysicalMemory" where
  "store_read ini a n pm =
     (case PhysicalMemory_Read a ini (int n) pm of
        (Inl _, pm') \<Rightarrow> ([], pm')
      | (Inr (_, out), pm') \<Rightarrow> (out, pm'))"

interpretation pms: byte_store wf_pm pm_byte pm_view "store_write iv" "store_read ini" for iv ini
proof (unfold_locales, goal_cases)
  case 1
  then show ?case by (rule pm_view_byte)
next
  case (2 s bs a)
  show ?case
    by (rule PhysicalMemory_Write_ok [OF 2 order_refl, of a iv]) (simp add: store_write_def)
next
  case (3 s bs a)
  show ?case
    by (rule PhysicalMemory_Write_ok [OF 3 order_refl, of a iv]) (simp add: store_write_def)
next
  case (4 s bs x a v)
  show ?case by (rule PhysicalMemory_Write_ok [OF 4(1-3) order_refl, of a iv]) (use 4 in \<open>auto simp: store_write_def\<close>)
next
  case (5 s n a)
  then show ?case by (rule PhysicalMemory_Read_ok [of _ _ a ini]) (auto simp: store_read_def)
next
  case (6 s n a)
  then show ?case by (rule PhysicalMemory_Read_ok [of _ _ a ini]) (auto simp: store_read_def)
next
  case (7 s n x v a)
  show ?case by (rule PhysicalMemory_Read_ok [OF 7(1-3), of a ini]) (use 7 in \<open>auto simp: store_read_def\<close>)
qed

section \<open>Correctness of the store\<close>

text \<open>A host for concrete runs: \<open>rand()\<close> counts, fresh memory holds 0xcd.\<close>

definition demo_host :: host_env where
  "demo_host = \<lparr>rand_seq = of_nat, rand_pos = 0, junk_seq = (\<lambda>_. 0xcd), junk_pos = 0\<rparr>"

text \<open>
  C16. Refinement of a write: an access of 1 to 32 bytes at any address, in one block or across
  two, wrapping at the end of the address space, succeeds, keeps the store well-formed and
  changes the bytes in use exactly as the abstract span update does.
\<close>

theorem pm_write_refines:
  assumes "wf_pm pm" "0 < n" "n \<le> 32" "n \<le> length buf"
  shows "\<exists>pm'. PhysicalMemory_Write a buf (int n) iv pm = (Inr 0, pm') \<and> wf_pm pm' \<and>
    pm_byte pm' = upd_span (pm_byte pm) a (take n buf)"
  by (rule PhysicalMemory_Write_ok [OF assms, of a iv]) blast

theorem pm_write_refines_witness:
  "\<exists>pm'. PhysicalMemory_Write 30 [1, 2, 3, 4] 4 False (PhysicalMemory_new demo_host) = (Inr 0, pm') \<and>
     wf_pm pm' \<and>
     pm_byte pm' = upd_span (pm_byte (PhysicalMemory_new demo_host)) 30 (take 4 [1, 2, 3, 4])"
  using pm_write_refines [of "PhysicalMemory_new demo_host" 4 "[1, 2, 3, 4]" 30 False] by simp

text \<open>
  C18. Behaviour of a read: an access of 1 to 32 bytes succeeds and delivers, for each byte in use,
  its value, and for each other byte a value that later reads deliver again; the return code
  says whether all, some or none of the bytes were in use before. With \<open>init_if_free\<close> the bytes
  read become bytes in use, without it no byte in use changes.
\<close>

theorem pm_read_correct:
  assumes "wf_pm pm" "0 < n" "n \<le> 32"
  shows "\<exists>out pm'. PhysicalMemory_Read a ini (int n) pm = (Inr (read_code n (span_of (pm_byte pm) a n), out), pm') \<and>
    wf_pm pm' \<and> length out = n \<and>
    (\<forall>i<n. \<forall>v. pm_byte pm (a + of_nat i) = Some v \<longrightarrow> out ! i = v) \<and>
    map Some out = span_of (pm_view pm') a n \<and>
    (\<forall>x v. pm_view pm x = Some v \<longrightarrow> pm_view pm' x = Some v) \<and>
    pm_byte pm' = (if ini then upd_span (pm_byte pm) a out else pm_byte pm)"
proof -
  obtain pm' out where
    r: "PhysicalMemory_Read a ini (int n) pm = (Inr (read_code n (span_of (pm_byte pm) a n), out), pm')"
    "wf_pm pm'" and out: "map Some out = span_of (pm_view pm') a n"
    and view: "\<And>x v. pm_view pm x = Some v \<Longrightarrow> pm_view pm' x = Some v"
    and byte: "pm_byte pm' = (if ini then upd_span (pm_byte pm) a out else pm_byte pm)"
    by (rule PhysicalMemory_Read_ok [OF assms]) (rule that)
  have "out ! i = v" if "i < n" "pm_byte pm (a + of_nat i) = Some v" for i v
    using span_of_nth_Some [OF out that(1)] view [OF pm_view_byte [OF that(2)]] by simp
  moreover have "length out = n"
    using arg_cong [OF out, of length] by simp
  ultimately show ?thesis
    using r out view byte by blast
qed

theorem pm_read_correct_witness:
  "\<exists>out pm'. PhysicalMemory_Read 30 True 4 (PhysicalMemory_new demo_host) =
      (Inr (read_code 4 (span_of (pm_byte (PhysicalMemory_new demo_host)) 30 4), out), pm') \<and>
    wf_pm pm' \<and> length out = 4"
  using pm_read_correct [of "PhysicalMemory_new demo_host" 4 30 True] by auto

text \<open>
  Errors: an access fails exactly when its size is not in 1 to 32; it then throws MEM_ERROR and
  leaves every byte in use and every delivered value as it was. The internal SPLIT_ACCESS never
  escapes, and the two consistency throws on an empty block are unreachable.
\<close>

theorem pm_access_errors:
  assumes "wf_pm pm" "nat n \<le> length buf"
  shows "(fst (PhysicalMemory_Write a buf n iv pm) = Inl e \<longleftrightarrow> (n \<le> 0 \<or> 32 < n) \<and> e = MEM_ERROR) \<and>
    (fst (PhysicalMemory_Read a ini n pm) = Inl e \<longleftrightarrow> (n \<le> 0 \<or> 32 < n) \<and> e = MEM_ERROR) \<and>
    (n \<le> 0 \<or> 32 < n \<longrightarrow>
      pm_byte (snd (PhysicalMemory_Write a buf n iv pm)) = pm_byte pm \<and>
      pm_view (snd (PhysicalMemory_Write a buf n iv pm)) = pm_view pm \<and>
      pm_byte (snd (PhysicalMemory_Read a ini n pm)) = pm_byte pm \<and>
      pm_view (snd (PhysicalMemory_Read a ini n pm)) = pm_view pm)"
proof (cases "n \<le> 0 \<or> 32 < n")
  case True
  then show ?thesis
    using ValidateAccess_bad [of n a]
    by (auto simp: PhysicalMemory_Write_def BlockWrite_def PhysicalMemory_Read_def BlockRead_def
        write_at_error read_at_error)
next
  case False
  then have n: "0 < nat n" "nat n \<le> 32" "int (nat n) = n" by (simp_all add: nat_le_iff)
  have "fst (PhysicalMemory_Write a buf n iv pm) \<noteq> Inl e"
    by (rule PhysicalMemory_Write_ok [OF assms(1) n(1,2) assms(2), of a iv]) (use n(3) in simp)
  moreover have "fst (PhysicalMemory_Read a ini n pm) \<noteq> Inl e"
    by (rule PhysicalMemory_Read_ok [OF assms(1) n(1,2), of a ini]) (use n(3) in simp)
  ultimately show ?thesis
    using False by auto
qed

theorem pm_access_errors_witness:
  "fst (PhysicalMemory_Write 8 [] 0 False (PhysicalMemory_new demo_host)) = Inl MEM_ERROR"
  using pm_access_errors [of "PhysicalMemory_new demo_host" 0 "[]" 8 False MEM_ERROR] by simp

text \<open>
  Reading back: a read of the span just written delivers the bytes written.
\<close>

theorem pm_write_read_roundtrip:
  assumes "wf_pm pm" "0 < length bs" "length bs \<le> 32"
  shows "fst (store_read ini a (length bs) (store_write iv a bs pm)) = bs"
  using assms by (rule pms.read_own_write)

theorem pm_write_read_roundtrip_witness:
  "fst (store_read False 30 4 (store_write False 30 [1, 2, 3, 4] (PhysicalMemory_new demo_host))) = [1, 2, 3, 4]"
  using pm_write_read_roundtrip [of "PhysicalMemory_new demo_host" "[1, 2, 3, 4]" False 30 False]
  by (simp add: eval_nat_numeral)

text \<open>
  Isolation: a write to a disjoint span between two reads of a span does not change what is read,
  written bytes and bytes that only have an initial value alike.
\<close>

theorem pm_write_frame:
  assumes "wf_pm pm" "0 < length bs" "length bs \<le> 32" "0 < n" "n \<le> 32" "disjoint_spans a (length bs) b n"
  shows "fst (store_read ini b n (store_write iv a bs (snd (store_read ini b n pm)))) = fst (store_read ini b n pm)"
  using assms by (rule pms.read_other_write)

theorem pm_write_frame_witness:
  "fst (store_read False 40 4 (store_write False 36 [1, 2, 3, 4] (snd (store_read False 40 4 (PhysicalMemory_new demo_host)))))
    = fst (store_read False 40 4 (PhysicalMemory_new demo_host))"
  using pm_write_frame [of "PhysicalMemory_new demo_host" "[1, 2, 3, 4]" 4 36 40 False False]
  by (simp add: disjoint_spans_def)

text \<open>
  A rejected access leaves its mark on the block list: the block named by an access of illegal
  size is default-constructed in the map, counts as fully used, is listed as non-empty and has no
  contents to read.
\<close>

theorem failed_access_leaves_full_block:
  assumes "n \<le> 0 \<or> 32 < n" "map_of (physical_memory_by_block pm) (BlockAddress a) = None"
  shows "BlockAddress a \<notin> set (AddressList True pm) \<and>
    BlockAddress a \<in> set (AddressList True (snd (PhysicalMemory_Write a buf n iv pm))) \<and>
    fst (PhysicalMemory_ReadInitialState (BlockAddress a) is_data (snd (PhysicalMemory_Write a buf n iv pm)))
      = Inl MEM_ERROR"
proof -
  let ?k = "BlockAddress a" and ?pm' = "snd (PhysicalMemory_Write a buf n iv pm)"
  have pm': "?pm' = put_block ?k MemBlock_new (pm_host pm) pm"
    using ValidateAccess_bad [OF assms(1), of a] assms(2)
    by (simp add: PhysicalMemory_Write_def BlockWrite_def write_at_error block_at_def)
  have "0 < ByteCount MemBlock_new"
    by (simp add: ByteCount_def ByteIsFree_def MemBlock_new_def)
  moreover have "map_of (physical_memory_by_block ?pm') ?k = Some MemBlock_new"
    by (simp add: pm' put_block_def update_conv)
  then have "(?k, MemBlock_new) \<in> set (physical_memory_by_block ?pm')"
    by (rule map_of_SomeD)
  ultimately have "?k \<in> set (AddressList True ?pm')"
    by (force simp: AddressList_def)
  moreover have "?k \<notin> set (AddressList True pm)"
    using assms(2) by (auto simp: AddressList_def map_of_eq_None_iff)
  moreover have "fst (PhysicalMemory_ReadInitialState ?k is_data ?pm') = Inl MEM_ERROR"
    by (simp add: PhysicalMemory_ReadInitialState_def MemBlock_ReadInitialState_def pm' block_at_put_block
        MemBlock_new_def)
  ultimately show ?thesis by blast
qed

theorem failed_access_leaves_full_block_witness:
  "BlockAddress 64 \<in> set (AddressList True (snd (PhysicalMemory_Write 64 [] 0 False (PhysicalMemory_new demo_host))))"
  using failed_access_leaves_full_block [of 0 "PhysicalMemory_new demo_host" 64 "[]" False False]
  by (simp add: PhysicalMemory_new_def)

end
