(* ===== verification/Exceptions.thy ===== *)
theory Exceptions
  imports Prelude Phys_Mem
begin

text \<open>
  The simulator's exception and interrupt codes, \<open>include/exceptions.h\<close>, and the union of what a
  C++ \<open>throw\<close> can carry in the modelled code.
\<close>

unbundle bit_operations_syntax

datatype SIM_EXCEPTIONS =
    SUPERVISOR_SWI | MACHINE_SWI | SUPERVISOR_TIMER_INT | MACHINE_TIMER_INT
  | SUPERVISOR_EXTERNAL_INT | MACHINE_EXTERNAL_INT | MACHINE_EXTERNAL_INT_UART
  | INSTRUCTION_ADDRESS_MISALIGNED | INSTRUCTION_ACCESS_FAULT | ILLEGAL_INSTRUCTION
  | ILLEGAL_INSTRUCTION_UNKNOWN_CSR | ILLEGAL_INSTRUCTION_PRIVILEGED_CSR
  | ILLEGAL_INSTRUCTION_UNKNOWN_INSTR | ILLEGAL_INSTRUCTION_UNIMPL_INSTR
  | ILLEGAL_INSTRUCTION_PRIVILEGED_INSTR | BREAKPOINT | LOAD_ADDRESS_MISALIGNED
  | LOAD_ACCESS_FAULT | STORE_ADDRESS_MISALIGNED | STORE_ACCESS_FAULT | ENV_CALL_UMODE
  | ENV_CALL_SMODE | ENV_CALL_MMODE | INSTRUCTION_PAGE_FAULT | LOAD_PAGE_FAULT | STORE_PAGE_FAULT
  | PROCESS_WFI | PROCESS_MRET | INTERNAL_ERROR | GENERATION_ERROR | TEST_PASSES | TEST_FAILS

text \<open>The enum gives \<open>NO_SIM_EXCEPTION\<close> the value 0 of \<open>INSTRUCTION_ADDRESS_MISALIGNED\<close>: in C++ they are equal.\<close>

abbreviation NO_SIM_EXCEPTION :: SIM_EXCEPTIONS where
  "NO_SIM_EXCEPTION \<equiv> INSTRUCTION_ADDRESS_MISALIGNED"

fun enum_value :: "SIM_EXCEPTIONS \<Rightarrow> u32" where
  "enum_value SUPERVISOR_SWI = 0x11"
| "enum_value MACHINE_SWI = 0x13"
| "enum_value SUPERVISOR_TIMER_INT = 0x15"
| "enum_value MACHINE_TIMER_INT = 0x17"
| "enum_value SUPERVISOR_EXTERNAL_INT = 0x19"
| "enum_value MACHINE_EXTERNAL_INT = 0x1b"
| "enum_value MACHINE_EXTERNAL_INT_UART = 0x11b"
| "enum_value INSTRUCTION_ADDRESS_MISALIGNED = 0"
| "enum_value INSTRUCTION_ACCESS_FAULT = 1"
| "enum_value ILLEGAL_INSTRUCTION = 2"
| "enum_value ILLEGAL_INSTRUCTION_UNKNOWN_CSR = 0x102"
| "enum_value ILLEGAL_INSTRUCTION_PRIVILEGED_CSR = 0x202"
| "enum_value ILLEGAL_INSTRUCTION_UNKNOWN_INSTR = 0x302"
| "enum_value ILLEGAL_INSTRUCTION_UNIMPL_INSTR = 0x402"
| "enum_value ILLEGAL_INSTRUCTION_PRIVILEGED_INSTR = 0x502"
| "enum_value BREAKPOINT = 3"
| "enum_value LOAD_ADDRESS_MISALIGNED = 4"
| "enum_value LOAD_ACCESS_FAULT = 5"
| "enum_value STORE_ADDRESS_MISALIGNED = 6"
| "enum_value STORE_ACCESS_FAULT = 7"
| "enum_value ENV_CALL_UMODE = 8"
| "enum_value ENV_CALL_SMODE = 9"
| "enum_value ENV_CALL_MMODE = 11"
| "enum_value INSTRUCTION_PAGE_FAULT = 12"
| "enum_value LOAD_PAGE_FAULT = 13"
| "enum_value STORE_PAGE_FAULT = 15"
| "enum_value PROCESS_WFI = 0x600"
| "enum_value PROCESS_MRET = 0x700"
| "enum_value INTERNAL_ERROR = 0xf00"
| "enum_value GENERATION_ERROR = 0xf01"
| "enum_value TEST_PASSES = 0xf02"
| "enum_value TEST_FAILS = 0xf03"

text \<open>
  What can be thrown: a simulator exception, an error of the block store, the run time errors of
  the decoder, the range error of \<open>std::string::substr\<close>, or (not a throw, but the end of what C++
  defines) undefined behaviour.
\<close>

datatype sim_throw = SimExc SIM_EXCEPTIONS | MBlockExc MBLOCK_ERROR | RuntimeError | OutOfRange | UB

end
