(* ===== verification/State_Base.thy ===== *)
theory State_Base
  imports Exceptions
begin

text \<open>
  The parts of a core that the memory knows: the exclusive monitor, \<open>include/exclusive_monitor.h\<close>,
  the base class of core states, \<open>include/core_state.h\<close>, and the identity address translation of
  \<open>include/mmu.h\<close>. Fields of the base class that another component also has carry the prefix \<open>st\<close>.
\<close>

unbundle bit_operations_syntax

section \<open>Class exclMonitor\<close>

record exclMonitor =
  la :: u64
  pa :: u64
  cpuID :: int
  elem_size :: int
  exclusive :: bool

definition exclMonitor_new :: exclMonitor where
  "exclMonitor_new = \<lparr>la = 0, pa = 0, cpuID = -1, elem_size = 0, exclusive = False\<rparr>"

definition exclMonitor_Set :: "u64 \<Rightarrow> u64 \<Rightarrow> int \<Rightarrow> int \<Rightarrow> exclMonitor \<Rightarrow> exclMonitor" where
  "exclMonitor_Set l p sz cpu m = m\<lparr>la := l, pa := p, elem_size := sz, exclusive := True, cpuID := cpu\<rparr>"

definition exclMonitor_Clear :: "exclMonitor \<Rightarrow> exclMonitor" where
  "exclMonitor_Clear m = m\<lparr>exclusive := False\<rparr>"

definition exclMonitor_IsOpen :: "exclMonitor \<Rightarrow> bool" where
  "exclMonitor_IsOpen m = (\<not> exclusive m)"

definition exclMonitor_IsExclusive :: "u64 \<Rightarrow> u64 \<Rightarrow> int \<Rightarrow> int \<Rightarrow> exclMonitor \<Rightarrow> bool" where
  "exclMonitor_IsExclusive l p sz cpu m \<longleftrightarrow>
     exclusive m \<and> l = la m \<and> p = pa m \<and> sz = elem_size m \<and> cpu = cpuID m"

section \<open>Class State\<close>

record State =
  st_id :: u32
  st_asid :: u32
  is_secure :: bool
  st_clock :: u64
  end_test :: bool
  PC :: u64
  instr_count :: u64
  st_timer :: u64
  local_monitor :: exclMonitor

text \<open>The constructor with a configuration; \<open>Init\<close> of the base class zeroes the program counter.\<close>

definition State_new :: State where
  "State_new = \<lparr>st_id = 0, st_asid = 0, is_secure = False, st_clock = 0, end_test = False, PC = 0,
     instr_count = 0, st_timer = 0, local_monitor = exclMonitor_new\<rparr>"

text \<open>The base \<open>Update\<close> copies all but the local monitor.\<close>

definition State_Update :: "'a State_scheme \<Rightarrow> 'a State_scheme \<Rightarrow> 'a State_scheme" where
  "State_Update rhs s =
     s\<lparr>st_id := st_id rhs, st_asid := st_asid rhs, is_secure := is_secure rhs, st_clock := st_clock rhs,
       end_test := end_test rhs, PC := PC rhs, instr_count := instr_count rhs, st_timer := st_timer rhs\<rparr>"

definition AdvanceClock :: "'a State_scheme \<Rightarrow> 'a State_scheme" where
  "AdvanceClock s = s\<lparr>st_clock := st_clock s + 1\<rparr>"

definition IncrementInstrCount :: "'a State_scheme \<Rightarrow> 'a State_scheme" where
  "IncrementInstrCount s = s\<lparr>instr_count := instr_count s + 1\<rparr>"

definition State_AdvanceTimer :: "u32 \<Rightarrow> 'a State_scheme \<Rightarrow> 'a State_scheme" where
  "State_AdvanceTimer n s = s\<lparr>st_timer := st_timer s + ucast n\<rparr>"

definition SetEndTest :: "bool \<Rightarrow> 'a State_scheme \<Rightarrow> 'a State_scheme" where
  "SetEndTest b s = s\<lparr>end_test := b\<rparr>"

definition Halted :: "'a State_scheme \<Rightarrow> bool" where
  "Halted s = end_test s"

section \<open>Class Translation and class MMU\<close>

record Translation =
  tr_la :: u64
  tr_pa :: u64
  tr_asid :: u32
  tr_privileged :: bool
  tr_ns :: bool
  tr_is_data :: bool
  tr_aligned :: bool
  tr_size :: int
  tr_is_write :: bool
  tr_big_endian :: bool

definition MMU_BigEndian :: bool where
  "MMU_BigEndian = False"

definition LA2PA :: "'a State_scheme \<Rightarrow> u64 \<Rightarrow> bool \<Rightarrow> bool \<Rightarrow> bool \<Rightarrow> bool \<Rightarrow> int \<Rightarrow> bool \<Rightarrow> Translation" where
  "LA2PA cpu l ns privileged is_data aligned sz is_write =
     \<lparr>tr_la = l, tr_pa = l, tr_asid = st_asid cpu, tr_privileged = privileged, tr_ns = ns,
      tr_is_data = is_data, tr_aligned = aligned, tr_size = sz, tr_is_write = is_write,
      tr_big_endian = (if is_data then MMU_BigEndian else False)\<rparr>"

definition PageCrossed :: "int \<Rightarrow> Translation \<Rightarrow> int" where
  "PageCrossed byte_count tr = 0"

definition Shareable :: "Translation \<Rightarrow> bool" where
  "Shareable tr = True"

definition Translation_Cacheable :: "Translation \<Rightarrow> bool" where
  "Translation_Cacheable tr = True"

definition MMU_Enabled :: bool where
  "MMU_Enabled = False"

definition MMU_Cacheable :: "bool \<Rightarrow> bool" where
  "MMU_Cacheable is_data = True"

end
