(* ===== verification/Mm_Device.thy ===== *)
theory Mm_Device
  imports Prelude
begin

text \<open>
  The base class of memory-mapped devices, \<open>include/memmap_device.h\<close>, and the interface every
  device offers the memory: a register decoder on the low 12 address bits, and 32-bit register
  reads and writes. The virtual functions a device overrides are parameters here.
\<close>

unbundle bit_operations_syntax

record memmap_device =
  base_address :: u64
  extent :: u64
  is_implemented :: bool

definition memmap_device_new :: memmap_device where
  "memmap_device_new = \<lparr>base_address = 0, extent = 0, is_implemented = False\<rparr>"

definition MapDevice :: "('a memmap_device_scheme \<Rightarrow> 'a memmap_device_scheme) \<Rightarrow> u64 \<Rightarrow> u64 \<Rightarrow>
    'a memmap_device_scheme \<Rightarrow> 'a memmap_device_scheme" where
  "MapDevice Reset base ext d = Reset (d\<lparr>base_address := base, extent := ext, is_implemented := True\<rparr>)"

definition IsImplemented :: "'a memmap_device_scheme \<Rightarrow> bool" where
  "IsImplemented d = is_implemented d"

definition InRange :: "u64 \<Rightarrow> 'a memmap_device_scheme \<Rightarrow> bool" where
  "InRange PA d \<longleftrightarrow> base_address d \<le> PA \<and> PA \<le> base_address d + 0xffc"

definition IsMapped :: "(u64 \<Rightarrow> int) \<Rightarrow> u64 \<Rightarrow> bool" where
  "IsMapped register_index PA \<longleftrightarrow> register_index PA \<noteq> -1"

definition BigEndian :: bool where
  "BigEndian = False"

definition Endianness :: "bool \<Rightarrow> bool" where
  "Endianness host_big = host_big"

definition RegisterSize :: int where
  "RegisterSize = 4"

section \<open>The register interface\<close>

text \<open>
  A device as the memory sees it. \<open>rd\<close> and \<open>wr\<close> are its sized accesses (return code, buffer,
  device), \<open>rd32\<close> and \<open>wr32\<close> the accesses to one register.
\<close>

locale mm_registers =
  fixes reg :: "u64 \<Rightarrow> int"
    and rd32 :: "u64 \<Rightarrow> 'd \<Rightarrow> (int \<times> u32) \<times> 'd"
    and wr32 :: "u64 \<Rightarrow> u32 \<Rightarrow> 'd \<Rightarrow> int \<times> 'd"
    and rd :: "bool \<Rightarrow> u64 \<Rightarrow> buffer \<Rightarrow> int \<Rightarrow> 'd \<Rightarrow> (int \<times> buffer) \<times> 'd"
    and wr :: "bool \<Rightarrow> u64 \<Rightarrow> buffer \<Rightarrow> int \<Rightarrow> 'd \<Rightarrow> int \<times> 'd"
  assumes reg_low_bits: "PA AND 0xfff = PA' AND 0xfff \<Longrightarrow> reg PA = reg PA'"
    and rd32_reg: "reg PA = reg PA' \<Longrightarrow> rd32 PA = rd32 PA'"
    and wr32_reg: "reg PA = reg PA' \<Longrightarrow> wr32 PA = wr32 PA'"
    and rd32_code: "fst (fst (rd32 PA d)) = (if reg PA = -1 then -1 else 0)"
    and wr32_code: "fst (wr32 PA v d) = (if reg PA = -1 then -1 else 0)"
    and rd32_unmapped: "reg PA = -1 \<Longrightarrow> rd32 PA d = ((-1, 0), d)"
    and wr32_unmapped: "reg PA = -1 \<Longrightarrow> snd (wr32 PA v d) = d"
    and rd_sized: "rd big PA buf n d =
      (if n \<noteq> 4 then ((-1, buf), d)
       else case rd32 PA d of ((rcode, v), d') \<Rightarrow> ((rcode, put_bytes 0 (host_bytes big 4 v) buf), d'))"
    and wr_sized: "wr big PA buf n d = (if n \<noteq> 4 then (-1, d) else wr32 PA (host_word big (take 4 buf)) d)"
begin

lemma read_code: "fst (fst (rd big PA buf n d)) = (if n = 4 \<and> IsMapped reg PA then 0 else -1)"
  using rd32_code [of PA d] by (auto simp: rd_sized IsMapped_def split: prod.splits)

lemma write_code: "fst (wr big PA buf n d) = (if n = 4 \<and> IsMapped reg PA then 0 else -1)"
  using wr32_code [of PA] by (auto simp: wr_sized IsMapped_def)

lemma failed_access_keeps_device:
  "\<not> (n = 4 \<and> IsMapped reg PA) \<Longrightarrow> snd (rd big PA buf n d) = d \<and> snd (wr big PA buf n d) = d"
  by (auto simp: rd_sized wr_sized IsMapped_def rd32_unmapped wr32_unmapped)

text \<open>The register file repeats in every 4 KB page of the device's address range.\<close>

lemma register_alias:
  assumes "PA AND 0xfff = PA' AND 0xfff"
  shows "rd big PA buf n d = rd big PA' buf n d" "wr big PA buf n d = wr big PA' buf n d"
  using reg_low_bits [OF assms] by (simp_all add: rd_sized wr_sized rd32_reg [of PA PA'] wr32_reg [of PA PA'])

end

end
