(* ===== verification/Timer.thy ===== *)
theory Timer
  imports Mm_Device
begin

text \<open>
  The machine timer, \<open>include/timer.h\<close> and \<open>src/timer.C\<close>: a 64-bit counter and a 64-bit compare
  value, read and written as 32-bit halves. Debug prints are left out.
\<close>

unbundle bit_operations_syntax

record MachineTimer = memmap_device +
  timer :: u64
  timer_advance :: u64
  timer_compare :: u64

definition MachineTimer_new :: MachineTimer where
  "MachineTimer_new = memmap_device.extend memmap_device_new
     \<lparr>timer = 0, timer_advance = 1, timer_compare = 0\<rparr>"

definition MachineTimer_new_advance :: "u64 \<Rightarrow> MachineTimer" where
  "MachineTimer_new_advance adv = memmap_device.extend memmap_device_new
     \<lparr>timer = 0, timer_advance = adv, timer_compare = 0\<rparr>"

definition TIMER_LO :: int where "TIMER_LO = 0x0"
definition TIMER_HI :: int where "TIMER_HI = 0x4"
definition TIMER_COMPARE_LO :: int where "TIMER_COMPARE_LO = 0x10"
definition TIMER_COMPARE_HI :: int where "TIMER_COMPARE_HI = 0x14"
definition TIMER_RESERVED :: int where "TIMER_RESERVED = -1"

lemmas timer_regs = TIMER_LO_def TIMER_HI_def TIMER_COMPARE_LO_def TIMER_COMPARE_HI_def TIMER_RESERVED_def

definition MachineTimer_Reset :: "MachineTimer \<Rightarrow> MachineTimer" where
  "MachineTimer_Reset t = t\<lparr>timer := 0, timer_compare := 0\<rparr>"

definition AdvanceTimer :: "MachineTimer \<Rightarrow> MachineTimer" where
  "AdvanceTimer t = t\<lparr>timer := timer t + timer_advance t\<rparr>"

definition MachineTimer_InterruptPending :: "MachineTimer \<Rightarrow> bool" where
  "MachineTimer_InterruptPending t \<longleftrightarrow> timer_compare t \<noteq> 0 \<and> timer_compare t \<le> timer t"

definition MachineTimer_register_index :: "u64 \<Rightarrow> int" where
  "MachineTimer_register_index PA =
     (let a = PA AND 0xfff
      in if a = 0x000 then TIMER_LO
         else if a = 0x004 then TIMER_HI
         else if a = 0x010 then TIMER_COMPARE_LO
         else if a = 0x014 then TIMER_COMPARE_HI
         else TIMER_RESERVED)"

definition MachineTimer_RegisterName :: "u64 \<Rightarrow> string" where
  "MachineTimer_RegisterName PA =
     (let r = MachineTimer_register_index PA
      in if r = TIMER_LO then ''MTIME''
         else if r = TIMER_HI then ''MTIME_HI''
         else if r = TIMER_COMPARE_LO then ''MTIMECMP''
         else if r = TIMER_COMPARE_HI then ''MTIMECMP_HI''
         else ''?'')"

text \<open>Return code and value read; a value is stored even when the register is not mapped.\<close>

definition MachineTimer_Read32 :: "u64 \<Rightarrow> MachineTimer \<Rightarrow> (int \<times> u32) \<times> MachineTimer" where
  "MachineTimer_Read32 PA t =
     (let r = MachineTimer_register_index PA
      in if r = TIMER_LO then ((0, ucast (timer t AND 0xffffffff)), t)
         else if r = TIMER_HI then ((0, ucast (drop_bit 32 (timer t))), t)
         else if r = TIMER_COMPARE_LO then ((0, ucast (timer t AND 0xffffffff)), t)
         else if r = TIMER_COMPARE_HI then ((0, ucast (drop_bit 32 (timer t))), t)
         else ((-1, 0), t))"

definition MachineTimer_Read ::
    "bool \<Rightarrow> u64 \<Rightarrow> buffer \<Rightarrow> int \<Rightarrow> MachineTimer \<Rightarrow> (int \<times> buffer) \<times> MachineTimer" where
  "MachineTimer_Read host_big PA buf access_size t =
     (if access_size \<noteq> 4 then ((-1, buf), t)
      else case MachineTimer_Read32 PA t of
             ((rcode, v), t') \<Rightarrow> ((rcode, put_bytes 0 (host_bytes host_big 4 v) buf), t'))"

definition MachineTimer_Write32 :: "u64 \<Rightarrow> u32 \<Rightarrow> MachineTimer \<Rightarrow> int \<times> MachineTimer" where
  "MachineTimer_Write32 PA rval t =
     (let r = MachineTimer_register_index PA
      in if r = TIMER_LO then (0, t\<lparr>timer := ucast rval\<rparr>)
         else if r = TIMER_HI then (0, t\<lparr>timer := timer t OR push_bit 32 (ucast rval)\<rparr>)
         else if r = TIMER_COMPARE_LO then (0, t\<lparr>timer_compare := ucast rval\<rparr>)
         else if r = TIMER_COMPARE_HI
              then (0, t\<lparr>timer_compare := timer_compare t OR push_bit 32 (ucast rval)\<rparr>)
         else (-1, t))"

definition MachineTimer_Write :: "bool \<Rightarrow> u64 \<Rightarrow> buffer \<Rightarrow> int \<Rightarrow> MachineTimer \<Rightarrow> int \<times> MachineTimer" where
  "MachineTimer_Write host_big PA buf access_size t =
     (if access_size \<noteq> 4 then (-1, t)
      else MachineTimer_Write32 PA (host_word host_big (take 4 buf)) t)"

section \<open>The timer as a device\<close>

lemma timer_index_cases:
  "MachineTimer_register_index PA \<in> {TIMER_LO, TIMER_HI, TIMER_COMPARE_LO, TIMER_COMPARE_HI, TIMER_RESERVED}"
  by (simp add: MachineTimer_register_index_def Let_def)

interpretation mtimer: mm_registers MachineTimer_register_index MachineTimer_Read32 MachineTimer_Write32
    MachineTimer_Read MachineTimer_Write
proof (unfold_locales, goal_cases)
  case (1 PA PA')
  then show ?case by (simp add: MachineTimer_register_index_def)
qed (use timer_index_cases in \<open>auto simp: fun_eq_iff MachineTimer_Read32_def MachineTimer_Write32_def
    MachineTimer_Read_def MachineTimer_Write_def timer_regs Let_def\<close>)

section \<open>Behaviour of the timer\<close>

lemma halves_join: "push_bit 32 (ucast (ucast (drop_bit 32 w) :: u32)) OR ucast (ucast (w AND 0xffffffff) :: u32) = w"
  for w :: u64
  by (auto intro!: bit_word_eqI simp: and_ffffffff_take_bit bit_simps)

lemma AdvanceTimer_power:
  "(AdvanceTimer ^^ n) t = t\<lparr>timer := timer t + of_nat n * timer_advance t\<rparr>"
  by (induction n) (simp_all add: AdvanceTimer_def algebra_simps)

text \<open>A driver's 64-bit store: the low half first.\<close>

definition timer_write64 :: "u64 \<Rightarrow> u64 \<Rightarrow> u64 \<Rightarrow> MachineTimer \<Rightarrow> MachineTimer" where
  "timer_write64 lo hi w t =
     snd (MachineTimer_Write32 hi (ucast (drop_bit 32 w)) (snd (MachineTimer_Write32 lo (ucast w) t)))"

text \<open>
  Writing the low half and then the high half of the counter or of the compare value, at any
  address that decodes to these registers, sets all 64 bits and nothing else, and reading the two
  halves of the counter back joins to the value written.
\<close>

theorem timer_write_halves:
  assumes "MachineTimer_register_index lo = TIMER_LO" "MachineTimer_register_index hi = TIMER_HI"
    "MachineTimer_register_index clo = TIMER_COMPARE_LO" "MachineTimer_register_index chi = TIMER_COMPARE_HI"
  shows "timer_write64 lo hi w t = t\<lparr>timer := w\<rparr> \<and> timer_write64 clo chi w t = t\<lparr>timer_compare := w\<rparr> \<and>
    push_bit 32 (ucast (snd (fst (MachineTimer_Read32 hi (timer_write64 lo hi w t))))) OR
      ucast (snd (fst (MachineTimer_Read32 lo (timer_write64 lo hi w t)))) = w"
proof -
  have join: "ucast (ucast w :: u32) OR push_bit 32 (ucast (ucast (drop_bit 32 w) :: u32)) = w" for w :: u64
    by (auto intro!: bit_word_eqI simp: bit_simps)
  show ?thesis
    using assms by (simp add: timer_write64_def MachineTimer_Write32_def MachineTimer_Read32_def timer_regs
        Let_def join halves_join)
qed

theorem timer_write_halves_witness:
  "timer (timer_write64 0x2004000 0x2004004 0x123456789abcdef0 MachineTimer_new) = 0x123456789abcdef0"
  using timer_write_halves [of "0x2004000" "0x2004004" "0x2004010" "0x2004014" "0x123456789abcdef0" MachineTimer_new]
  by (simp add: MachineTimer_register_index_def)

lemma timer_pending_after:
  assumes "unat (timer t) + n * unat (timer_advance t) < 2 ^ 64"
  shows "MachineTimer_InterruptPending ((AdvanceTimer ^^ n) t) \<longleftrightarrow>
    timer_compare t \<noteq> 0 \<and> unat (timer_compare t) \<le> unat (timer t) + n * unat (timer_advance t)"
proof -
  let ?m = "unat (timer t) + n * unat (timer_advance t)"
  have "timer t + of_nat n * timer_advance t = of_nat ?m"
    by simp
  moreover have "unat (of_nat ?m :: u64) = ?m"
    using assms by (simp only: unat_of_nat) simp
  ultimately have "unat (timer t + of_nat n * timer_advance t) = ?m"
    by (simp only:)
  then show ?thesis
    by (simp add: MachineTimer_InterruptPending_def AdvanceTimer_power word_le_nat_alt)
qed

text \<open>
  The timer interrupt: with a non-zero compare value, after \<open>n\<close> ticks (no wrap of the 64-bit
  counter on the way) the interrupt is pending exactly when the counter has reached the compare
  value; with compare value zero it never is.
\<close>

theorem timer_fires:
  assumes "unat (timer t) + n * unat (timer_advance t) < 2 ^ 64"
  shows "MachineTimer_InterruptPending ((AdvanceTimer ^^ n) t) \<longleftrightarrow>
    timer_compare t \<noteq> 0 \<and> unat (timer_compare t) \<le> unat (timer t) + n * unat (timer_advance t)"
  by (rule timer_pending_after [OF assms])

theorem timer_fires_witness:
  "MachineTimer_InterruptPending ((AdvanceTimer ^^ 5) (MachineTimer_new\<lparr>timer_compare := 5\<rparr>)) \<and>
   \<not> MachineTimer_InterruptPending ((AdvanceTimer ^^ 4) (MachineTimer_new\<lparr>timer_compare := 5\<rparr>))"
  using timer_fires [of "MachineTimer_new\<lparr>timer_compare := 5\<rparr>" 5] timer_fires [of "MachineTimer_new\<lparr>timer_compare := 5\<rparr>" 4]
  by (simp add: MachineTimer_new_def memmap_device.extend_def memmap_device_new_def)

text \<open>
  What the registers do beside their documentation: a read of the compare register returns
  the counter, not the compare value, and a write of a high half keeps the bits that were set there.
\<close>

theorem timer_register_quirks:
  assumes "MachineTimer_register_index clo = TIMER_COMPARE_LO" "MachineTimer_register_index hi = TIMER_HI"
  shows "snd (fst (MachineTimer_Read32 clo t)) = ucast (timer t) \<and>
    drop_bit 32 (timer (snd (MachineTimer_Write32 hi v t))) = drop_bit 32 (timer t) OR ucast v"
proof -
  have 1: "ucast (w AND 0xffffffff) = (ucast w :: u32)" for w :: u64
    by (auto intro!: bit_word_eqI simp: and_ffffffff_take_bit bit_simps)
  have 2: "drop_bit 32 (push_bit 32 (ucast v)) = (ucast v :: u64)"
    using bit_imp_le_length [of v] by (auto intro!: bit_word_eqI simp: bit_simps)
  show ?thesis
    using assms by (simp add: MachineTimer_Read32_def MachineTimer_Write32_def timer_regs Let_def 1 2)
qed

theorem timer_register_quirks_witness:
  "snd (fst (MachineTimer_Read32 0x10 (MachineTimer_new\<lparr>timer := 3, timer_compare := 7\<rparr>))) = 3"
  using timer_register_quirks [of "0x10" 4 "MachineTimer_new\<lparr>timer := 3, timer_compare := 7\<rparr>" 0]
  by (simp add: MachineTimer_register_index_def)

text \<open>
  Device contract of the timer: an access succeeds exactly when it is 4 bytes wide at a mapped
  register, a failed access changes nothing, and the registers repeat in every 4 KB page.
\<close>

theorem timer_device_contract:
  "fst (fst (MachineTimer_Read big PA buf n t)) = (if n = 4 \<and> IsMapped MachineTimer_register_index PA then 0 else -1) \<and>
   fst (MachineTimer_Write big PA buf n t) = (if n = 4 \<and> IsMapped MachineTimer_register_index PA then 0 else -1) \<and>
   (n = 4 \<and> IsMapped MachineTimer_register_index PA \<or>
     snd (MachineTimer_Read big PA buf n t) = t \<and> snd (MachineTimer_Write big PA buf n t) = t) \<and>
   MachineTimer_Read big (PA + 0x1000 * k) buf n t = MachineTimer_Read big PA buf n t"
proof -
  have page: "(PA + 0x1000 * k) AND 0xfff = PA AND 0xfff"
    by (rule and_fff_page)
  show ?thesis
    using page mtimer.failed_access_keeps_device [of n PA]
    by (auto simp: mtimer.read_code mtimer.write_code mtimer.register_alias(1) [OF page])
qed

end
