(* ===== verification/Uart.thy ===== *)
theory Uart
  imports Prelude
begin

text \<open>
  The uart queue and the base uart, \<open>include/uart.h\<close>: a 16-deep FIFO or a one-character holding
  register, whichever is enabled, one queue for each direction. The parts of \<open>src/uart.C\<close> that call
  virtual functions are in \<open>Uart_PL011\<close>, the only device that overrides them.
\<close>

unbundle bit_operations_syntax

section \<open>Class uart\_queue\<close>

definition configured_size :: u32 where
  "configured_size = 16"

record uart_queue =
  fifo :: "u8 list"
  threshhold :: u32
  fifo_enabled :: bool
  holding_register_primed :: bool
  holding_register :: u32

definition uart_queue_Reset :: uart_queue where
  "uart_queue_Reset = \<lparr>fifo = [], threshhold = configured_size, fifo_enabled = False,
     holding_register_primed = False, holding_register = 0\<rparr>"

definition queue_SetFIFOenable :: "bool \<Rightarrow> uart_queue \<Rightarrow> uart_queue" where
  "queue_SetFIFOenable enable q = q\<lparr>fifo_enabled := enable\<rparr>"

definition FIFO_enabled :: "uart_queue \<Rightarrow> bool" where
  "FIFO_enabled q = fifo_enabled q"

definition queue_SelectThreshhold :: "int \<Rightarrow> uart_queue \<Rightarrow> uart_queue" where
  "queue_SelectThreshhold threshhold_select q =
     q\<lparr>threshhold :=
         if threshhold_select = 0 then 2
         else if threshhold_select = 1 then 4
         else if threshhold_select = 2 then 8
         else if threshhold_select = 3 then 12
         else if threshhold_select = 4 then 14
         else configured_size\<rparr>"

definition holding_register_full :: "uart_queue \<Rightarrow> bool" where
  "holding_register_full q = holding_register_primed q"

definition holding_register_empty :: "uart_queue \<Rightarrow> bool" where
  "holding_register_empty q = (\<not> holding_register_primed q)"

definition BelowThreshhold :: "uart_queue \<Rightarrow> bool" where
  "BelowThreshhold q =
     (if FIFO_enabled q then length (fifo q) \<le> unat (threshhold q) else holding_register_empty q)"

definition AboveThreshhold :: "uart_queue \<Rightarrow> bool" where
  "AboveThreshhold q =
     (if FIFO_enabled q then unat (threshhold q) \<le> length (fifo q) else holding_register_full q)"

definition Full :: "uart_queue \<Rightarrow> bool" where
  "Full q = (if FIFO_enabled q then unat configured_size \<le> length (fifo q) else holding_register_full q)"

definition Empty :: "uart_queue \<Rightarrow> bool" where
  "Empty q = (if FIFO_enabled q then fifo q = [] else holding_register_empty q)"

text \<open>The character taken out is 0 when the FIFO is empty.\<close>

definition get_fifo_char :: "uart_queue \<Rightarrow> (bool \<times> u8) \<times> uart_queue" where
  "get_fifo_char q = (case fifo q of [] \<Rightarrow> ((False, 0), q) | sc # rest \<Rightarrow> ((True, sc), q\<lparr>fifo := rest\<rparr>))"

definition put_fifo_char :: "u8 \<Rightarrow> uart_queue \<Rightarrow> bool \<times> uart_queue" where
  "put_fifo_char sc q =
     (if unat configured_size \<le> length (fifo q) then (False, q) else (True, q\<lparr>fifo := fifo q @ [sc]\<rparr>))"

definition prime_holding_buffer :: "u8 \<Rightarrow> uart_queue \<Rightarrow> uart_queue" where
  "prime_holding_buffer sc q = q\<lparr>holding_register := ucast sc, holding_register_primed := True\<rparr>"

definition flush_holding_register :: "uart_queue \<Rightarrow> u8 \<times> uart_queue" where
  "flush_holding_register q = (ucast (holding_register q), q\<lparr>holding_register_primed := False\<rparr>)"

text \<open>\<open>rv\<close> is what the pointer argument referred to before the call: an empty holding register leaves it.\<close>

definition queue_GetChar :: "u32 \<Rightarrow> uart_queue \<Rightarrow> (bool \<times> u32) \<times> uart_queue" where
  "queue_GetChar rv q =
     (if FIFO_enabled q
      then (case get_fifo_char q of ((have_char, sc), q') \<Rightarrow> ((have_char, ucast sc), q'))
      else if holding_register_empty q then ((False, rv), q)
      else (case flush_holding_register q of (sc, q') \<Rightarrow> ((True, ucast sc), q')))"

definition queue_PutChar :: "u8 \<Rightarrow> uart_queue \<Rightarrow> bool \<times> uart_queue" where
  "queue_PutChar sc q =
     (if FIFO_enabled q then put_fifo_char sc q else (True, prime_holding_buffer sc q))"

section \<open>Class uart\<close>

record uart =
  transmit_queue :: uart_queue
  receive_queue :: uart_queue

definition uart_Reset :: uart where
  "uart_Reset = \<lparr>transmit_queue = uart_queue_Reset, receive_queue = uart_queue_Reset\<rparr>"

definition PrimeReceive :: "u8 \<Rightarrow> uart \<Rightarrow> uart" where
  "PrimeReceive nc u = u\<lparr>receive_queue := snd (queue_PutChar nc (receive_queue u))\<rparr>"

definition Transmit_empty :: "uart \<Rightarrow> bool" where
  "Transmit_empty u = Empty (transmit_queue u)"

definition Transmit_full :: "uart \<Rightarrow> bool" where
  "Transmit_full u = Full (transmit_queue u)"

definition Receive_full :: "uart \<Rightarrow> bool" where
  "Receive_full u = Full (receive_queue u)"

definition Receive_empty :: "uart \<Rightarrow> bool" where
  "Receive_empty u = Empty (receive_queue u)"

definition uart_GetChar :: "u32 \<Rightarrow> uart \<Rightarrow> (bool \<times> u32) \<times> uart" where
  "uart_GetChar rv u = (case queue_GetChar rv (receive_queue u) of (r, q) \<Rightarrow> (r, u\<lparr>receive_queue := q\<rparr>))"

definition uart_PutChar :: "u8 \<Rightarrow> uart \<Rightarrow> bool \<times> uart" where
  "uart_PutChar sc u = (case queue_PutChar sc (transmit_queue u) of (r, q) \<Rightarrow> (r, u\<lparr>transmit_queue := q\<rparr>))"

definition uart_SetFIFOenable :: "bool \<Rightarrow> uart \<Rightarrow> uart" where
  "uart_SetFIFOenable enable u =
     u\<lparr>receive_queue := queue_SetFIFOenable enable (receive_queue u),
       transmit_queue := queue_SetFIFOenable enable (transmit_queue u)\<rparr>"

definition uart_SelectThreshhold :: "int \<Rightarrow> int \<Rightarrow> uart \<Rightarrow> uart" where
  "uart_SelectThreshhold rcv_threshhold_select tx_threshhold_select u =
     u\<lparr>receive_queue := queue_SelectThreshhold rcv_threshhold_select (receive_queue u),
       transmit_queue := queue_SelectThreshhold tx_threshhold_select (transmit_queue u)\<rparr>"

section \<open>Queues: the abstract view\<close>

text \<open>The characters a queue holds, oldest first, and how many it can hold.\<close>

definition queue_chars :: "uart_queue \<Rightarrow> u8 list" where
  "queue_chars q =
     (if fifo_enabled q then fifo q
      else if holding_register_primed q then [ucast (holding_register q)] else [])"

definition queue_capacity :: "uart_queue \<Rightarrow> nat" where
  "queue_capacity q = (if fifo_enabled q then 16 else 1)"

definition wf_queue :: "uart_queue \<Rightarrow> bool" where
  "wf_queue q \<longleftrightarrow> length (fifo q) \<le> 16 \<and> holding_register q \<le> 0xff \<and>
     threshhold q \<in> {2, 4, 8, 12, 14, 16}"

lemmas queue_defs = queue_chars_def queue_capacity_def FIFO_enabled_def Full_def Empty_def
  queue_GetChar_def queue_PutChar_def get_fifo_char_def put_fifo_char_def prime_holding_buffer_def
  flush_holding_register_def holding_register_full_def holding_register_empty_def configured_size_def

text \<open>
  What a user of a bounded character queue relies on: characters come out in the order in which
  they were accepted, and one is accepted while there is room.
\<close>

primrec drain :: "('q \<Rightarrow> 'c option \<times> 'q) \<Rightarrow> nat \<Rightarrow> 'q \<Rightarrow> 'c option list" where
  "drain get 0 q = []"
| "drain get (Suc n) q = fst (get q) # drain get n (snd (get q))"

locale char_queue =
  fixes chars :: "'q \<Rightarrow> u8 list"
    and cap :: "'q \<Rightarrow> nat"
    and put :: "u8 \<Rightarrow> 'q \<Rightarrow> bool \<times> 'q"
    and get :: "'q \<Rightarrow> u8 option \<times> 'q"
  assumes put_chars: "length (chars q) < cap q \<Longrightarrow> fst (put c q) \<and> chars (snd (put c q)) = chars q @ [c]"
    and put_cap: "cap (snd (put c q)) = cap q"
    and get_none: "chars q = [] \<Longrightarrow> fst (get q) = None \<and> chars (snd (get q)) = []"
    and get_some: "chars q = c # cs \<Longrightarrow> fst (get q) = Some c \<and> chars (snd (get q)) = cs"
begin

lemma put_all:
  "length (chars q) + length cs \<le> cap q \<Longrightarrow>
    chars (fold (\<lambda>c q. snd (put c q)) cs q) = chars q @ cs"
proof (induction cs arbitrary: q)
  case (Cons c cs)
  then show ?case using put_chars [of q c] put_cap [of c q] by simp
qed simp

lemma drain_all: "drain get (length (chars q) + k) q = map Some (chars q) @ replicate k None"
proof (induction "length (chars q)" arbitrary: q k)
  case 0
  then have "chars q = []" by simp
  then show ?case
  proof (induction k arbitrary: q)
    case (Suc k)
    then show ?case using get_none [of q] by simp
  qed simp
next
  case (Suc n)
  then obtain c cs where q: "chars q = c # cs" by (cases "chars q") auto
  then show ?case using get_some [OF q] Suc(1) [of "snd (get q)" k] Suc(2) by simp
qed

lemma put_then_drain:
  assumes "length (chars q) + length cs \<le> cap q"
  shows "drain get (length (chars q) + length cs + k) (fold (\<lambda>c q. snd (put c q)) cs q)
    = map Some (chars q @ cs) @ replicate k None"
  using drain_all [of "fold (\<lambda>c q. snd (put c q)) cs q" k] by (simp add: put_all [OF assms])

end

text \<open>The queue's \<open>GetChar\<close> with its result as an option.\<close>

definition take_char :: "uart_queue \<Rightarrow> u8 option \<times> uart_queue" where
  "take_char q = (case queue_GetChar 0 q of ((have_char, v), q') \<Rightarrow> (if have_char then Some (ucast v) else None, q'))"

interpretation uq: char_queue queue_chars queue_capacity queue_PutChar take_char
  by unfold_locales (auto simp: queue_defs take_char_def split: list.splits if_splits)

section \<open>Invariant\<close>

lemma wf_uart_queue_Reset [simp]: "wf_queue uart_queue_Reset"
  by (simp add: wf_queue_def uart_queue_Reset_def configured_size_def)

lemma wf_queue_GetChar: "wf_queue q \<Longrightarrow> wf_queue (snd (queue_GetChar rv q))"
  by (auto simp: wf_queue_def queue_defs split: list.splits)

lemma wf_queue_PutChar: "wf_queue q \<Longrightarrow> wf_queue (snd (queue_PutChar c q))"
  by (auto simp: wf_queue_def queue_defs ucast_u8_le)

lemma wf_queue_SetFIFOenable: "wf_queue q \<Longrightarrow> wf_queue (queue_SetFIFOenable e q)"
  by (simp add: wf_queue_def queue_SetFIFOenable_def)

lemma wf_queue_SelectThreshhold: "wf_queue q \<Longrightarrow> wf_queue (queue_SelectThreshhold k q)"
  by (simp add: wf_queue_def queue_SelectThreshhold_def configured_size_def)

lemmas wf_queue_ops = wf_queue_GetChar wf_queue_PutChar wf_queue_SetFIFOenable wf_queue_SelectThreshhold

definition wf_uart :: "uart \<Rightarrow> bool" where
  "wf_uart u \<longleftrightarrow> wf_queue (transmit_queue u) \<and> wf_queue (receive_queue u)"

lemma wf_uart_Reset [simp]: "wf_uart uart_Reset"
  by (simp add: wf_uart_def uart_Reset_def)

lemma wf_uart_ops:
  "wf_uart u \<Longrightarrow> wf_uart (snd (uart_GetChar rv u))"
  "wf_uart u \<Longrightarrow> wf_uart (snd (uart_PutChar c u))"
  "wf_uart u \<Longrightarrow> wf_uart (uart_SetFIFOenable e u)"
  "wf_uart u \<Longrightarrow> wf_uart (uart_SelectThreshhold i j u)"
  by (auto simp: wf_uart_def uart_GetChar_def uart_PutChar_def uart_SetFIFOenable_def
      uart_SelectThreshhold_def split: prod.split dest: wf_queue_ops)
    (metis snd_conv wf_queue_GetChar wf_queue_PutChar)+

section \<open>Correctness of the queue\<close>

text \<open>
  First in, first out: characters put into a queue with room for them, FIFO or holding
  register, come out after those already there, in order, and then the queue reports empty.
\<close>

theorem queue_fifo_order:
  assumes "length (queue_chars q) + length cs \<le> queue_capacity q"
  shows "drain take_char (length (queue_chars q) + length cs + k) (fold (\<lambda>c q. snd (queue_PutChar c q)) cs q)
    = map Some (queue_chars q @ cs) @ replicate k None"
  using assms by (rule uq.put_then_drain)

theorem queue_fifo_order_witness:
  "drain take_char 3 (fold (\<lambda>c q. snd (queue_PutChar c q)) [0x41, 0x42]
     (queue_SetFIFOenable True uart_queue_Reset)) = [Some 0x41, Some 0x42, None]"
  using queue_fifo_order [of "queue_SetFIFOenable True uart_queue_Reset" "[0x41, 0x42]" 1]
  by (simp add: queue_SetFIFOenable_def uart_queue_Reset_def queue_chars_def queue_capacity_def eval_nat_numeral)

text \<open>
  A full queue: the FIFO refuses a further character and keeps its contents, the holding
  register accepts it and loses the character it held; \<open>Full\<close> and \<open>Empty\<close> report exactly that the
  capacity is reached and that nothing is held.
\<close>

theorem queue_overrun:
  assumes "wf_queue q"
  shows "(Full q \<longleftrightarrow> length (queue_chars q) = queue_capacity q) \<and> (Empty q \<longleftrightarrow> queue_chars q = []) \<and>
    (Full q \<longrightarrow> queue_PutChar c q = (if fifo_enabled q then (False, q) else (True, q\<lparr>holding_register := ucast c\<rparr>)))"
  using assms by (auto simp: wf_queue_def queue_defs)

theorem queue_overrun_witness:
  "queue_PutChar 0x42 (snd (queue_PutChar 0x41 uart_queue_Reset))
    = (True, (snd (queue_PutChar 0x41 uart_queue_Reset))\<lparr>holding_register := 0x42\<rparr>)"
  using queue_overrun [of "snd (queue_PutChar 0x41 uart_queue_Reset)" "0x42"]
  by (simp add: wf_queue_PutChar) (simp add: queue_defs uart_queue_Reset_def)

end
