(* ===== verification/Uart_PL011.thy ===== *)
theory Uart_PL011
  imports Uart Mm_Device
begin

text \<open>
  The PL011 uart, \<open>include/uart_pl011.h\<close> and \<open>src/uart_pl011.C\<close>, with the transmit and receive
  steps of \<open>src/uart.C\<close>, whose virtual calls go to this class. The terminal is a console record:
  what each poll of standard input finds, and what was printed. Switching the terminal between
  buffered and unbuffered mode has no effect on that record and is left out.
\<close>

unbundle bit_operations_syntax

section \<open>The terminal\<close>

text \<open>One poll: \<open>None\<close> no character ready, \<open>Some c\<close> what \<open>getchar()\<close> returns (-1 at end of file).\<close>

datatype console_event = Putchar u32 | QueueUp u8

record console =
  stdin_polls :: "int option list"
  console_out :: "console_event list"

definition input_poll :: "console \<Rightarrow> int option \<times> console" where
  "input_poll con = (case stdin_polls con of [] \<Rightarrow> (None, con)
     | p # ps \<Rightarrow> (p, con\<lparr>stdin_polls := ps\<rparr>))"

definition console_emit :: "console_event \<Rightarrow> console \<Rightarrow> console" where
  "console_emit e con = con\<lparr>console_out := console_out con @ [e]\<rparr>"

section \<open>Class UART\_pl011: state\<close>

record UART_pl011 = memmap_device +
  uart_base :: uart
  UARTDR :: u32
  UARTRSR :: u32
  UARTFR :: u32
  UARTILPR :: u32
  UARTIBRD :: u32
  UARTFBRD :: u32
  UARTLCR_H :: u32
  UARTTCR :: u32
  UARTIFLS :: u32
  UARTIMSC :: u32
  UARTRIS :: u32
  UARTMIS :: u32
  UARTDMACR :: u32
  UARTPeriphID0 :: u32
  UARTPeriphID1 :: u32
  UARTPeriphID2 :: u32
  UARTPeriphID3 :: u32
  UARTCellID0 :: u32
  UARTCellID1 :: u32
  UARTCellID2 :: u32
  UARTCellID3 :: u32
  clock :: u64
  clock_advance_interval :: u64

definition UART_pl011_Reset :: "UART_pl011 \<Rightarrow> UART_pl011" where
  "UART_pl011_Reset u = memmap_device.extend (memmap_device.truncate u)
     \<lparr>uart_base = uart_Reset, UARTDR = 0, UARTRSR = 0, UARTFR = 0x110, UARTILPR = 0, UARTIBRD = 0,
      UARTFBRD = 0, UARTLCR_H = 0, UARTTCR = 0x300, UARTIFLS = 0x12, UARTIMSC = 0, UARTRIS = 0,
      UARTMIS = 0, UARTDMACR = 0, UARTPeriphID0 = 0x11, UARTPeriphID1 = 0x10, UARTPeriphID2 = 0x24,
      UARTPeriphID3 = 0x00, UARTCellID0 = 0x0d, UARTCellID1 = 0xf0, UARTCellID2 = 0x05,
      UARTCellID3 = 0xb1, clock = 0, clock_advance_interval = 10000\<rparr>"

text \<open>The constructor resets, so the registers start as \<open>Reset\<close> leaves them.\<close>

definition UART_pl011_new :: UART_pl011 where
  "UART_pl011_new = UART_pl011_Reset (memmap_device.extend memmap_device_new
     \<lparr>uart_base = uart_Reset, UARTDR = 0, UARTRSR = 0, UARTFR = 0, UARTILPR = 0, UARTIBRD = 0,
      UARTFBRD = 0, UARTLCR_H = 0, UARTTCR = 0, UARTIFLS = 0, UARTIMSC = 0, UARTRIS = 0,
      UARTMIS = 0, UARTDMACR = 0, UARTPeriphID0 = 0, UARTPeriphID1 = 0, UARTPeriphID2 = 0,
      UARTPeriphID3 = 0, UARTCellID0 = 0, UARTCellID1 = 0, UARTCellID2 = 0,
      UARTCellID3 = 0, clock = 0, clock_advance_interval = 10000\<rparr>)"

definition advanceClock :: "UART_pl011 \<Rightarrow> UART_pl011" where
  "advanceClock u = u\<lparr>clock := clock u + clock_advance_interval u\<rparr>"

definition setClock :: "u64 \<Rightarrow> u64 \<Rightarrow> UART_pl011 \<Rightarrow> UART_pl011" where
  "setClock c i u = u\<lparr>clock := c, clock_advance_interval := i\<rparr>"

definition SetOverrun :: "bool \<Rightarrow> UART_pl011 \<Rightarrow> UART_pl011" where
  "SetOverrun overrun u =
     (if overrun then u\<lparr>UARTRSR := UARTRSR u OR 0x8, UARTRIS := UARTRIS u OR 0x400\<rparr>
      else u\<lparr>UARTRSR := UARTRSR u AND NOT 0x8, UARTRIS := UARTRIS u AND NOT 0x400\<rparr>)"

text \<open>Both hooks have an empty body.\<close>

definition SetTransmitInterrupt :: "UART_pl011 \<Rightarrow> UART_pl011" where
  "SetTransmitInterrupt u = u"

definition SetReceiveInterrupt :: "UART_pl011 \<Rightarrow> UART_pl011" where
  "SetReceiveInterrupt u = u"

definition overrun_interrupt_set :: "UART_pl011 \<Rightarrow> bool" where
  "overrun_interrupt_set u \<longleftrightarrow> UARTRIS u AND 0x400 \<noteq> 0"

definition receive_interrupt_set :: "UART_pl011 \<Rightarrow> bool" where
  "receive_interrupt_set u \<longleftrightarrow> UARTRIS u AND 0x10 \<noteq> 0"

definition transmit_interrupt_set :: "UART_pl011 \<Rightarrow> bool" where
  "transmit_interrupt_set u \<longleftrightarrow> UARTRIS u AND 0x20 \<noteq> 0"

definition overrun_interrupts_enabled :: "UART_pl011 \<Rightarrow> bool" where
  "overrun_interrupts_enabled u \<longleftrightarrow> UARTIMSC u AND 0x400 = 0"

definition transmit_interrupts_enabled :: "UART_pl011 \<Rightarrow> bool" where
  "transmit_interrupts_enabled u \<longleftrightarrow> UARTIMSC u AND 0x020 = 0"

definition receive_interrupts_enabled :: "UART_pl011 \<Rightarrow> bool" where
  "receive_interrupts_enabled u \<longleftrightarrow> UARTIMSC u AND 0x010 = 0"

section \<open>Transmit and receive\<close>

definition Transmit :: "UART_pl011 \<Rightarrow> console \<Rightarrow> UART_pl011 \<times> console" where
  "Transmit u con =
     (let ((got, nc), q) = queue_GetChar 0 (transmit_queue (uart_base u));
          u1 = u\<lparr>uart_base := (uart_base u)\<lparr>transmit_queue := q\<rparr>\<rparr>
      in if got
         then (if BelowThreshhold q then SetTransmitInterrupt u1 else u1, console_emit (Putchar nc) con)
         else (u1, con))"

definition Receive :: "UART_pl011 \<Rightarrow> console \<Rightarrow> UART_pl011 \<times> console" where
  "Receive u con =
     (if Full (receive_queue (uart_base u)) then (SetOverrun True u, con)
      else
        let u1 = SetOverrun False u;
            (poll, con1) = input_poll con;
            nc = (case poll of None \<Rightarrow> 0 | Some c \<Rightarrow> (word_of_int c :: u8))
        in if nc = 0 then (u1, con1)
           else
             let q = snd (queue_PutChar nc (receive_queue (uart_base u1)));
                 u2 = u1\<lparr>uart_base := (uart_base u1)\<lparr>receive_queue := q\<rparr>\<rparr>
             in ((if AboveThreshhold q then SetReceiveInterrupt u2 else u2), console_emit (QueueUp nc) con1))"

definition ServiceIOs :: "UART_pl011 \<Rightarrow> console \<Rightarrow> UART_pl011 \<times> console" where
  "ServiceIOs u con = (case Transmit u con of (u1, con1) \<Rightarrow> Receive u1 con1)"

section \<open>Registers\<close>

definition UART_pl011_register_index :: "u64 \<Rightarrow> int" where
  "UART_pl011_register_index PA =
     (let a = uint (PA AND 0xfff)
      in if a \<in> {0x000, 0x004, 0x018, 0x020, 0x024, 0x028, 0x02c, 0x030, 0x034, 0x038, 0x03c, 0x040,
                 0x044, 0x048, 0xfe0, 0xfe4, 0xfe8, 0xfec, 0xff0, 0xff4, 0xff8, 0xffc}
         then a else -1)"

definition UART_pl011_RegisterName :: "u64 \<Rightarrow> string" where
  "UART_pl011_RegisterName PA =
     (case map_of [(0x0, ''UART_DR''), (0x4, ''UART_RSR''), (0x18, ''UART_FR''), (0x20, ''UART_ILPR''),
         (0x24, ''UART_IBRD''), (0x28, ''UART_FBRD''), (0x2c, ''UART_LCR_H''), (0x30, ''UART_TCR''),
         (0x34, ''UART_IFLS''), (0x38, ''UART_IMSC''), (0x3c, ''UART_TRIS''), (0x40, ''UART_TMIS''),
         (0x44, ''UART_TICR''), (0x48, ''UART_TDMACR''), (0xfe0, ''UART_PID0''), (0xfe4, ''UART_PID1''),
         (0xfe8, ''UART_PID2''), (0xfec, ''UART_PID3''), (0xff0, ''UART_CID0''), (0xff4, ''UART_CID1''),
         (0xff8, ''UART_CID2''), (0xffc, ''UART_CID3'')] (UART_pl011_register_index PA) of
        None \<Rightarrow> ''?'' | Some rn \<Rightarrow> rn)"

definition flag_bit :: "bool \<Rightarrow> nat \<Rightarrow> u32" where
  "flag_bit b n = push_bit n (of_bool b)"

definition UpdateStatus :: "UART_pl011 \<Rightarrow> UART_pl011" where
  "UpdateStatus u =
     (let b = uart_base u
      in u\<lparr>UARTFR := flag_bit True 8 OR flag_bit (Transmit_empty b) 7 OR flag_bit (Receive_full b) 6
             OR flag_bit (Transmit_full b) 5 OR flag_bit (Receive_empty b) 4 OR flag_bit False 3
             OR flag_bit True 2 OR flag_bit True 1 OR flag_bit True 0\<rparr>)"

definition UART_pl011_Read32 :: "u64 \<Rightarrow> UART_pl011 \<Rightarrow> (int \<times> u32) \<times> UART_pl011" where
  "UART_pl011_Read32 PA u =
     (let r = UART_pl011_register_index PA
      in if r = 0x0 then
           (if Receive_empty (uart_base u) then ((0, 0), u)
            else case uart_GetChar 0 (uart_base u) of ((_, v), b) \<Rightarrow> ((0, v), u\<lparr>uart_base := b\<rparr>))
         else if r = 0x4 then ((0, UARTRSR u), u)
         else if r = 0x18 then ((0, UARTFR (UpdateStatus u)), UpdateStatus u)
         else if r = 0x20 then ((0, UARTILPR u), u)
         else if r = 0x24 then ((0, 0x24), u)
         else if r = 0x28 then ((0, 0x28), u)
         else if r = 0x2c then ((0, UARTLCR_H u), u)
         else if r = 0x30 then ((0, UARTTCR u), u)
         else if r = 0x34 then ((0, UARTIFLS u), u)
         else if r = 0x38 then ((0, UARTIMSC u), u)
         else if r = 0x3c then ((0, UARTRIS u), u)
         else if r = 0x40 \<or> r = 0x44 \<or> r = 0x48 then ((0, 0), u)
         else if r = 0xfe0 then ((0, UARTPeriphID0 u), u)
         else if r = 0xfe4 then ((0, UARTPeriphID1 u), u)
         else if r = 0xfe8 then ((0, UARTPeriphID2 u), u)
         else if r = 0xfec then ((0, UARTPeriphID3 u), u)
         else if r = 0xff0 then ((0, UARTCellID0 u), u)
         else if r = 0xff4 then ((0, UARTCellID1 u), u)
         else if r = 0xff8 then ((0, UARTCellID2 u), u)
         else if r = 0xffc then ((0, UARTCellID3 u), u)
         else ((-1, 0), u))"

definition UART_pl011_Read ::
    "bool \<Rightarrow> u64 \<Rightarrow> buffer \<Rightarrow> int \<Rightarrow> UART_pl011 \<Rightarrow> (int \<times> buffer) \<times> UART_pl011" where
  "UART_pl011_Read host_big PA buf access_size u =
     (if access_size \<noteq> 4 then ((-1, buf), u)
      else case UART_pl011_Read32 PA u of
             ((rcode, v), u') \<Rightarrow> ((rcode, put_bytes 0 (host_bytes host_big 4 v) buf), u'))"

definition UART_pl011_Write32 :: "u64 \<Rightarrow> u32 \<Rightarrow> UART_pl011 \<Rightarrow> int \<times> UART_pl011" where
  "UART_pl011_Write32 PA rval u =
     (let r = UART_pl011_register_index PA
      in if r = 0x0 then (0, u\<lparr>uart_base := snd (uart_PutChar (ucast rval) (uart_base u))\<rparr>)
         else if r = 0x4 then (0, u\<lparr>UARTRSR := 0\<rparr>)
         else if r = 0x18 then (0, u)
         else if r = 0x20 then (0, u\<lparr>UARTILPR := rval AND 0xff\<rparr>)
         else if r = 0x24 then (0, u\<lparr>UARTIBRD := rval AND 0xffff\<rparr>)
         else if r = 0x28 then (0, u\<lparr>UARTFBRD := rval AND 0x1f\<rparr>)
         else if r = 0x2c then
           (let lcr = rval AND 0xff; FEN = (drop_bit 4 lcr AND 1 = 1)
            in (0, u\<lparr>UARTLCR_H := lcr, uart_base := uart_SetFIFOenable FEN (uart_base u)\<rparr>))
         else if r = 0x30 then (0, u\<lparr>UARTTCR := rval AND 0xffff\<rparr>)
         else if r = 0x34 then
           (let ifls = rval AND 0x3f
            in (0, u\<lparr>UARTIFLS := ifls,
                     uart_base := uart_SelectThreshhold (uint (drop_bit 3 ifls AND 0x7)) (uint (ifls AND 0x7)) (uart_base u)\<rparr>))
         else if r = 0x38 then (0, u\<lparr>UARTIMSC := rval AND 0x7ff\<rparr>)
         else if r = 0x3c \<or> r = 0x40 then (0, u)
         else if r = 0x44 then (0, u\<lparr>UARTRIS := rval AND 0x7ff\<rparr>)
         else if r = 0x48 then (0, u\<lparr>UARTDMACR := rval AND 0x3\<rparr>)
         else if r = 0xfe0 \<or> r = 0xfe4 \<or> r = 0xfe8 \<or> r = 0xfec \<or> r = 0xff0 \<or> r = 0xff4 \<or> r = 0xff8 \<or> r = 0xffc
              then (0, u)
         else (-1, u))"

definition UART_pl011_Write :: "bool \<Rightarrow> u64 \<Rightarrow> buffer \<Rightarrow> int \<Rightarrow> UART_pl011 \<Rightarrow> int \<times> UART_pl011" where
  "UART_pl011_Write host_big PA buf access_size u =
     (if access_size \<noteq> 4 then (-1, u) else UART_pl011_Write32 PA (host_word host_big (take 4 buf)) u)"

text \<open>The mask of pending interrupts: overrun 1, transmit 2, receive 4.\<close>

definition UART_pl011_InterruptPending :: "UART_pl011 \<Rightarrow> bool \<times> u32" where
  "UART_pl011_InterruptPending u =
     (let pending = (if overrun_interrupts_enabled u \<and> overrun_interrupt_set u then 1 else 0)
                 OR (if transmit_interrupts_enabled u \<and> transmit_interrupt_set u then 2 else 0)
                 OR (if receive_interrupts_enabled u \<and> receive_interrupt_set u then 4 else 0)
      in (pending \<noteq> 0, pending))"

section \<open>The uart as a device\<close>

interpretation pl011: mm_registers UART_pl011_register_index UART_pl011_Read32 UART_pl011_Write32
    UART_pl011_Read UART_pl011_Write
proof (unfold_locales, goal_cases)
  case (4 PA d)
  then show ?case
    by (auto simp: UART_pl011_Read32_def UART_pl011_register_index_def Let_def split: prod.split)
next
  case (5 PA v d)
  then show ?case
    by (auto simp: UART_pl011_Write32_def UART_pl011_register_index_def Let_def)
qed (simp_all add: fun_eq_iff UART_pl011_register_index_def UART_pl011_Read32_def UART_pl011_Write32_def
    UART_pl011_Read_def UART_pl011_Write_def Let_def)

section \<open>Runs of the uart\<close>

text \<open>What can happen to the uart: register accesses, a service round, and a reset.\<close>

datatype pl011_op = OpRead u64 | OpWrite u64 u32 | OpService | OpReset

fun pl011_do :: "pl011_op \<Rightarrow> UART_pl011 \<times> console \<Rightarrow> UART_pl011 \<times> console" where
  "pl011_do (OpRead PA) (u, con) = (snd (UART_pl011_Read32 PA u), con)"
| "pl011_do (OpWrite PA v) (u, con) = (snd (UART_pl011_Write32 PA v u), con)"
| "pl011_do OpService (u, con) = ServiceIOs u con"
| "pl011_do OpReset (u, con) = (UART_pl011_Reset u, con)"

inductive pl011_reach :: "(pl011_op \<Rightarrow> bool) \<Rightarrow> UART_pl011 \<times> console \<Rightarrow> bool" for allowed where
  start: "pl011_reach allowed (UART_pl011_new, con)"
| step: "pl011_reach allowed s \<Longrightarrow> allowed op \<Longrightarrow> pl011_reach allowed (pl011_do op s)"

text \<open>
  The invariant: well-formed queues, both in the mode that the line control register selects,
  and the identification registers as they were after reset.
\<close>

definition pl011_inv :: "UART_pl011 \<Rightarrow> bool" where
  "pl011_inv u \<longleftrightarrow> wf_uart (uart_base u) \<and>
     fifo_enabled (transmit_queue (uart_base u)) = bit (UARTLCR_H u) 4 \<and>
     fifo_enabled (receive_queue (uart_base u)) = bit (UARTLCR_H u) 4 \<and>
     UARTPeriphID0 u = 0x11 \<and> UARTPeriphID1 u = 0x10 \<and> UARTPeriphID2 u = 0x24 \<and> UARTPeriphID3 u = 0 \<and>
     UARTCellID0 u = 0x0d \<and> UARTCellID1 u = 0xf0 \<and> UARTCellID2 u = 0x05 \<and> UARTCellID3 u = 0xb1"

lemma fifo_mode_kept [simp]:
  "fifo_enabled (snd (queue_GetChar rv q)) = fifo_enabled q"
  "fifo_enabled (snd (queue_PutChar c q)) = fifo_enabled q"
  "fifo_enabled (queue_SelectThreshhold k q) = fifo_enabled q"
  "fifo_enabled (queue_SetFIFOenable e q) = e"
  by (auto simp: queue_defs queue_SelectThreshhold_def queue_SetFIFOenable_def split: list.splits)

lemma uart_ops_parts [simp]:
  "transmit_queue (snd (uart_GetChar rv b)) = transmit_queue b"
  "receive_queue (snd (uart_GetChar rv b)) = snd (queue_GetChar rv (receive_queue b))"
  "transmit_queue (snd (uart_PutChar c b)) = snd (queue_PutChar c (transmit_queue b))"
  "receive_queue (snd (uart_PutChar c b)) = receive_queue b"
  by (simp_all add: uart_GetChar_def uart_PutChar_def split: prod.split)

lemma FEN_bit: "(drop_bit 4 w AND 1 = 1) = bit w 4" for w :: u32
  by (simp add: bit_iff_odd_drop_bit and_one_eq odd_iff_mod_2_eq_one)

lemma pl011_inv_Reset: "pl011_inv (UART_pl011_Reset u)"
  by (simp add: pl011_inv_def UART_pl011_Reset_def memmap_device.defs uart_Reset_def uart_queue_Reset_def
      wf_uart_def wf_queue_def configured_size_def)

lemma pl011_inv_Read: "pl011_inv u \<Longrightarrow> pl011_inv (snd (UART_pl011_Read32 PA u))"
  using wf_uart_ops(1) [of "uart_base u" 0]
  by (simp add: pl011_inv_def UART_pl011_Read32_def UpdateStatus_def Let_def case_prod_unfold)

lemma pl011_inv_Write:
  assumes "pl011_inv u"
  shows "pl011_inv (snd (UART_pl011_Write32 PA v u))"
  using assms wf_uart_ops(2-4) [of "uart_base u"]
  by (simp add: pl011_inv_def UART_pl011_Write32_def Let_def FEN_bit uart_SetFIFOenable_def
      uart_SelectThreshhold_def)

lemma pl011_inv_SetOverrun [simp]: "pl011_inv (SetOverrun b u) = pl011_inv u"
  by (simp add: pl011_inv_def SetOverrun_def)

lemma pl011_inv_queues:
  assumes "pl011_inv u"
  shows "pl011_inv (u\<lparr>uart_base := (uart_base u)\<lparr>transmit_queue := snd (queue_GetChar rv (transmit_queue (uart_base u)))\<rparr>\<rparr>)"
    "pl011_inv (u\<lparr>uart_base := (uart_base u)\<lparr>receive_queue := snd (queue_PutChar c (receive_queue (uart_base u)))\<rparr>\<rparr>)"
  using assms by (simp_all add: pl011_inv_def wf_uart_def wf_queue_GetChar wf_queue_PutChar)

lemma pl011_inv_Transmit: "pl011_inv u \<Longrightarrow> pl011_inv (fst (Transmit u con))"
  using pl011_inv_queues(1) [of u 0]
  by (simp add: Transmit_def SetTransmitInterrupt_def Let_def case_prod_unfold)

lemma pl011_inv_Receive: "pl011_inv u \<Longrightarrow> pl011_inv (fst (Receive u con))"
  by (auto simp: Receive_def SetReceiveInterrupt_def Let_def pl011_inv_queues(2) split: prod.split)

lemma pl011_inv_do: "pl011_inv (fst s) \<Longrightarrow> pl011_inv (fst (pl011_do op s))"
proof (induction op s rule: pl011_do.induct)
  case (3 u con)
  then show ?case
    by (simp add: ServiceIOs_def case_prod_unfold pl011_inv_Receive pl011_inv_Transmit)
qed (simp_all add: pl011_inv_Read pl011_inv_Write pl011_inv_Reset)

text \<open>
  C39. Invariant of the PL011: in every state reached from power-up by register accesses, service rounds
  and resets, neither queue exceeds its 16 places, the holding registers hold a character, the
  thresholds are legal, both queues are in the mode the line control register says, and the
  identification registers keep their values.
\<close>

theorem pl011_invariant:
  assumes "pl011_reach allowed s"
  shows "pl011_inv (fst s)"
  using assms
proof (induction rule: pl011_reach.induct)
  case (start con)
  then show ?case by (simp add: UART_pl011_new_def pl011_inv_Reset)
next
  case (step s op)
  then show ?case by (simp add: pl011_inv_do)
qed

theorem pl011_invariant_witness:
  "pl011_inv (fst (pl011_do OpService (pl011_do (OpWrite 0 0x41) (UART_pl011_new, \<lparr>stdin_polls = [], console_out = []\<rparr>))))"
  using pl011_invariant [OF pl011_reach.step [OF pl011_reach.step [OF pl011_reach.start]], of "\<lambda>_. True" "OpWrite 0 0x41" OpService]
  by simp

definition not_clear :: "pl011_op \<Rightarrow> bool" where
  "not_clear op \<longleftrightarrow> (case op of OpWrite PA _ \<Rightarrow> UART_pl011_register_index PA \<noteq> 0x44 | _ \<Rightarrow> True)"

lemma raw_interrupts_kept:
  assumes "not_clear op" "UARTRIS (fst s) \<in> {0, 0x400}"
  shows "UARTRIS (fst (pl011_do op s)) \<in> {0, 0x400}"
  using assms
proof (induction op s rule: pl011_do.induct)
  case (1 PA u con)
  then show ?case by (simp add: UART_pl011_Read32_def UpdateStatus_def Let_def case_prod_unfold)
next
  case (2 PA v u con)
  then show ?case by (simp add: UART_pl011_Write32_def Let_def not_clear_def)
next
  case (3 u con)
  then show ?case
    by (auto simp: ServiceIOs_def Transmit_def Receive_def SetOverrun_def SetTransmitInterrupt_def
        SetReceiveInterrupt_def Let_def case_prod_unfold)
qed (simp add: UART_pl011_Reset_def memmap_device.defs)

text \<open>
  No transmit or receive interrupt: in every state reached without a write to the interrupt
  clear register, whatever the mask register says, the only interrupt that can be pending is
  the overrun interrupt, and it is pending exactly when it is not masked and the overrun flag is up.
\<close>

theorem pl011_only_overrun_interrupts:
  assumes "pl011_reach not_clear (u, con)"
  shows "UART_pl011_InterruptPending u =
    (UARTIMSC u AND 0x400 = 0 \<and> UARTRIS u = 0x400, if UARTIMSC u AND 0x400 = 0 \<and> UARTRIS u = 0x400 then 1 else 0)"
proof -
  have "UARTRIS (fst s) \<in> {0, 0x400}" if "pl011_reach not_clear s" for s
    using that
  proof (induction rule: pl011_reach.induct)
    case (start con)
    then show ?case by (simp add: UART_pl011_new_def UART_pl011_Reset_def memmap_device.defs)
  next
    case (step s op)
    then show ?case by (simp only: raw_interrupts_kept)
  qed
  from this [OF assms] show ?thesis
    by (auto simp: UART_pl011_InterruptPending_def overrun_interrupts_enabled_def overrun_interrupt_set_def
        transmit_interrupt_set_def receive_interrupt_set_def)
qed

theorem pl011_only_overrun_interrupts_witness:
  "UART_pl011_InterruptPending UART_pl011_new = (False, 0)"
  using pl011_only_overrun_interrupts [OF pl011_reach.start [where con = "\<lparr>stdin_polls = [], console_out = []\<rparr>"]]
  by (simp add: UART_pl011_new_def UART_pl011_Reset_def memmap_device.defs)

definition printed :: "console \<Rightarrow> u32 list" where
  "printed con = concat (map (\<lambda>e. case e of Putchar c \<Rightarrow> [c] | QueueUp _ \<Rightarrow> []) (console_out con))"

definition tx_stream :: "UART_pl011 \<times> console \<Rightarrow> u32 list" where
  "tx_stream s = printed (snd s) @ map ucast (queue_chars (transmit_queue (uart_base (fst s))))"

definition tx_sent :: "pl011_op \<Rightarrow> u8 list" where
  "tx_sent op = (case op of OpWrite PA v \<Rightarrow> if UART_pl011_register_index PA = 0 then [ucast v] else [] | _ \<Rightarrow> [])"

text \<open>
  An operation of a driver that observes the flags: no reset, no data write to a full queue, and a write
  to the line control register only with the FIFO mode that is already set, or with no character held
  in either mode.
\<close>

definition tx_fair :: "pl011_op \<Rightarrow> UART_pl011 \<times> console \<Rightarrow> bool" where
  "tx_fair op s \<longleftrightarrow> (case op of
      OpReset \<Rightarrow> False
    | OpWrite PA v \<Rightarrow>
        (UART_pl011_register_index PA = 0x2c \<longrightarrow>
          (let q = transmit_queue (uart_base (fst s)) in fifo_enabled q = bit v 4 \<or> fifo q = [] \<and> \<not> holding_register_primed q)) \<and>
        (UART_pl011_register_index PA = 0 \<longrightarrow> \<not> Transmit_full (uart_base (fst s)))
    | _ \<Rightarrow> True)"

fun tx_fair_run :: "pl011_op list \<Rightarrow> UART_pl011 \<times> console \<Rightarrow> bool" where
  "tx_fair_run [] s = True"
| "tx_fair_run (op # ops) s \<longleftrightarrow> tx_fair op s \<and> tx_fair_run ops (pl011_do op s)"

lemma queue_chars_SelectThreshhold [simp]: "queue_chars (queue_SelectThreshhold k q) = queue_chars q"
  by (simp add: queue_chars_def queue_SelectThreshhold_def)

lemma ucast_u32_u8_u32 [simp]: "ucast (ucast (ucast (w :: u32) :: u8) :: u32) = (ucast w :: u8)"
  by simp

lemma queue_get_stream:
  "queue_GetChar 0 q = ((got, c), q') \<Longrightarrow>
    (if got then map ucast (queue_chars q) = c # map ucast (queue_chars q') else queue_chars q' = queue_chars q)"
  by (auto simp: queue_defs split: list.splits if_splits prod.splits)

lemma queue_put_room: "\<not> Full q \<Longrightarrow> queue_chars (snd (queue_PutChar c q)) = queue_chars q @ [c]"
  by (auto simp: queue_defs split: if_splits)

lemma Receive_tx: "transmit_queue (uart_base (fst (Receive u con))) = transmit_queue (uart_base u)"
    "printed (snd (Receive u con)) = printed con"
  by (auto simp: Receive_def SetOverrun_def SetReceiveInterrupt_def Let_def case_prod_unfold
      printed_def console_emit_def input_poll_def split: list.split)

lemma Transmit_stream: "tx_stream (Transmit u con) = tx_stream (u, con)"
proof -
  obtain got c q' where g: "queue_GetChar 0 (transmit_queue (uart_base u)) = ((got, c), q')"
    by (metis prod.collapse)
  show ?thesis
    using queue_get_stream [OF g]
    by (cases got) (simp_all add: Transmit_def g tx_stream_def printed_def console_emit_def
        SetTransmitInterrupt_def Let_def)
qed

lemma queue_chars_mode:
  "fifo_enabled q = b \<or> fifo q = [] \<and> \<not> holding_register_primed q \<Longrightarrow> queue_chars (queue_SetFIFOenable b q) = queue_chars q"
  by (auto simp: queue_chars_def queue_SetFIFOenable_def)

lemma FEN_masked: "(drop_bit 4 v AND 15) AND 1 = 1 \<longleftrightarrow> bit v 4" for v :: u32
proof -
  have "(drop_bit 4 v AND 15) AND 1 = drop_bit 4 v AND 1" by (simp add: and.assoc)
  then show ?thesis by (simp only: FEN_bit)
qed

lemma tx_step:
  assumes "tx_fair op s"
  shows "tx_stream (pl011_do op s) = tx_stream s @ map ucast (tx_sent op)"
  using assms
proof (induction op s rule: pl011_do.induct)
  case (1 PA u con)
  then show ?case
    by (simp add: tx_stream_def tx_sent_def UART_pl011_Read32_def UpdateStatus_def Let_def case_prod_unfold)
next
  case (2 PA v u con)
  show ?case
  proof (cases "UART_pl011_register_index PA = 0x2c")
    case True
    then show ?thesis
      using 2 queue_chars_mode [of "transmit_queue (uart_base u)" "bit v 4"]
      by (simp add: tx_stream_def tx_sent_def tx_fair_def UART_pl011_Write32_def Let_def uart_SetFIFOenable_def FEN_masked
          del: bit_numeral_word_iff)
  qed (use 2 in \<open>simp add: tx_stream_def tx_sent_def tx_fair_def UART_pl011_Write32_def Let_def Transmit_full_def
        uart_SelectThreshhold_def queue_put_room\<close>)
next
  case (3 u con)
  have "tx_stream (Receive (fst (Transmit u con)) (snd (Transmit u con))) = tx_stream (Transmit u con)"
    by (simp add: tx_stream_def Receive_tx)
  then show ?case
    by (simp add: ServiceIOs_def case_prod_unfold Transmit_stream tx_sent_def)
qed (simp add: tx_fair_def)

text \<open>
  C40. Transmission: the characters transmitted to the terminal followed by those waiting in the transmit
  queue are the characters written to the data register, in order, whatever else is read, written or
  serviced in between, as long as the device is not reset, data is written only when the queue has
  room, and a write to the line control register switches the FIFO on or off only while no character
  is held. (The line that the terminal also shows for every received character is not counted.)
\<close>

theorem pl011_transmit_stream:
  assumes "tx_fair_run ops s"
  shows "tx_stream (fold pl011_do ops s) = tx_stream s @ map ucast (concat (map tx_sent ops))"
  using assms
proof (induction ops arbitrary: s)
  case (Cons op ops)
  then show ?case by (simp add: tx_step)
qed simp

theorem pl011_transmit_stream_witness:
  "tx_stream (fold pl011_do [OpWrite 0x2c 0x10, OpWrite 0 0x41, OpService, OpWrite 0 0x42] (UART_pl011_new, \<lparr>stdin_polls = [], console_out = []\<rparr>))
    = [0x41, 0x42]"
proof -
  let ?s = "(UART_pl011_new, \<lparr>stdin_polls = [], console_out = []\<rparr>)"
  have "tx_fair_run [OpWrite 0x2c 0x10, OpWrite 0 0x41, OpService, OpWrite 0 0x42] ?s" by code_simp
  from pl011_transmit_stream [OF this] show ?thesis
    by (simp add: tx_stream_def tx_sent_def UART_pl011_register_index_def printed_def UART_pl011_new_def
        UART_pl011_Reset_def memmap_device.defs uart_Reset_def uart_queue_Reset_def queue_chars_def)
qed

definition rx_chars :: "UART_pl011 \<Rightarrow> u8 list" where
  "rx_chars u = queue_chars (receive_queue (uart_base u))"

definition polled_char :: "console \<Rightarrow> u8 list" where
  "polled_char con = (case fst (input_poll con) of None \<Rightarrow> []
     | Some c \<Rightarrow> if (word_of_int c :: u8) = 0 then [] else [word_of_int c])"

lemma bit_flag_bit: "bit (flag_bit b n) k \<longleftrightarrow> b \<and> k = n \<and> k < 32"
  by (cases b) (auto simp: flag_bit_def bit_simps)

text \<open>
  Receive side: a service round with room in the receive queue appends the character the
  terminal delivers, unless it is a null character, and a full queue raises the overrun flag
  instead and leaves the terminal untouched; a data register read returns the oldest character
  received and removes it, or 0 when there is none; the flag register shows empty and full of both queues.
\<close>

theorem pl011_receive:
  assumes "pl011_inv u"
  shows "rx_chars (fst (Receive u con)) =
      (if Receive_full (uart_base u) then rx_chars u else rx_chars u @ polled_char con) \<and>
    overrun_interrupt_set (fst (Receive u con)) = Receive_full (uart_base u) \<and>
    (Receive_full (uart_base u) \<longrightarrow> snd (Receive u con) = con) \<and>
    UART_pl011_Read32 0 u =
      (case rx_chars u of [] \<Rightarrow> ((0, 0), u)
       | c # cs \<Rightarrow> ((0, ucast c), u\<lparr>uart_base := snd (uart_GetChar 0 (uart_base u))\<rparr>)) \<and>
    rx_chars (snd (UART_pl011_Read32 0 u)) = tl (rx_chars u) \<and>
    (let v = snd (fst (UART_pl011_Read32 0x18 u))
     in bit v 4 = (rx_chars u = []) \<and> bit v 5 = Transmit_full (uart_base u) \<and>
        bit v 6 = Receive_full (uart_base u) \<and> bit v 7 = Transmit_empty (uart_base u))"
proof (intro conjI)
  let ?q = "receive_queue (uart_base u)"
  have wf: "wf_queue ?q" using assms by (simp add: pl011_inv_def wf_uart_def)
  have ov: "UARTRIS (SetOverrun b u) AND 0x400 \<noteq> 0 \<longleftrightarrow> b" for b
  proof -
    have "(w OR 0x400) AND 0x400 = (0x400 :: u32)" "(w AND NOT 0x400) AND 0x400 = (0 :: u32)" for w
      by (auto intro!: bit_word_eqI simp: bit_simps)
    then show ?thesis by (simp add: SetOverrun_def)
  qed
  have base: "uart_base (SetOverrun b u) = uart_base u" for b
    by (simp add: SetOverrun_def)
  show "rx_chars (fst (Receive u con)) =
      (if Receive_full (uart_base u) then rx_chars u else rx_chars u @ polled_char con)"
    by (auto simp: Receive_def rx_chars_def Receive_full_def base polled_char_def SetReceiveInterrupt_def
        Let_def case_prod_unfold queue_put_room split: option.split)
  show "overrun_interrupt_set (fst (Receive u con)) = Receive_full (uart_base u)"
    using ov [of True] ov [of False]
    by (auto simp: Receive_def Receive_full_def overrun_interrupt_set_def SetReceiveInterrupt_def Let_def case_prod_unfold)
  show "Receive_full (uart_base u) \<longrightarrow> snd (Receive u con) = con"
    by (simp add: Receive_def Receive_full_def)
  have get: "queue_chars ?q = c # cs \<Longrightarrow> snd (fst (queue_GetChar 0 ?q)) = ucast c \<and> \<not> Empty ?q" for c cs
    by (auto simp: queue_defs split: if_splits list.splits)
  have none: "queue_chars ?q = [] \<longleftrightarrow> Empty ?q"
    by (auto simp: queue_defs)
  show rd: "UART_pl011_Read32 0 u =
      (case rx_chars u of [] \<Rightarrow> ((0, 0), u)
       | c # cs \<Rightarrow> ((0, ucast c), u\<lparr>uart_base := snd (uart_GetChar 0 (uart_base u))\<rparr>))"
    using get none by (auto simp: UART_pl011_Read32_def UART_pl011_register_index_def rx_chars_def
        Receive_empty_def uart_GetChar_def case_prod_unfold split: list.split)
  have "queue_chars (snd (queue_GetChar 0 ?q)) = tl (queue_chars ?q)"
    by (auto simp: queue_defs split: list.splits)
  then show "rx_chars (snd (UART_pl011_Read32 0 u)) = tl (rx_chars u)"
    by (simp add: rd) (simp add: rx_chars_def split: list.split)
  show "let v = snd (fst (UART_pl011_Read32 0x18 u))
     in bit v 4 = (rx_chars u = []) \<and> bit v 5 = Transmit_full (uart_base u) \<and>
        bit v 6 = Receive_full (uart_base u) \<and> bit v 7 = Transmit_empty (uart_base u)"
    using none by (simp add: UART_pl011_Read32_def UART_pl011_register_index_def UpdateStatus_def Let_def
        bit_or_iff bit_flag_bit rx_chars_def Receive_empty_def)
qed

theorem pl011_receive_witness:
  "rx_chars (fst (Receive UART_pl011_new \<lparr>stdin_polls = [Some 0x61], console_out = []\<rparr>)) = [0x61]"
proof -
  have "pl011_inv UART_pl011_new" by (simp add: UART_pl011_new_def pl011_inv_Reset)
  from conjunct1 [OF pl011_receive [OF this, of "\<lparr>stdin_polls = [Some 0x61], console_out = []\<rparr>"]]
  show ?thesis
    by (simp add: UART_pl011_new_def UART_pl011_Reset_def memmap_device.defs uart_Reset_def uart_queue_Reset_def
        rx_chars_def queue_chars_def Receive_full_def Full_def FIFO_enabled_def holding_register_full_def
        polled_char_def input_poll_def)
qed

text \<open>
  Registers that do not do what their comments say: a write to the interrupt clear register stores
  the written bits as raw interrupts instead of clearing them, so clearing an idle uart raises the
  receive, transmit and overrun interrupts; the baud rate registers read as their own offsets.
\<close>

theorem pl011_clear_raises:
  assumes "UARTIMSC u = 0"
  shows "UART_pl011_InterruptPending (snd (UART_pl011_Write32 0x44 0x7ff u)) = (True, 7) \<and>
    snd (fst (UART_pl011_Read32 0x24 (snd (UART_pl011_Write32 0x24 v u)))) = 0x24 \<and>
    snd (fst (UART_pl011_Read32 0x28 (snd (UART_pl011_Write32 0x28 v u)))) = 0x28"
  using assms
  by (simp add: UART_pl011_Write32_def UART_pl011_Read32_def UART_pl011_register_index_def
      UART_pl011_InterruptPending_def overrun_interrupts_enabled_def overrun_interrupt_set_def
      transmit_interrupts_enabled_def transmit_interrupt_set_def receive_interrupts_enabled_def receive_interrupt_set_def)

theorem pl011_clear_raises_witness:
  "fst (UART_pl011_InterruptPending (snd (UART_pl011_Write32 0x44 0x7ff UART_pl011_new)))"
proof -
  have "UARTIMSC UART_pl011_new = 0" by (simp add: UART_pl011_new_def UART_pl011_Reset_def memmap_device.defs)
  from pl011_clear_raises [OF this, of 0] show ?thesis by simp
qed

end
