(* ===== verification/Memory_Sys.thy ===== *)
theory Memory_Sys
  imports State_Base Timer Uart_PL011
begin

text \<open>
  The memory system, \<open>include/memory.h\<close> and \<open>src/memory.C\<close>: range checks, the dispatch between
  memory-mapped devices and the block store, byte order, the exclusive monitors and the block lists
  used when a test is saved. The simulator's devices, to which the memory holds pointers, are in the
  \<open>platform\<close> record beside it. Code under \<open>NO_MIXED_ACCESSES\<close> and the debug prints are not compiled.
\<close>

unbundle bit_operations_syntax

section \<open>State\<close>

datatype device_ref = Uart1Ref | TimerRef

record Memory =
  size_in_bits :: nat
  host_endianness :: bool
  global_monitor :: exclMonitor
  phys_mem :: PhysicalMemory
  block_size :: int
  instr_blocks :: "u64 list"
  data_blocks :: "u64 list"
  physical_address_lo :: u64
  physical_address_hi :: u64
  devices :: "device_ref list"

record platform =
  memory :: Memory
  mtimer :: MachineTimer
  uart1 :: UART_pl011

text \<open>\<open>size_in_bits\<close> is indeterminate until \<open>SetPhysicalSize\<close>; its first value is an argument.\<close>

definition Memory_new :: "nat \<Rightarrow> bool \<Rightarrow> host_env \<Rightarrow> Memory" where
  "Memory_new bits host_big h = \<lparr>size_in_bits = bits, host_endianness = host_big,
     global_monitor = exclMonitor_new, phys_mem = PhysicalMemory_new h, block_size = PM_BLOCK_SIZE,
     instr_blocks = [], data_blocks = [], physical_address_lo = 0, physical_address_hi = 0xffffffff,
     devices = []\<rparr>"

definition SetPhysicalSize :: "nat \<Rightarrow> Memory \<Rightarrow> Memory" where
  "SetPhysicalSize bits m = m\<lparr>size_in_bits := bits\<rparr>"

definition pa_mask :: "Memory \<Rightarrow> u64" where
  "pa_mask m = push_bit (size_in_bits m) 1 - 1"

definition SetPhysicalAddressRange :: "u64 \<Rightarrow> u64 \<Rightarrow> Memory \<Rightarrow> Memory" where
  "SetPhysicalAddressRange lo hi m = m\<lparr>physical_address_lo := lo, physical_address_hi := hi\<rparr>"

text \<open>The range, when one is set.\<close>

definition PhysicalAddressRange :: "Memory \<Rightarrow> (u64 \<times> u64) option" where
  "PhysicalAddressRange m =
     (if physical_address_hi m \<noteq> physical_address_lo m
      then Some (physical_address_lo m, physical_address_hi m) else None)"

definition AddDevice :: "device_ref \<Rightarrow> Memory \<Rightarrow> Memory" where
  "AddDevice d m = m\<lparr>devices := devices m @ [d]\<rparr>"

definition set_phys_mem :: "PhysicalMemory \<Rightarrow> platform \<Rightarrow> platform" where
  "set_phys_mem pm p = p\<lparr>memory := (memory p)\<lparr>phys_mem := pm\<rparr>\<rparr>"

section \<open>Devices\<close>

text \<open>The virtual calls through a device pointer.\<close>

definition dev_hit :: "u64 \<Rightarrow> platform \<Rightarrow> device_ref \<Rightarrow> bool" where
  "dev_hit address p d = (case d of
      Uart1Ref \<Rightarrow> IsImplemented (uart1 p) \<and> InRange address (uart1 p)
    | TimerRef \<Rightarrow> IsImplemented (mtimer p) \<and> InRange address (mtimer p))"

definition dev_IsMapped :: "u64 \<Rightarrow> device_ref \<Rightarrow> bool" where
  "dev_IsMapped address d = (case d of
      Uart1Ref \<Rightarrow> IsMapped UART_pl011_register_index address
    | TimerRef \<Rightarrow> IsMapped MachineTimer_register_index address)"

definition dev_Write :: "device_ref \<Rightarrow> u64 \<Rightarrow> buffer \<Rightarrow> int \<Rightarrow> platform \<Rightarrow> int \<times> platform" where
  "dev_Write d address buf n p = (case d of
      Uart1Ref \<Rightarrow> (case UART_pl011_Write (host_endianness (memory p)) address buf n (uart1 p) of
                    (rcode, u) \<Rightarrow> (rcode, p\<lparr>uart1 := u\<rparr>))
    | TimerRef \<Rightarrow> (case MachineTimer_Write (host_endianness (memory p)) address buf n (mtimer p) of
                    (rcode, t) \<Rightarrow> (rcode, p\<lparr>mtimer := t\<rparr>)))"

definition dev_Read :: "device_ref \<Rightarrow> u64 \<Rightarrow> buffer \<Rightarrow> int \<Rightarrow> platform \<Rightarrow> (int \<times> buffer) \<times> platform" where
  "dev_Read d address buf n p = (case d of
      Uart1Ref \<Rightarrow> (case UART_pl011_Read (host_endianness (memory p)) address buf n (uart1 p) of
                    (r, u) \<Rightarrow> (r, p\<lparr>uart1 := u\<rparr>))
    | TimerRef \<Rightarrow> (case MachineTimer_Read (host_endianness (memory p)) address buf n (mtimer p) of
                    (r, t) \<Rightarrow> (r, p\<lparr>mtimer := t\<rparr>)))"

text \<open>
  The first implemented device whose range holds the address takes the access; \<open>None\<close> says that
  none does. A device has the byte order of the host, so the branch for a mismatch is dead.
\<close>

definition WriteDeviceMemory :: "u64 \<Rightarrow> int \<Rightarrow> buffer \<Rightarrow> bool \<Rightarrow> platform \<Rightarrow> int option \<times> platform" where
  "WriteDeviceMemory address n buf for_test p =
     (case find (dev_hit address p) (devices (memory p)) of
        None \<Rightarrow> (None, p)
      | Some d \<Rightarrow>
          if for_test then (Some (-1), p)
          else if dev_IsMapped address d
               then (case dev_Write d address buf n p of (rcode, p') \<Rightarrow> (Some rcode, p'))
               else (Some (-1), p))"

definition ReadDeviceMemory ::
    "u64 \<Rightarrow> int \<Rightarrow> buffer \<Rightarrow> bool \<Rightarrow> platform \<Rightarrow> (int \<times> buffer) option \<times> platform" where
  "ReadDeviceMemory address n buf for_test p =
     (case find (dev_hit address p) (devices (memory p)) of
        None \<Rightarrow> (None, p)
      | Some d \<Rightarrow>
          if for_test then (Some (-1, buf), p)
          else if dev_IsMapped address d
               then (case dev_Read d address buf n p of (r, p') \<Rightarrow> (Some r, p'))
               else (Some (-1, buf), p))"

section \<open>Physical accesses\<close>

definition ValidatePhysicalMemoryAddress :: "u64 \<Rightarrow> bool \<Rightarrow> Memory \<Rightarrow> sim_throw + u64" where
  "ValidatePhysicalMemoryAddress address for_test m =
     (if address AND pa_mask m \<noteq> address \<and> for_test then Inl (SimExc GENERATION_ERROR)
      else
        let address = address AND pa_mask m
        in case PhysicalAddressRange m of
             None \<Rightarrow> Inr address
           | Some (pa_lo, pa_hi) \<Rightarrow>
               if pa_lo \<le> address \<and> address \<le> pa_hi then Inr address
               else Inl (SimExc GENERATION_ERROR))"

definition WritePhysicalMemory ::
    "u64 \<Rightarrow> int \<Rightarrow> buffer \<Rightarrow> bool \<Rightarrow> bool \<Rightarrow> platform \<Rightarrow> (sim_throw + int) \<times> platform" where
  "WritePhysicalMemory address_in n buf for_test initial_values p =
     (case ValidatePhysicalMemoryAddress address_in for_test (memory p) of
        Inl e \<Rightarrow> (Inl e, p)
      | Inr address \<Rightarrow>
          (case ValidatePhysicalMemoryAddress (address + word_of_int n - 1) for_test (memory p) of
             Inl e \<Rightarrow> (Inl e, p)
           | Inr _ \<Rightarrow>
               (case WriteDeviceMemory address n buf for_test p of
                  (Some rcode, p1) \<Rightarrow> (Inr rcode, p1)
                | (None, p1) \<Rightarrow>
                    (case PhysicalMemory_Write address buf n initial_values (phys_mem (memory p1)) of
                       (Inl e, pm) \<Rightarrow> (Inl (MBlockExc e), set_phys_mem pm p1)
                     | (Inr rcode, pm) \<Rightarrow> (Inr rcode, set_phys_mem pm p1)))))"

definition ReadPhysicalMemory ::
    "u64 \<Rightarrow> int \<Rightarrow> buffer \<Rightarrow> bool \<Rightarrow> bool \<Rightarrow> platform \<Rightarrow> (sim_throw + int \<times> buffer) \<times> platform" where
  "ReadPhysicalMemory address_in n buf for_test init_if_free p =
     (case ValidatePhysicalMemoryAddress address_in for_test (memory p) of
        Inl e \<Rightarrow> (Inl e, p)
      | Inr address \<Rightarrow>
          (case ValidatePhysicalMemoryAddress (address + word_of_int n - 1) for_test (memory p) of
             Inl e \<Rightarrow> (Inl e, p)
           | Inr _ \<Rightarrow>
               (case ReadDeviceMemory address n buf for_test p of
                  (Some r, p1) \<Rightarrow> (Inr r, p1)
                | (None, p1) \<Rightarrow>
                    (case PhysicalMemory_Read address init_if_free n (phys_mem (memory p1)) of
                       (Inl e, pm) \<Rightarrow> (Inl (MBlockExc e), set_phys_mem pm p1)
                     | (Inr (rcode, out), pm) \<Rightarrow> (Inr (rcode, put_bytes 0 out buf), set_phys_mem pm p1)))))"

section \<open>Regions\<close>

definition insert_absent :: "'a \<Rightarrow> 'a list \<Rightarrow> 'a list" where
  "insert_absent x xs = (if x \<in> set xs then xs else xs @ [x])"

definition LogRegionAccess :: "u64 \<Rightarrow> bool \<Rightarrow> Memory \<Rightarrow> Memory" where
  "LogRegionAccess address is_data m =
     (let block_mask = NOT (word_of_int (block_size m - 1)); block_address = address AND block_mask
      in if is_data then m\<lparr>data_blocks := insert_absent block_address (data_blocks m)\<rparr>
         else m\<lparr>instr_blocks := insert_absent block_address (instr_blocks m)\<rparr>)"

text \<open>Instructions and data are not kept apart in this build: every access counts as data and is valid.\<close>

definition AccessType_is_data :: "u64 \<Rightarrow> bool" where
  "AccessType_is_data address = True"

definition InvalidRegionAccess :: "u64 \<Rightarrow> bool \<Rightarrow> int" where
  "InvalidRegionAccess address is_data = 0"

definition log_both :: "u64 \<Rightarrow> u64 \<Rightarrow> bool \<Rightarrow> platform \<Rightarrow> platform" where
  "log_both startPA endPA is_data p =
     p\<lparr>memory := LogRegionAccess endPA is_data (LogRegionAccess startPA is_data (memory p))\<rparr>"

definition RegionRead ::
    "u64 \<Rightarrow> bool \<Rightarrow> int \<Rightarrow> buffer \<Rightarrow> bool \<Rightarrow> bool \<Rightarrow> platform \<Rightarrow> (sim_throw + int \<times> buffer) \<times> platform" where
  "RegionRead startPA is_data byte_count buf for_test init_if_free p =
     (let endPA = startPA + word_of_int byte_count - 1
      in if for_test \<and> InvalidRegionAccess startPA is_data \<noteq> 0 then (Inl (SimExc GENERATION_ERROR), p)
         else if for_test \<and> InvalidRegionAccess endPA is_data \<noteq> 0 then (Inl (SimExc GENERATION_ERROR), p)
         else ReadPhysicalMemory startPA byte_count buf for_test init_if_free (log_both startPA endPA is_data p))"

definition RegionWrite ::
    "u64 \<Rightarrow> bool \<Rightarrow> int \<Rightarrow> buffer \<Rightarrow> bool \<Rightarrow> platform \<Rightarrow> (sim_throw + int) \<times> platform" where
  "RegionWrite startPA is_data byte_count buf for_test p =
     (let endPA = startPA + word_of_int byte_count - 1
      in if for_test \<and> InvalidRegionAccess startPA is_data \<noteq> 0 then (Inl (SimExc GENERATION_ERROR), p)
         else if for_test \<and> InvalidRegionAccess endPA is_data \<noteq> 0 then (Inl (SimExc GENERATION_ERROR), p)
         else WritePhysicalMemory startPA byte_count buf for_test False (log_both startPA endPA is_data p))"

section \<open>Logical accesses\<close>

text \<open>
  One block, with a second part when a page is crossed. A simulator exception of either part is kept
  until after the critical section and thrown then, unless it has the value of \<open>NO_SIM_EXCEPTION\<close>.
  An error of the block store is not caught.
\<close>

definition rethrow :: "SIM_EXCEPTIONS \<Rightarrow> 'r \<Rightarrow> platform \<Rightarrow> (sim_throw + 'r) \<times> platform" where
  "rethrow exc r p = (if exc \<noteq> NO_SIM_EXCEPTION then (Inl (SimExc exc), p) else (Inr r, p))"

definition ReadMemoryBlock ::
    "'a State_scheme \<Rightarrow> u64 \<Rightarrow> bool \<Rightarrow> bool \<Rightarrow> int \<Rightarrow> bool \<Rightarrow> buffer \<Rightarrow> bool \<Rightarrow> bool \<Rightarrow> platform
      \<Rightarrow> (sim_throw + int \<times> buffer) \<times> platform" where
  "ReadMemoryBlock cpu LA is_data privileged n is_aligned buf for_test init_if_free p =
     (let NS = (\<not> is_secure cpu);
          tr = LA2PA cpu LA NS privileged is_data is_aligned n False;
          spill_byte_count = PageCrossed n tr;
          byte_count = n - spill_byte_count;
          second = (\<lambda>exc rcode buf1 p1.
            if 0 < spill_byte_count then
              let tr2 = LA2PA cpu (LA + word_of_int byte_count) NS privileged is_data False spill_byte_count False
              in case RegionRead (tr_pa tr2) is_data spill_byte_count (drop (nat byte_count) buf1) for_test init_if_free p1 of
                   (Inl (SimExc e), p2) \<Rightarrow> rethrow e (if 0 = rcode then rcode else SOME_BYTES_UNDEFINED, buf1) p2
                 | (Inl e, p2) \<Rightarrow> (Inl e, p2)
                 | (Inr (rcode2, buf2), p2) \<Rightarrow>
                     rethrow exc (if rcode2 = rcode then rcode else SOME_BYTES_UNDEFINED, take (nat byte_count) buf1 @ buf2) p2
            else rethrow exc (rcode, buf1) p1)
      in case RegionRead (tr_pa tr) is_data byte_count buf for_test init_if_free p of
           (Inl (SimExc e), p1) \<Rightarrow> second e 0 buf p1
         | (Inl e, p1) \<Rightarrow> (Inl e, p1)
         | (Inr (rcode, buf1), p1) \<Rightarrow> second NO_SIM_EXCEPTION rcode buf1 p1)"

definition WriteMemoryBlock ::
    "'a State_scheme \<Rightarrow> u64 \<Rightarrow> bool \<Rightarrow> bool \<Rightarrow> int \<Rightarrow> bool \<Rightarrow> buffer \<Rightarrow> bool \<Rightarrow> platform
      \<Rightarrow> (sim_throw + int) \<times> platform" where
  "WriteMemoryBlock cpu LA is_data privileged n is_aligned buf for_test p =
     (let NS = (\<not> is_secure cpu);
          tr = LA2PA cpu LA NS privileged is_data is_aligned n True;
          spill_byte_count = PageCrossed n tr;
          byte_count = n - spill_byte_count;
          second = (\<lambda>exc rcode p1.
            if 0 < spill_byte_count then
              let tr2 = LA2PA cpu (LA + word_of_int byte_count) NS privileged is_data False spill_byte_count True
              in case RegionWrite (tr_pa tr2) is_data spill_byte_count (drop (nat byte_count) buf) for_test p1 of
                   (Inl (SimExc e), p2) \<Rightarrow> rethrow e (if 0 = rcode then rcode else SOME_BYTES_UNDEFINED) p2
                 | (Inl e, p2) \<Rightarrow> (Inl e, p2)
                 | (Inr rcode2, p2) \<Rightarrow> rethrow exc (if rcode2 = rcode then rcode else SOME_BYTES_UNDEFINED) p2
            else rethrow exc rcode p1)
      in case RegionWrite (tr_pa tr) is_data byte_count buf for_test p of
           (Inl (SimExc e), p1) \<Rightarrow> second e 0 p1
         | (Inl e, p1) \<Rightarrow> (Inl e, p1)
         | (Inr rcode, p1) \<Rightarrow> second NO_SIM_EXCEPTION rcode p1)"

text \<open>
  Any number of bytes: whole blocks while the return code is 0, then the rest. \<open>off\<close> is the
  \<open>block_offset\<close> of the loop, \<open>k\<close> the number of turns left.
\<close>

fun read_blocks ::
    "nat \<Rightarrow> nat \<Rightarrow> 'a State_scheme \<Rightarrow> u64 \<Rightarrow> bool \<Rightarrow> bool \<Rightarrow> bool \<Rightarrow> buffer \<Rightarrow> bool \<Rightarrow> bool \<Rightarrow> platform
      \<Rightarrow> (sim_throw + int \<times> nat \<times> buffer) \<times> platform" where
  "read_blocks 0 off cpu LA is_data privileged is_aligned buf for_test init_if_free p = (Inr (0, off, buf), p)"
| "read_blocks (Suc k) off cpu LA is_data privileged is_aligned buf for_test init_if_free p =
     (case ReadMemoryBlock cpu (LA + of_nat off) is_data privileged PM_BLOCK_SIZE is_aligned (drop off buf)
             for_test init_if_free p of
        (Inl e, p1) \<Rightarrow> (Inl e, p1)
      | (Inr (rcode, sub), p1) \<Rightarrow>
          if rcode \<noteq> 0 then (Inr (rcode, off + 32, take off buf @ sub), p1)
          else read_blocks k (off + 32) cpu LA is_data privileged is_aligned (take off buf @ sub) for_test init_if_free p1)"

definition ReadMemory ::
    "'a State_scheme \<Rightarrow> u64 \<Rightarrow> bool \<Rightarrow> bool \<Rightarrow> int \<Rightarrow> bool \<Rightarrow> buffer \<Rightarrow> bool \<Rightarrow> bool \<Rightarrow> platform
      \<Rightarrow> (sim_throw + int \<times> buffer) \<times> platform" where
  "ReadMemory cpu LA is_data privileged n is_aligned buf for_test init_if_free p =
     (if \<not> is_data \<and> \<not> is_aligned then (Inl (SimExc INTERNAL_ERROR), p)
      else if n \<le> PM_BLOCK_SIZE
      then ReadMemoryBlock cpu LA is_data privileged n is_aligned buf for_test init_if_free p
      else
        let num_blocks = nat (n div PM_BLOCK_SIZE); extra_bytes = n mod PM_BLOCK_SIZE
        in case read_blocks num_blocks 0 cpu LA is_data privileged is_aligned buf for_test init_if_free p of
             (Inl e, p1) \<Rightarrow> (Inl e, p1)
           | (Inr (rcode, off, buf1), p1) \<Rightarrow>
               if 0 < extra_bytes \<and> rcode = 0
               then (case ReadMemoryBlock cpu (LA + of_nat off) is_data privileged extra_bytes is_aligned
                            (drop off buf1) for_test init_if_free p1 of
                       (Inl e, p2) \<Rightarrow> (Inl e, p2)
                     | (Inr (rcode2, sub), p2) \<Rightarrow> (Inr (rcode2, take off buf1 @ sub), p2))
               else (Inr (rcode, buf1), p1))"

fun write_blocks ::
    "nat \<Rightarrow> nat \<Rightarrow> 'a State_scheme \<Rightarrow> u64 \<Rightarrow> bool \<Rightarrow> bool \<Rightarrow> bool \<Rightarrow> buffer \<Rightarrow> bool \<Rightarrow> platform
      \<Rightarrow> (sim_throw + int \<times> nat) \<times> platform" where
  "write_blocks 0 off cpu LA is_data privileged is_aligned buf for_test p = (Inr (0, off), p)"
| "write_blocks (Suc k) off cpu LA is_data privileged is_aligned buf for_test p =
     (case WriteMemoryBlock cpu (LA + of_nat off) is_data privileged PM_BLOCK_SIZE is_aligned (drop off buf) for_test p of
        (Inl e, p1) \<Rightarrow> (Inl e, p1)
      | (Inr rcode, p1) \<Rightarrow>
          if rcode \<noteq> 0 then (Inr (rcode, off + 32), p1)
          else write_blocks k (off + 32) cpu LA is_data privileged is_aligned buf for_test p1)"

definition WriteMemory ::
    "'a State_scheme \<Rightarrow> u64 \<Rightarrow> bool \<Rightarrow> bool \<Rightarrow> int \<Rightarrow> bool \<Rightarrow> buffer \<Rightarrow> bool \<Rightarrow> platform
      \<Rightarrow> (sim_throw + int) \<times> platform" where
  "WriteMemory cpu LA is_data privileged n is_aligned buf for_test p =
     (if \<not> is_data \<and> \<not> is_aligned then (Inl (SimExc INTERNAL_ERROR), p)
      else if n \<le> PM_BLOCK_SIZE
      then WriteMemoryBlock cpu LA is_data privileged n is_aligned buf for_test p
      else
        let num_blocks = nat (n div PM_BLOCK_SIZE); extra_bytes = n mod PM_BLOCK_SIZE
        in case write_blocks num_blocks 0 cpu LA is_data privileged is_aligned buf for_test p of
             (Inl e, p1) \<Rightarrow> (Inl e, p1)
           | (Inr (rcode, off), p1) \<Rightarrow>
               if 0 < extra_bytes \<and> rcode = 0
               then WriteMemoryBlock cpu (LA + of_nat off) is_data privileged extra_bytes is_aligned (drop off buf) for_test p1
               else (Inr rcode, p1))"

section \<open>Byte order\<close>

text \<open>
  The copy loop, index by index. \<open>ApplyEndianness\<close> is the call with two buffers, \<open>ApplyEndianness_in_place\<close>
  the call with the same buffer as source and destination, where later turns read what earlier turns stored.
\<close>

definition endian_source :: "bool \<Rightarrow> nat \<Rightarrow> nat \<Rightarrow> nat" where
  "endian_source same_order access_size k =
     (let word_index = (k div access_size) * access_size; j = k mod access_size
      in if same_order then word_index + j else word_index + (access_size - 1) - j)"

definition ApplyEndianness :: "bool \<Rightarrow> buffer \<Rightarrow> buffer \<Rightarrow> bool \<Rightarrow> nat \<Rightarrow> nat \<Rightarrow> buffer" where
  "ApplyEndianness host dest src src_dest_endianness access_size total_bytes =
     foldl (\<lambda>d k. d[k := src ! endian_source (host = src_dest_endianness) access_size k]) dest
       [0..<(total_bytes div access_size) * access_size]"

definition ApplyEndianness_in_place :: "bool \<Rightarrow> buffer \<Rightarrow> bool \<Rightarrow> nat \<Rightarrow> nat \<Rightarrow> buffer" where
  "ApplyEndianness_in_place host buf src_dest_endianness access_size total_bytes =
     foldl (\<lambda>d k. d[k := d ! endian_source (host = src_dest_endianness) access_size k]) buf
       [0..<(total_bytes div access_size) * access_size]"

section \<open>Exclusive monitors\<close>

definition ClearExclusiveMonitor :: "'a State_scheme \<Rightarrow> 'a State_scheme" where
  "ClearExclusiveMonitor cpu = cpu\<lparr>local_monitor := exclMonitor_Clear (local_monitor cpu)\<rparr>"

definition AccessGlobalMonitor :: "Translation \<Rightarrow> bool" where
  "AccessGlobalMonitor tr =
     (if MMU_Enabled then MMU_Enabled \<and> MMU_Cacheable True \<and> Shareable tr \<and> Translation_Cacheable tr
      else Shareable tr)"

definition SetExclusiveMonitor ::
    "u64 \<Rightarrow> int \<Rightarrow> bool \<Rightarrow> 'a State_scheme \<times> Memory \<Rightarrow> 'a State_scheme \<times> Memory" where
  "SetExclusiveMonitor logical_address num_bytes privileged s =
     (let (cpu, m) = s;
          tr = LA2PA cpu logical_address (\<not> is_secure cpu) privileged True True num_bytes False;
          cid = uint (st_id cpu);
          m' = (if AccessGlobalMonitor tr
                then m\<lparr>global_monitor := exclMonitor_Set logical_address (tr_pa tr) num_bytes cid (global_monitor m)\<rparr>
                else m)
      in (cpu\<lparr>local_monitor := exclMonitor_Set logical_address (tr_pa tr) num_bytes cid (local_monitor cpu)\<rparr>, m'))"

definition Memory_IsExclusive :: "u64 \<Rightarrow> int \<Rightarrow> bool \<Rightarrow> 'a State_scheme \<times> Memory \<Rightarrow> bool" where
  "Memory_IsExclusive logical_address num_bytes privileged s =
     (let (cpu, m) = s;
          tr = LA2PA cpu logical_address (\<not> is_secure cpu) privileged True True num_bytes False
      in if AccessGlobalMonitor tr
         then exclMonitor_IsExclusive logical_address (tr_pa tr) num_bytes (uint (st_id cpu)) (global_monitor m)
         else exclMonitor_IsExclusive logical_address (tr_pa tr) num_bytes (uint (st_id cpu)) (local_monitor cpu))"

definition ExclusiveMonitorsPass ::
    "u64 \<Rightarrow> int \<Rightarrow> bool \<Rightarrow> bool \<Rightarrow> bool \<Rightarrow> 'a State_scheme \<times> Memory \<Rightarrow> (sim_throw + bool) \<times> 'a State_scheme \<times> Memory" where
  "ExclusiveMonitorsPass logical_address num_bytes is_aligned privileged for_test s =
     (let (cpu, m) = s;
          tr = LA2PA cpu logical_address (\<not> is_secure cpu) privileged True is_aligned num_bytes False
      in case ValidatePhysicalMemoryAddress (tr_pa tr) for_test m of
           Inl e \<Rightarrow> (Inl e, cpu, m)
         | Inr _ \<Rightarrow>
             if AccessGlobalMonitor tr
             then if exclMonitor_IsExclusive logical_address (tr_pa tr) num_bytes (uint (st_id cpu)) (global_monitor m)
                  then (Inr True, cpu\<lparr>local_monitor := exclMonitor_Clear (local_monitor cpu)\<rparr>, m)
                  else (Inr False, cpu, m)
             else (Inr (exclMonitor_IsExclusive logical_address (tr_pa tr) num_bytes (uint (st_id cpu)) (local_monitor cpu)),
                   cpu, m))"

section \<open>Block lists\<close>

definition TestBlockAddresses :: "u64 list \<Rightarrow> Memory \<Rightarrow> u64 list" where
  "TestBlockAddresses test_block_addresses m = sort (test_block_addresses @ AddressList True (phys_mem m))"

fun file_block_loop :: "u64 list \<Rightarrow> u64 \<Rightarrow> u64 list \<Rightarrow> u64 list \<Rightarrow> u64 list" where
  "file_block_loop [] address_mask seen file_block_addresses = file_block_addresses"
| "file_block_loop (a # as) address_mask seen file_block_addresses =
     (let block_address = a AND address_mask
      in if block_address \<in> set seen then file_block_loop as address_mask seen file_block_addresses
         else file_block_loop as address_mask (block_address # seen) (file_block_addresses @ [block_address]))"

definition SetFileBlockAddresses :: "u64 list \<Rightarrow> u64 list \<Rightarrow> u64 \<Rightarrow> u64 list" where
  "SetFileBlockAddresses file_block_addresses test_block_addresses address_mask =
     file_block_loop test_block_addresses address_mask [] file_block_addresses"

definition Memory_ReadInitialState :: "u64 \<Rightarrow> bool \<Rightarrow> Memory \<Rightarrow> (sim_throw + buffer) \<times> Memory" where
  "Memory_ReadInitialState section_address is_data m =
     (case PhysicalMemory_ReadInitialState section_address is_data (phys_mem m) of
        (Inl e, pm) \<Rightarrow> (Inl (MBlockExc e), m\<lparr>phys_mem := pm\<rparr>)
      | (Inr out, pm) \<Rightarrow> (Inr out, m\<lparr>phys_mem := pm\<rparr>))"

section \<open>Accesses to ordinary memory\<close>

text \<open>The bytes in use and the delivered values of the platform's memory.\<close>

definition mem_byte :: "platform \<Rightarrow> u64 \<Rightarrow> u8 option" where
  "mem_byte p = pm_byte (phys_mem (memory p))"

definition mem_view :: "platform \<Rightarrow> u64 \<Rightarrow> u8 option" where
  "mem_view p = pm_view (phys_mem (memory p))"

lemma mem_view_byte: "mem_byte p a = Some v \<Longrightarrow> mem_view p a = Some v"
  by (simp add: mem_byte_def mem_view_def pm_view_byte)

definition wf_mem :: "platform \<Rightarrow> bool" where
  "wf_mem p \<longleftrightarrow> wf_pm (phys_mem (memory p)) \<and> size_in_bits (memory p) < 64 \<and> block_size (memory p) = 32"

text \<open>A span of ordinary memory: inside the physical memory and the address range, and free of devices.\<close>

definition ram_span :: "platform \<Rightarrow> u64 \<Rightarrow> nat \<Rightarrow> bool" where
  "ram_span p a n \<longleftrightarrow> 0 < n \<and> unat a + n \<le> 2 ^ size_in_bits (memory p) \<and>
     (case PhysicalAddressRange (memory p) of None \<Rightarrow> True
      | Some (lo, hi) \<Rightarrow> unat lo \<le> unat a \<and> unat a + n \<le> unat hi + 1) \<and>
     list_all (\<lambda>d. \<forall>i<n. \<not> dev_hit (a + of_nat i) p d) (devices (memory p))"

text \<open>A memory access changes the store and the block logs, nothing else of the platform.\<close>

definition same_setup :: "platform \<Rightarrow> platform \<Rightarrow> bool" where
  "same_setup p p' \<longleftrightarrow> p' = p\<lparr>memory := (memory p)\<lparr>phys_mem := phys_mem (memory p'),
     instr_blocks := instr_blocks (memory p'), data_blocks := data_blocks (memory p')\<rparr>\<rparr>"

lemma same_setup_refl [simp]: "same_setup p p"
  by (simp add: same_setup_def)

lemma same_setup_fields:
  assumes "same_setup p p'"
  shows "size_in_bits (memory p') = size_in_bits (memory p)" "block_size (memory p') = block_size (memory p)"
    "devices (memory p') = devices (memory p)" "PhysicalAddressRange (memory p') = PhysicalAddressRange (memory p)"
    "dev_hit a p' = dev_hit a p" "host_endianness (memory p') = host_endianness (memory p)"
    "uart1 p' = uart1 p" "mtimer p' = mtimer p" "global_monitor (memory p') = global_monitor (memory p)"
  by (subst assms [unfolded same_setup_def],
      simp add: PhysicalAddressRange_def dev_hit_def fun_eq_iff split: device_ref.split)+

lemma same_setup_trans:
  assumes "same_setup p p'" "same_setup p' p''"
  shows "same_setup p p''"
proof -
  have "p'' = p'\<lparr>memory := (memory p')\<lparr>phys_mem := phys_mem (memory p''),
     instr_blocks := instr_blocks (memory p''), data_blocks := data_blocks (memory p'')\<rparr>\<rparr>"
    using assms(2) by (simp only: same_setup_def)
  also have "\<dots> = p\<lparr>memory := (memory p)\<lparr>phys_mem := phys_mem (memory p''),
     instr_blocks := instr_blocks (memory p''), data_blocks := data_blocks (memory p'')\<rparr>\<rparr>"
    by (subst (1 2) assms(1) [unfolded same_setup_def]) simp
  finally show ?thesis by (simp only: same_setup_def)
qed

lemma ram_span_setup: "same_setup p p' \<Longrightarrow> ram_span p' a n = ram_span p a n"
  by (simp add: ram_span_def same_setup_fields)

lemma ram_span_sub:
  assumes "ram_span p a n" "i + k \<le> n" "0 < k" "size_in_bits (memory p) < 64"
  shows "ram_span p (a + of_nat i) k"
proof -
  let ?b = "size_in_bits (memory p)"
  have "(2::nat) ^ ?b \<le> 2 ^ 63" using assms(4) by (intro power_increasing) simp_all
  then have "unat a + n < 2 ^ 64" using assms(1) by (simp add: ram_span_def)
  then have u: "unat (a + of_nat i) = unat a + i"
    using assms(2) by (simp add: unat_word_ariths(1) unat_of_nat)
  have dev: "dev_hit (a + of_nat i + of_nat j) p d = dev_hit (a + of_nat (i + j)) p d" for j d
    by (simp add: add.assoc)
  show ?thesis
    using assms(1-3) by (auto simp: ram_span_def u dev list_all_iff simp del: of_nat_add split: option.splits)
qed

lemma and_pa_mask:
  assumes "unat a < 2 ^ size_in_bits m" "size_in_bits m < 64"
  shows "a AND pa_mask m = a"
proof -
  have "pa_mask m = mask (size_in_bits m)"
    by (simp add: pa_mask_def mask_eq_exp_minus_1 push_bit_eq_mult)
  moreover have "unat (take_bit (size_in_bits m) a) = unat a"
    using assms(1) by (simp add: unsigned_take_bit_eq take_bit_nat_eq_self)
  then have "take_bit (size_in_bits m) a = a"
    by (rule unsigned_word_eqI)
  ultimately show ?thesis
    by (simp flip: take_bit_eq_mask)
qed


lemma ram_span_valid:
  assumes "ram_span p a n" "wf_mem p"
  shows "ValidatePhysicalMemoryAddress a ft (memory p) = Inr a"
    "ValidatePhysicalMemoryAddress (a + word_of_int (int n) - 1) ft (memory p) = Inr (a + word_of_int (int n) - 1)"
    "find (dev_hit a p) (devices (memory p)) = None"
proof -
  let ?b = "size_in_bits (memory p)"
  have b: "?b < 64" using assms(2) by (simp add: wf_mem_def)
  have n: "0 < n" "unat a + n \<le> 2 ^ ?b" using assms(1) by (simp_all add: ram_span_def)
  have "(2::nat) ^ ?b \<le> 2 ^ 63" using b by (intro power_increasing) simp_all
  then have no_wrap: "unat a + n < 2 ^ 64" using n(2) by simp
  have e: "a + word_of_int (int n) - 1 = a + of_nat (n - 1)"
    using n(1) by (simp add: of_nat_diff)
  have u: "unat (a + of_nat (n - 1)) = unat a + (n - 1)"
    using no_wrap by (simp add: unat_word_ariths(1) unat_of_nat)
  show "ValidatePhysicalMemoryAddress a ft (memory p) = Inr a"
    using assms(1) n b by (auto simp: ValidatePhysicalMemoryAddress_def and_pa_mask ram_span_def
        word_le_nat_alt split: option.splits prod.splits)
  show "ValidatePhysicalMemoryAddress (a + word_of_int (int n) - 1) ft (memory p) = Inr (a + word_of_int (int n) - 1)"
    unfolding e using assms(1) n b u
    by (auto simp: ValidatePhysicalMemoryAddress_def and_pa_mask ram_span_def word_le_nat_alt
        split: option.splits prod.splits)
  show "find (dev_hit a p) (devices (memory p)) = None"
    using assms(1) n(1) by (force simp: find_None_iff ram_span_def list_all_iff)
qed

lemma memory_set_phys [simp]:
  "phys_mem (memory (set_phys_mem pm p)) = pm"
  "same_setup p (set_phys_mem pm p)"
  by (simp_all add: set_phys_mem_def same_setup_def)

lemma log_both_same:
  "phys_mem (memory (log_both a b d p)) = phys_mem (memory p)" "same_setup p (log_both a b d p)"
  by (auto simp: log_both_def LogRegionAccess_def same_setup_def Let_def)

lemma wf_mem_setup: "same_setup p p' \<Longrightarrow> wf_mem p \<Longrightarrow> wf_pm (phys_mem (memory p')) \<Longrightarrow> wf_mem p'"
  by (simp add: wf_mem_def same_setup_fields)

lemma set_phys_setup: "same_setup p q \<Longrightarrow> same_setup p (set_phys_mem pm q)"
  by (rule same_setup_trans [OF _ memory_set_phys(2)])

lemma log_both_valid:
  fixes d :: bool
  assumes "wf_mem p" "ram_span p a n"
  defines "q \<equiv> log_both a (a + word_of_int (int n) - 1) d p"
  shows "ValidatePhysicalMemoryAddress a ft (memory q) = Inr a"
    "ValidatePhysicalMemoryAddress (a + word_of_int (int n) - 1) ft (memory q) = Inr (a + word_of_int (int n) - 1)"
    "find (dev_hit a q) (devices (memory q)) = None"
proof -
  have q: "same_setup p q" "phys_mem (memory q) = phys_mem (memory p)" by (simp_all only: q_def log_both_same)
  have "ram_span q a n" using assms(2) by (simp only: ram_span_setup [OF q(1)])
  moreover have "wf_mem q" using wf_mem_setup [OF q(1) assms(1)] q(2) assms(1) by (simp add: wf_mem_def)
  ultimately show "ValidatePhysicalMemoryAddress a ft (memory q) = Inr a"
    "ValidatePhysicalMemoryAddress (a + word_of_int (int n) - 1) ft (memory q) = Inr (a + word_of_int (int n) - 1)"
    "find (dev_hit a q) (devices (memory q)) = None"
    by (rule ram_span_valid)+
qed

text \<open>No page is ever crossed, so an access to one block is one physical access.\<close>

lemma WriteMemoryBlock_eq:
  "WriteMemoryBlock cpu a d pr n al buf ft p =
    (case WritePhysicalMemory a n buf ft False (log_both a (a + word_of_int n - 1) d p) of
       (Inl (SimExc e), p1) \<Rightarrow> rethrow e 0 p1
     | (Inl e, p1) \<Rightarrow> (Inl e, p1)
     | (Inr rcode, p1) \<Rightarrow> (Inr rcode, p1))"
  by (simp add: WriteMemoryBlock_def Let_def LA2PA_def PageCrossed_def RegionWrite_def InvalidRegionAccess_def
      split: prod.split sum.split sim_throw.split) (simp add: rethrow_def)

lemma ReadMemoryBlock_eq:
  "ReadMemoryBlock cpu a d pr n al buf ft ini p =
    (case ReadPhysicalMemory a n buf ft ini (log_both a (a + word_of_int n - 1) d p) of
       (Inl (SimExc e), p1) \<Rightarrow> rethrow e (0, buf) p1
     | (Inl e, p1) \<Rightarrow> (Inl e, p1)
     | (Inr r, p1) \<Rightarrow> (Inr r, p1))"
  by (simp add: ReadMemoryBlock_def Let_def LA2PA_def PageCrossed_def RegionRead_def InvalidRegionAccess_def
      split: prod.split sum.split sim_throw.split) (simp add: rethrow_def)

lemma WriteMemory_short:
  "n \<le> 32 \<Longrightarrow> d \<or> al \<Longrightarrow> WriteMemory cpu a d pr n al buf ft p =
    (case WritePhysicalMemory a n buf ft False (log_both a (a + word_of_int n - 1) d p) of
       (Inl (SimExc e), p1) \<Rightarrow> rethrow e 0 p1
     | (Inl e, p1) \<Rightarrow> (Inl e, p1)
     | (Inr rcode, p1) \<Rightarrow> (Inr rcode, p1))"
  by (auto simp: WriteMemory_def PM_BLOCK_SIZE_def WriteMemoryBlock_eq)

lemma ReadMemory_short:
  "n \<le> 32 \<Longrightarrow> d \<or> al \<Longrightarrow> ReadMemory cpu a d pr n al buf ft ini p =
    (case ReadPhysicalMemory a n buf ft ini (log_both a (a + word_of_int n - 1) d p) of
       (Inl (SimExc e), p1) \<Rightarrow> rethrow e (0, buf) p1
     | (Inl e, p1) \<Rightarrow> (Inl e, p1)
     | (Inr r, p1) \<Rightarrow> (Inr r, p1))"
  by (auto simp: ReadMemory_def PM_BLOCK_SIZE_def ReadMemoryBlock_eq)

lemma WriteMemoryBlock_ram:
  assumes "wf_mem p" "ram_span p a n" "n \<le> 32" "n \<le> length buf"
  obtains p' where "WriteMemoryBlock cpu a d pr (int n) al buf ft p = (Inr 0, p')"
    "same_setup p p'" "wf_mem p'" "mem_byte p' = upd_span (mem_byte p) a (take n buf)"
    "\<And>x v. \<not> unat (x - a) < n \<Longrightarrow> mem_view p x = Some v \<Longrightarrow> mem_view p' x = Some v"
proof -
  let ?q = "log_both a (a + word_of_int (int n) - 1) d p"
  have q: "same_setup p ?q" by (simp only: log_both_same)
  note V = log_both_valid [OF assms(1,2), where d = d]
  have n: "0 < n" using assms(2) by (simp add: ram_span_def)
  have wf: "wf_pm (phys_mem (memory p))" using assms(1) by (simp add: wf_mem_def)
  obtain pm where w: "PhysicalMemory_Write a buf (int n) False (phys_mem (memory p)) = (Inr 0, pm)" "wf_pm pm"
    "pm_byte pm = upd_span (pm_byte (phys_mem (memory p))) a (take n buf)"
    "\<And>x v. \<not> unat (x - a) < n \<Longrightarrow> pm_view (phys_mem (memory p)) x = Some v \<Longrightarrow> pm_view pm x = Some v"
    by (rule PhysicalMemory_Write_ok [OF wf n assms(3,4)]) (rule that)
  have "WriteMemoryBlock cpu a d pr (int n) al buf ft p = (Inr 0, set_phys_mem pm ?q)"
    using V w(1) by (simp add: WriteMemoryBlock_eq WritePhysicalMemory_def WriteDeviceMemory_def log_both_same)
  then show thesis
    using w wf_mem_setup [OF set_phys_setup [OF q, of pm] assms(1)]
    by (intro that [of "set_phys_mem pm ?q"] set_phys_setup q) (simp_all add: mem_byte_def mem_view_def)
qed

lemma ReadMemoryBlock_ram:
  assumes "wf_mem p" "ram_span p a n" "n \<le> 32"
  obtains p' out where
    "ReadMemoryBlock cpu a d pr (int n) al buf ft ini p =
       (Inr (read_code n (span_of (mem_byte p) a n), put_bytes 0 out buf), p')"
    "same_setup p p'" "wf_mem p'" "map Some out = span_of (mem_view p') a n"
    "\<And>x v. mem_view p x = Some v \<Longrightarrow> mem_view p' x = Some v"
    "mem_byte p' = (if ini then upd_span (mem_byte p) a out else mem_byte p)"
proof -
  let ?q = "log_both a (a + word_of_int (int n) - 1) d p"
  have q: "same_setup p ?q" by (simp only: log_both_same)
  note V = log_both_valid [OF assms(1,2), where d = d]
  have n: "0 < n" using assms(2) by (simp add: ram_span_def)
  have wf: "wf_pm (phys_mem (memory p))" using assms(1) by (simp add: wf_mem_def)
  obtain pm out where r: "PhysicalMemory_Read a ini (int n) (phys_mem (memory p)) =
      (Inr (read_code n (span_of (pm_byte (phys_mem (memory p))) a n), out), pm)" "wf_pm pm"
    "map Some out = span_of (pm_view pm) a n"
    "\<And>x v. pm_view (phys_mem (memory p)) x = Some v \<Longrightarrow> pm_view pm x = Some v"
    "pm_byte pm = (if ini then upd_span (pm_byte (phys_mem (memory p))) a out else pm_byte (phys_mem (memory p)))"
    by (rule PhysicalMemory_Read_ok [OF wf n assms(3)]) (rule that)
  have "ReadMemoryBlock cpu a d pr (int n) al buf ft ini p =
      (Inr (read_code n (span_of (mem_byte p) a n), put_bytes 0 out buf), set_phys_mem pm ?q)"
    using V r(1) by (simp add: ReadMemoryBlock_eq ReadPhysicalMemory_def ReadDeviceMemory_def log_both_same mem_byte_def)
  then show thesis
    using r wf_mem_setup [OF set_phys_setup [OF q, of pm] assms(1)]
    by (intro that [of out "set_phys_mem pm ?q"] set_phys_setup q) (simp_all add: mem_byte_def mem_view_def)
qed

section \<open>Physical accesses to ordinary memory\<close>

lemma WritePhysicalMemory_front:
  assumes "wf_mem p" "ram_span p a n" "n \<le> 32" "n \<le> length buf"
  obtains p' where "WritePhysicalMemory a (int n) buf ft iv p = (Inr 0, p')" "same_setup p p'" "wf_mem p'"
    "mem_byte p' = upd_span (mem_byte p) a (take n buf)"
proof -
  have wf: "wf_pm (phys_mem (memory p))" and n: "0 < n" using assms by (simp_all add: wf_mem_def ram_span_def)
  obtain pm where w: "PhysicalMemory_Write a buf (int n) iv (phys_mem (memory p)) = (Inr 0, pm)" "wf_pm pm"
    "pm_byte pm = upd_span (pm_byte (phys_mem (memory p))) a (take n buf)"
    by (rule PhysicalMemory_Write_ok [OF wf n assms(3,4)]) (rule that)
  show thesis
    using w ram_span_valid [OF assms(2,1)] wf_mem_setup [OF memory_set_phys(2) assms(1), of pm]
    by (intro that [of "set_phys_mem pm p"]) (simp_all add: WritePhysicalMemory_def WriteDeviceMemory_def mem_byte_def)
qed

lemma WritePhysicalMemory_ram:
  assumes "wf_mem p" "ram_span p a (length bs)" "length bs \<le> 32"
  obtains p' where "WritePhysicalMemory a (int (length bs)) bs ft iv p = (Inr 0, p')" "same_setup p p'" "wf_mem p'"
    "mem_byte p' = upd_span (mem_byte p) a bs"
  by (rule WritePhysicalMemory_front [OF assms order.refl]) (rule that, simp_all)

lemma ReadPhysicalMemory_ram:
  assumes "wf_mem p" "ram_span p a (length bs)" "length bs \<le> 32" "span_of (mem_byte p) a (length bs) = map Some bs"
    "length buf = length bs"
  obtains p' where "ReadPhysicalMemory a (int (length bs)) buf ft ini p = (Inr (0, bs), p')"
    "same_setup p p'" "wf_mem p'" "mem_byte p' = mem_byte p"
proof -
  have wf: "wf_pm (phys_mem (memory p))" and n: "0 < length bs" using assms by (simp_all add: wf_mem_def ram_span_def)
  obtain pm out where r: "PhysicalMemory_Read a ini (int (length bs)) (phys_mem (memory p)) =
      (Inr (read_code (length bs) (span_of (mem_byte p) a (length bs)), out), pm)" "wf_pm pm"
    "map Some out = span_of (pm_view pm) a (length bs)"
    "\<And>x v. pm_view (phys_mem (memory p)) x = Some v \<Longrightarrow> pm_view pm x = Some v"
    "pm_byte pm = (if ini then upd_span (mem_byte p) a out else mem_byte p)"
    by (rule PhysicalMemory_Read_ok [OF wf n assms(3), folded mem_byte_def]) (rule that)
  have code: "read_code (length bs) (map Some bs) = 0"
    using n by (simp add: read_code_def ALL_BYTES_DEFINED_def)
  have "span_of (pm_view pm) a (length bs) = map Some bs"
    by (rule span_of_mono [OF assms(4) [symmetric]]) (rule r(4), simp add: mem_view_byte [unfolded mem_view_def])
  then have out: "out = bs" using r(3) by (simp add: inj_map_eq_map)
  moreover have "upd_span (mem_byte p) a bs = mem_byte p"
    using assms(3,4) by (intro upd_span_id) simp_all
  moreover have "ReadPhysicalMemory a (int (length bs)) buf ft ini p = (Inr (0, bs), set_phys_mem pm p)"
    using ram_span_valid [OF assms(2,1)] r(1) code out
    by (simp add: ReadPhysicalMemory_def ReadDeviceMemory_def assms(4,5) put_bytes_all)
  ultimately show thesis
    using r wf_mem_setup [OF memory_set_phys(2) assms(1), of pm]
    by (intro that [of "set_phys_mem pm p"]) (simp_all add: mem_byte_def)
qed

section \<open>Accesses of any length\<close>

lemma ram_span_small: "ram_span p a n \<Longrightarrow> size_in_bits (memory p) < 64 \<Longrightarrow> n \<le> 2 ^ 63"
proof -
  assume "ram_span p a n" "size_in_bits (memory p) < 64"
  moreover from this have "(2::nat) ^ size_in_bits (memory p) \<le> 2 ^ 63" by (intro power_increasing) simp_all
  ultimately show ?thesis by (simp add: ram_span_def)
qed

lemma write_blocks_ram:
  assumes "wf_mem p" "ram_span p a n" "off + 32 * k \<le> n" "off + 32 * k \<le> length buf"
  shows "\<exists>p'. write_blocks k off cpu a d pr al buf ft p = (Inr (0, off + 32 * k), p') \<and>
    same_setup p p' \<and> wf_mem p' \<and>
    mem_byte p' = upd_span (mem_byte p) (a + of_nat off) (take (32 * k) (drop off buf))"
  using assms
proof (induction k arbitrary: off p)
  case 0
  then show ?case by (simp add: upd_span_def fun_eq_iff)
next
  case (Suc k)
  have bits: "size_in_bits (memory p) < 64" using Suc.prems(1) by (simp add: wf_mem_def)
  have span: "ram_span p (a + of_nat off) 32"
    by (rule ram_span_sub [OF Suc.prems(2)]) (use Suc.prems(3) bits in auto)
  obtain p1 where w: "WriteMemoryBlock cpu (a + of_nat off) d pr (int 32) al (drop off buf) ft p = (Inr 0, p1)"
    "same_setup p p1" "wf_mem p1" "mem_byte p1 = upd_span (mem_byte p) (a + of_nat off) (take 32 (drop off buf))"
    by (rule WriteMemoryBlock_ram [OF Suc.prems(1) span, of "drop off buf" cpu d pr al ft]) (use Suc.prems in auto)
  have "ram_span p1 a n" using Suc.prems(2) by (simp only: ram_span_setup [OF w(2)])
  moreover have "off + 32 + 32 * k \<le> n" "off + 32 + 32 * k \<le> length buf" using Suc.prems(3,4) by simp_all
  ultimately obtain p' where r: "write_blocks k (off + 32) cpu a d pr al buf ft p1 = (Inr (0, off + 32 + 32 * k), p')"
    "same_setup p1 p'" "wf_mem p'"
    "mem_byte p' = upd_span (mem_byte p1) (a + of_nat (off + 32)) (take (32 * k) (drop (off + 32) buf))"
    using Suc.IH [OF w(3)] by blast
  have "mem_byte p' = upd_span (mem_byte p) (a + of_nat off) (take 32 (drop off buf) @ take (32 * k) (drop (off + 32) buf))"
    using upd_span_append [of "take 32 (drop off buf)" "take (32 * k) (drop (off + 32) buf)" "mem_byte p" "a + of_nat off"]
      ram_span_small [OF Suc.prems(2) bits] Suc.prems(3,4) by (simp add: r(4) w(4) add.assoc)
  moreover have "take 32 (drop off buf) @ take (32 * k) (drop (off + 32) buf) = take (32 * Suc k) (drop off buf)"
    by (simp add: take_add add.commute)
  ultimately show ?case
    using w(1) r same_setup_trans [OF w(2) r(2)] by (intro exI [of _ p']) (auto simp: PM_BLOCK_SIZE_def)
qed

lemma WriteMemory_ram:
  assumes "wf_mem p" "ram_span p a n" "n \<le> length buf" "d \<or> al"
  shows "\<exists>p'. WriteMemory cpu a d pr (int n) al buf ft p = (Inr 0, p') \<and> same_setup p p' \<and> wf_mem p' \<and>
    mem_byte p' = upd_span (mem_byte p) a (take n buf)"
proof (cases "n \<le> 32")
  case True
  obtain p' where "WriteMemoryBlock cpu a d pr (int n) al buf ft p = (Inr 0, p')"
    "same_setup p p'" "wf_mem p'" "mem_byte p' = upd_span (mem_byte p) a (take n buf)"
    by (rule WriteMemoryBlock_ram [OF assms(1,2) True assms(3), of cpu d pr al ft]) blast
  then show ?thesis using True assms(4) by (auto simp: WriteMemory_def PM_BLOCK_SIZE_def)
next
  case False
  let ?k = "n div 32" and ?x = "n mod 32"
  have n: "n = 32 * ?k + ?x" by simp
  have bits: "size_in_bits (memory p) < 64" using assms(1) by (simp add: wf_mem_def)
  have "0 + 32 * ?k \<le> n" "0 + 32 * ?k \<le> length buf" using n assms(3) by linarith+
  from write_blocks_ram [OF assms(1,2) this, of cpu d pr al ft] obtain p1 where
    w: "write_blocks ?k 0 cpu a d pr al buf ft p = (Inr (0, 32 * ?k), p1)" "same_setup p p1" "wf_mem p1"
    "mem_byte p1 = upd_span (mem_byte p) a (take (32 * ?k) buf)" by auto
  have nats: "nat (int n div 32) = ?k" "int n mod 32 = int ?x" by (simp_all add: nat_div_distrib zmod_int)
  show ?thesis
  proof (cases "?x = 0")
    case True
    then have "32 * ?k = n" using n by simp
    then show ?thesis using w nats False True assms(4) by (auto simp: WriteMemory_def PM_BLOCK_SIZE_def)
  next
    case x: False
    have sx: "ram_span p1 (a + of_nat (32 * ?k)) ?x"
      using ram_span_sub [OF assms(2), of "32 * ?k" ?x] x bits by (simp add: ram_span_setup [OF w(2)])
    have x32: "?x \<le> 32" by simp
    have lx: "?x \<le> length (drop (32 * ?k) buf)" using n assms(3) by (subst length_drop) linarith
    obtain p2 where v:
      "WriteMemoryBlock cpu (a + of_nat (32 * ?k)) d pr (int ?x) al (drop (32 * ?k) buf) ft p1 = (Inr 0, p2)"
      "same_setup p1 p2" "wf_mem p2"
      "mem_byte p2 = upd_span (mem_byte p1) (a + of_nat (32 * ?k)) (take ?x (drop (32 * ?k) buf))"
      by (rule WriteMemoryBlock_ram [OF w(3) sx x32 lx]) (rule that)
    have "take (32 * ?k) buf @ take ?x (drop (32 * ?k) buf) = take n buf"
      by (simp flip: take_add)
    then have "mem_byte p2 = upd_span (mem_byte p) a (take n buf)"
      using upd_span_append [of "take (32 * ?k) buf" "take ?x (drop (32 * ?k) buf)" "mem_byte p" a]
        ram_span_small [OF assms(2) bits] n assms(3) by (simp add: v(4) w(4) min_absorb2)
    then show ?thesis
      using w v nats False x assms(4) same_setup_trans [OF w(2) v(2)]
      by (auto simp: WriteMemory_def PM_BLOCK_SIZE_def Let_def)
  qed
qed

lemma ReadMemoryBlock_defined:
  assumes "wf_mem p" "ram_span p a n" "n \<le> 32" "span_of (mem_byte p) a n = map Some bs"
  obtains p' where "ReadMemoryBlock cpu a d pr (int n) al buf ft ini p = (Inr (0, put_bytes 0 bs buf), p')"
    "same_setup p p'" "wf_mem p'" "mem_byte p' = mem_byte p"
proof -
  obtain p' out where r: "ReadMemoryBlock cpu a d pr (int n) al buf ft ini p =
       (Inr (read_code n (span_of (mem_byte p) a n), put_bytes 0 out buf), p')"
    "same_setup p p'" "wf_mem p'" "map Some out = span_of (mem_view p') a n"
    "\<And>x v. mem_view p x = Some v \<Longrightarrow> mem_view p' x = Some v"
    "mem_byte p' = (if ini then upd_span (mem_byte p) a out else mem_byte p)"
    by (rule ReadMemoryBlock_ram [OF assms(1-3), of cpu d pr al buf ft ini]) (rule that)
  have "span_of (mem_view p') a n = map Some bs"
    using assms(4) [symmetric] by (rule span_of_mono) (rule r(5) [OF mem_view_byte])
  then have "map Some out = map Some bs" using r(4) by simp
  then have out: "out = bs" by (simp add: inj_map_eq_map)
  have len: "length bs = n" using arg_cong [OF assms(4), of length] by simp
  have "0 < n" using assms(2) by (simp add: ram_span_def)
  then have "read_code n (span_of (mem_byte p) a n) = 0"
    by (simp add: assms(4) read_code_def ALL_BYTES_DEFINED_def filter_map o_def)
  moreover have "mem_byte p' = mem_byte p"
    using upd_span_id [OF assms(4)] by (simp add: r(6) out)
  ultimately show thesis using r(1-3) out by (intro that [of p']) auto
qed

lemma read_blocks_defined:
  assumes "wf_mem p" "ram_span p a n" "off + 32 * k \<le> n" "off + 32 * k \<le> length buf"
    "span_of (mem_byte p) (a + of_nat off) (32 * k) = map Some bs"
  shows "\<exists>p'. read_blocks k off cpu a d pr al buf ft ini p = (Inr (0, off + 32 * k, put_bytes off bs buf), p') \<and>
    same_setup p p' \<and> wf_mem p' \<and> mem_byte p' = mem_byte p"
  using assms
proof (induction k arbitrary: off p buf bs)
  case 0
  then show ?case by (simp add: span_of_def put_bytes_def)
next
  case (Suc k)
  have bits: "size_in_bits (memory p) < 64" using Suc.prems(1) by (simp add: wf_mem_def)
  have span: "ram_span p (a + of_nat off) 32"
    by (rule ram_span_sub [OF Suc.prems(2)]) (use Suc.prems(3) bits in auto)
  let ?bs1 = "take 32 bs" and ?bs2 = "drop 32 bs"
  have len: "length bs = 32 + 32 * k" using arg_cong [OF Suc.prems(5), of length] by simp
  have sp: "span_of (mem_byte p) (a + of_nat off) 32 = map Some ?bs1"
    "span_of (mem_byte p) (a + of_nat (off + 32)) (32 * k) = map Some ?bs2"
    using Suc.prems(5) span_of_split [of "mem_byte p" "a + of_nat off" 32 "32 * k" bs]
    by (simp_all add: add.assoc)
  obtain p1 where r1: "ReadMemoryBlock cpu (a + of_nat off) d pr (int 32) al (drop off buf) ft ini p =
      (Inr (0, put_bytes 0 ?bs1 (drop off buf)), p1)" "same_setup p p1" "wf_mem p1" "mem_byte p1 = mem_byte p"
    by (rule ReadMemoryBlock_defined [OF Suc.prems(1) span _ sp(1)]) (simp, rule that)
  let ?buf = "put_bytes off ?bs1 buf"
  have buf: "take off buf @ put_bytes 0 ?bs1 (drop off buf) = ?buf"
    by (simp add: put_bytes_def add.commute)
  have "ram_span p1 a n" using Suc.prems(2) by (simp only: ram_span_setup [OF r1(2)])
  moreover have "off + 32 + 32 * k \<le> n" "off + 32 + 32 * k \<le> length ?buf"
    using Suc.prems(3,4) len by simp_all
  ultimately obtain p' where r2: "read_blocks k (off + 32) cpu a d pr al ?buf ft ini p1 =
      (Inr (0, off + 32 + 32 * k, put_bytes (off + 32) ?bs2 ?buf), p')"
    "same_setup p1 p'" "wf_mem p'" "mem_byte p' = mem_byte p1"
    using Suc.IH [OF r1(3), of "off + 32" ?buf ?bs2] sp(2) r1(4) by (simp only:) blast
  have "put_bytes (off + 32) ?bs2 ?buf = put_bytes off bs buf"
    using put_bytes_append [of off ?bs1 buf ?bs2] len Suc.prems(4) by simp
  then show ?case
    using r1 r2 buf same_setup_trans [OF r1(2) r2(2)] by (intro exI [of _ p']) (auto simp: PM_BLOCK_SIZE_def)
qed

lemma ReadMemory_defined:
  assumes "wf_mem p" "ram_span p a n" "n \<le> length buf" "d \<or> al" "span_of (mem_byte p) a n = map Some bs"
  shows "\<exists>p'. ReadMemory cpu a d pr (int n) al buf ft ini p = (Inr (0, put_bytes 0 bs buf), p') \<and>
    same_setup p p' \<and> wf_mem p' \<and> mem_byte p' = mem_byte p"
proof (cases "n \<le> 32")
  case True
  obtain p' where "ReadMemoryBlock cpu a d pr (int n) al buf ft ini p = (Inr (0, put_bytes 0 bs buf), p')"
    "same_setup p p'" "wf_mem p'" "mem_byte p' = mem_byte p"
    by (rule ReadMemoryBlock_defined [OF assms(1,2) True assms(5), of cpu d pr al buf ft ini]) (rule that)
  then show ?thesis using True assms(4) by (auto simp: ReadMemory_def PM_BLOCK_SIZE_def)
next
  case False
  let ?k = "n div 32" and ?x = "n mod 32"
  let ?bs1 = "take (32 * ?k) bs" and ?bs2 = "drop (32 * ?k) bs"
  have n: "32 * ?k + ?x = n" by simp
  have bits: "size_in_bits (memory p) < 64" using assms(1) by (simp add: wf_mem_def)
  have len: "length bs = n" using arg_cong [OF assms(5), of length] by simp
  have kn: "32 * ?k \<le> n" using n by linarith
  have sp: "span_of (mem_byte p) a (32 * ?k) = map Some ?bs1"
    "span_of (mem_byte p) (a + of_nat (32 * ?k)) ?x = map Some ?bs2"
    using span_of_split [of "mem_byte p" a "32 * ?k" ?x bs, unfolded n, OF assms(5)] by simp_all
  obtain p1 where r: "read_blocks ?k 0 cpu a d pr al buf ft ini p = (Inr (0, 32 * ?k, put_bytes 0 ?bs1 buf), p1)"
    "same_setup p p1" "wf_mem p1" "mem_byte p1 = mem_byte p"
    using read_blocks_defined [OF assms(1,2), of 0 ?k buf ?bs1 cpu d pr al ft ini] kn assms(3) sp(1) by auto
  have nats: "nat (int n div 32) = ?k" "int n mod 32 = int ?x" by (simp_all add: nat_div_distrib zmod_int)
  show ?thesis
  proof (cases "?x = 0")
    case True
    then have "32 * ?k = n" using n by simp
    then show ?thesis using r nats False True assms(4) len by (auto simp: ReadMemory_def PM_BLOCK_SIZE_def)
  next
    case x: False
    define buf1 where "buf1 = put_bytes 0 ?bs1 buf"
    have sx: "ram_span p1 (a + of_nat (32 * ?k)) ?x"
      using ram_span_sub [OF assms(2), of "32 * ?k" ?x] x bits by (simp add: ram_span_setup [OF r(2)])
    have x32: "?x \<le> 32" by simp
    obtain p2 where v:
      "ReadMemoryBlock cpu (a + of_nat (32 * ?k)) d pr (int ?x) al (drop (32 * ?k) buf1) ft ini p1 =
        (Inr (0, put_bytes 0 ?bs2 (drop (32 * ?k) buf1)), p2)"
      "same_setup p1 p2" "wf_mem p2" "mem_byte p2 = mem_byte p1"
      by (rule ReadMemoryBlock_defined [OF r(3) sx x32 sp(2) [folded r(4)]]) (rule that)
    have l1: "length ?bs1 = 32 * ?k" using len kn by simp
    have "take (32 * ?k) buf1 @ put_bytes 0 ?bs2 (drop (32 * ?k) buf1) = put_bytes (0 + length ?bs1) ?bs2 buf1"
      unfolding l1 by (simp add: put_bytes_def add.commute)
    also have "\<dots> = put_bytes 0 (?bs1 @ ?bs2) buf"
      unfolding buf1_def by (rule put_bytes_append) (use len kn assms(3) in simp)
    finally have B: "take (32 * ?k) buf1 @ put_bytes 0 ?bs2 (drop (32 * ?k) buf1) = put_bytes 0 bs buf"
      by simp
    have "ReadMemory cpu a d pr (int n) al buf ft ini p = (Inr (0, put_bytes 0 bs buf), p2)"
      using False x assms(4) v(1)
      by (simp add: ReadMemory_def PM_BLOCK_SIZE_def Let_def nats r(1) B flip: buf1_def)
    then show ?thesis
      using r(4) v(3,4) same_setup_trans [OF r(2) v(2)] by simp
  qed
qed

section \<open>Byte order\<close>

lemma endian_source_less:
  assumes "0 < sz" "k < m * sz"
  shows "endian_source same sz k < m * sz"
proof -
  have "k div sz < m" using assms by (simp add: less_mult_imp_div_less)
  then have "(k div sz + 1) * sz \<le> m * sz" by (intro mult_le_mono) simp_all
  moreover have "endian_source same sz k < (k div sz + 1) * sz"
  proof (cases same)
    case True
    then show ?thesis using dividend_less_div_times [OF assms(1), of k] by (simp add: endian_source_def)
  qed (use assms(1) in \<open>simp add: endian_source_def Let_def\<close>)
  ultimately show ?thesis by linarith
qed

lemma endian_source_involution:
  assumes "0 < sz"
  shows "endian_source same sz (endian_source same sz k) = k"
proof -
  have j: "k mod sz < sz" using assms by simp
  have "(k div sz * sz + (sz - 1) - k mod sz) = k div sz * sz + (sz - 1 - k mod sz)" using j by simp
  moreover have "sz - 1 - k mod sz < sz" using assms by simp
  ultimately have "(k div sz * sz + (sz - 1) - k mod sz) div sz = k div sz"
    "(k div sz * sz + (sz - 1) - k mod sz) mod sz = sz - 1 - k mod sz"
    by simp_all
  then show ?thesis using j by (simp add: endian_source_def Let_def)
qed

lemma foldl_update_nth:
  assumes "distinct ks" "\<forall>k\<in>set ks. k < length d"
  shows "length (foldl (\<lambda>d k. d[k := f k]) d ks) = length d \<and>
    (\<forall>i<length d. foldl (\<lambda>d k. d[k := f k]) d ks ! i = (if i \<in> set ks then f i else d ! i))"
  using assms by (induction ks arbitrary: d) auto

lemma length_ApplyEndianness [simp]:
  "(total_bytes div sz) * sz \<le> length dest \<Longrightarrow> length (ApplyEndianness host dest src e sz total_bytes) = length dest"
  unfolding ApplyEndianness_def by (subst foldl_update_nth [THEN conjunct1]) auto

lemma nth_ApplyEndianness:
  "(total_bytes div sz) * sz \<le> length dest \<Longrightarrow> i < length dest \<Longrightarrow>
    ApplyEndianness host dest src e sz total_bytes ! i =
      (if i < (total_bytes div sz) * sz then src ! endian_source (host = e) sz i else dest ! i)"
  unfolding ApplyEndianness_def
  by (subst foldl_update_nth [THEN conjunct2, rule_format]) auto

section \<open>Correctness of the memory system\<close>

text \<open>A 32-bit memory on a little endian host, with no device mapped.\<close>

definition demo_platform :: platform where
  "demo_platform = \<lparr>memory = Memory_new 32 False demo_host, mtimer = MachineTimer_new, uart1 = UART_pl011_new\<rparr>"

lemma demo_platform_ok [simp]:
  "wf_mem demo_platform"
  "ram_span demo_platform a n \<longleftrightarrow> 0 < n \<and> unat a + n \<le> 2 ^ 32"
  by (auto simp: demo_platform_def wf_mem_def ram_span_def Memory_new_def PM_BLOCK_SIZE_def PhysicalAddressRange_def)

text \<open>
  C28. Refinement of a memory write: a write of any number of bytes to a span of ordinary memory, also one
  longer than a block, succeeds with return code 0 and changes the bytes in use exactly as the
  abstract span update does; devices, monitors and configuration stay as they were.
\<close>

theorem memory_write_refines:
  assumes "wf_mem p" "ram_span p a n" "n \<le> length buf" "is_data \<or> is_aligned"
  shows "\<exists>p'. WriteMemory cpu a is_data privileged (int n) is_aligned buf for_test p = (Inr 0, p') \<and>
    same_setup p p' \<and> wf_mem p' \<and> mem_byte p' = upd_span (mem_byte p) a (take n buf)"
  using assms by (rule WriteMemory_ram)

theorem memory_write_refines_witness:
  "\<exists>p'. WriteMemory State_new 0x1000 True False 40 True (replicate 40 7) False demo_platform = (Inr 0, p') \<and>
    mem_byte p' = upd_span (mem_byte demo_platform) 0x1000 (replicate 40 7)"
  using memory_write_refines [of demo_platform "0x1000" 40 "replicate 40 7" True True State_new False False] by auto

text \<open>
  Reading back: any number of bytes written to ordinary memory is read back unchanged, with
  return code 0, by any core and with any of the access flags.
\<close>

theorem memory_write_read:
  assumes "wf_mem p" "ram_span p a n" "length bs = n" "n \<le> length buf" "is_data \<or> is_aligned" "is_data2 \<or> is_aligned2"
  shows "fst (ReadMemory cpu2 a is_data2 privileged2 (int n) is_aligned2 buf for_test2 init_if_free
      (snd (WriteMemory cpu a is_data privileged (int n) is_aligned bs for_test p))) = Inr (0, put_bytes 0 bs buf)"
proof -
  obtain p1 where w: "WriteMemory cpu a is_data privileged (int n) is_aligned bs for_test p = (Inr 0, p1)"
    "same_setup p p1" "wf_mem p1" "mem_byte p1 = upd_span (mem_byte p) a (take n bs)"
    using WriteMemory_ram [OF assms(1,2) _ assms(5), of bs cpu privileged for_test] assms(3) by auto
  have r1: "ram_span p1 a n" using assms(2) by (simp only: ram_span_setup [OF w(2)])
  have "length bs \<le> 2 ^ 64"
    using ram_span_small [OF assms(2)] assms(1,3) by (simp add: wf_mem_def)
  then have "span_of (mem_byte p1) a n = map Some bs"
    using assms(3) span_upd_span_same [of bs "mem_byte p" a] by (simp add: w(4))
  then obtain p2 where "ReadMemory cpu2 a is_data2 privileged2 (int n) is_aligned2 buf for_test2 init_if_free p1
      = (Inr (0, put_bytes 0 bs buf), p2)"
    using ReadMemory_defined [OF w(3) r1 assms(4,6)] by blast
  then show ?thesis by (simp add: w(1))
qed

theorem memory_write_read_witness:
  "fst (ReadMemory State_new 0x1010 False False 40 True (replicate 40 0) False True
      (snd (WriteMemory State_new 0x1010 True False 40 False (replicate 40 7) False demo_platform)))
    = Inr (0, replicate 40 7)"
  using memory_write_read [of demo_platform "0x1010" 40 "replicate 40 7" "replicate 40 0" True False False True
      State_new False False True State_new False False] by simp

text \<open>An address that the range check rejects, after the upper address bits have been dropped.\<close>

definition outside_range :: "Memory \<Rightarrow> u64 \<Rightarrow> bool" where
  "outside_range m a = (case PhysicalAddressRange m of None \<Rightarrow> False
     | Some (lo, hi) \<Rightarrow> \<not> (lo \<le> a AND pa_mask m \<and> a AND pa_mask m \<le> hi))"

lemma outside_range_throws: "outside_range m a \<Longrightarrow> ValidatePhysicalMemoryAddress a ft m = Inl (SimExc GENERATION_ERROR)"
  by (auto simp: outside_range_def ValidatePhysicalMemoryAddress_def split: option.splits)

lemma Validate_cong:
  "pa_mask m = pa_mask m' \<Longrightarrow> PhysicalAddressRange m = PhysicalAddressRange m' \<Longrightarrow>
    ValidatePhysicalMemoryAddress a ft m = ValidatePhysicalMemoryAddress a ft m'"
  by (simp add: ValidatePhysicalMemoryAddress_def)

lemma pa_mask_setup: "same_setup p q \<Longrightarrow> pa_mask (memory q) = pa_mask (memory p)"
  by (simp add: pa_mask_def same_setup_fields(1) [of p q])

lemma outside_range_setup: "same_setup p q \<Longrightarrow> outside_range (memory q) a = outside_range (memory p) a"
  by (simp add: outside_range_def pa_mask_setup [of p q] same_setup_fields(4) [of p q] split: option.split)

text \<open>
  C34. Range errors: an access of at most a block that starts or ends, after the upper address bits
  have been dropped, outside the configured physical address range throws GENERATION_ERROR and
  changes no byte in use, no delivered value and no device.
\<close>

theorem memory_range_errors:
  assumes "outside_range (memory p) a \<or> outside_range (memory p) ((a AND pa_mask (memory p)) + word_of_int n - 1)"
    "n \<le> 32" "is_data \<or> is_aligned"
  shows "\<exists>p'. ReadMemory cpu a is_data privileged n is_aligned buf for_test init_if_free p = (Inl (SimExc GENERATION_ERROR), p') \<and>
    WriteMemory cpu a is_data privileged n is_aligned buf for_test p = (Inl (SimExc GENERATION_ERROR), p') \<and>
    same_setup p p' \<and> mem_byte p' = mem_byte p \<and> mem_view p' = mem_view p"
proof -
  let ?q = "log_both a (a + word_of_int n - 1) is_data p"
  have q: "same_setup p ?q" "phys_mem (memory ?q) = phys_mem (memory p)" by (simp_all only: log_both_same)
  have m: "pa_mask (memory ?q) = pa_mask (memory p)" using same_setup_fields(1) [OF q(1)] by (simp add: pa_mask_def)
  have V: "ValidatePhysicalMemoryAddress a for_test (memory ?q) = Inr a' \<Longrightarrow>
      a' = a AND pa_mask (memory p)" for a'
    by (auto simp: ValidatePhysicalMemoryAddress_def m Let_def split: option.splits if_splits prod.splits)
  have E: "ValidatePhysicalMemoryAddress a for_test (memory ?q) = Inl e \<Longrightarrow> e = SimExc GENERATION_ERROR" for a e
    by (auto simp: ValidatePhysicalMemoryAddress_def Let_def split: option.splits if_splits prod.splits)
  have "(case ValidatePhysicalMemoryAddress a for_test (memory ?q) of Inl e \<Rightarrow> e = SimExc GENERATION_ERROR
      | Inr a' \<Rightarrow> ValidatePhysicalMemoryAddress (a' + word_of_int n - 1) for_test (memory ?q) = Inl (SimExc GENERATION_ERROR))"
    using assms(1) V E by (auto simp: outside_range_setup [OF q(1)] outside_range_throws split: sum.split)
  then have "ReadPhysicalMemory a n buf for_test init_if_free ?q = (Inl (SimExc GENERATION_ERROR), ?q)"
    "WritePhysicalMemory a n buf for_test False ?q = (Inl (SimExc GENERATION_ERROR), ?q)"
    by (auto simp: ReadPhysicalMemory_def WritePhysicalMemory_def split: sum.splits)
  then have "ReadMemory cpu a is_data privileged n is_aligned buf for_test init_if_free p = (Inl (SimExc GENERATION_ERROR), ?q)"
    "WriteMemory cpu a is_data privileged n is_aligned buf for_test p = (Inl (SimExc GENERATION_ERROR), ?q)"
    using assms(2,3) by (simp_all add: ReadMemory_short WriteMemory_short rethrow_def)
  then show ?thesis
    using q by (auto simp: mem_byte_def mem_view_def)
qed

theorem memory_range_errors_witness:
  "\<exists>p'. ReadMemory State_new 0x80000000 True False 4 True [] False True
     (demo_platform\<lparr>memory := SetPhysicalAddressRange 0 0x7fffffff (memory demo_platform)\<rparr>) = (Inl (SimExc GENERATION_ERROR), p')"
proof -
  let ?p = "demo_platform\<lparr>memory := SetPhysicalAddressRange 0 0x7fffffff (memory demo_platform)\<rparr>"
  have "outside_range (memory ?p) 0x80000000" by code_simp
  with memory_range_errors [of ?p "0x80000000" 4 True True State_new False "[]" False True] show ?thesis by auto
qed

lemma dev_access_code:
  "fst (dev_Write d a buf n p) = (if n = 4 \<and> dev_IsMapped a d then 0 else -1)"
  "fst (fst (dev_Read d a buf n p)) = (if n = 4 \<and> dev_IsMapped a d then 0 else -1)"
  by (cases d; simp add: dev_Write_def dev_Read_def dev_IsMapped_def case_prod_unfold
      pl011.write_code mtimer.write_code pl011.read_code mtimer.read_code)+

lemma dev_access_fails:
  "\<not> (n = 4 \<and> dev_IsMapped a d) \<Longrightarrow> snd (dev_Write d a buf n p) = p \<and> snd (dev_Read d a buf n p) = p"
  using pl011.failed_access_keeps_device [of n a] mtimer.failed_access_keeps_device [of n a]
  by (cases d) (auto simp: dev_Write_def dev_Read_def dev_IsMapped_def case_prod_unfold)

text \<open>What a device access changes: the device, as \<open>f\<close> leaves it, and not the store.\<close>

definition device_effect :: "platform \<Rightarrow> platform \<Rightarrow> platform \<Rightarrow> bool" where
  "device_effect p target p' \<longleftrightarrow> uart1 p' = uart1 target \<and> mtimer p' = mtimer target \<and>
     phys_mem (memory p') = phys_mem (memory p)"

lemma dev_access_setup:
  assumes "same_setup p q" "phys_mem (memory q) = phys_mem (memory p)"
  shows "device_effect p (snd (dev_Write d a buf n p)) (snd (dev_Write d a buf n q))"
    "device_effect p (snd (dev_Read d a buf n p)) (snd (dev_Read d a buf n q))"
    "fst (dev_Read d a buf n q) = fst (dev_Read d a buf n p)"
  using assms(2) same_setup_fields(6-8) [OF assms(1)]
  by (cases d; simp add: device_effect_def dev_Write_def dev_Read_def case_prod_unfold)+

text \<open>
  C29. Device dispatch: an access that passes the range check and hits the range of an implemented device
  goes to the first such device of the list and never to the block store; it succeeds exactly for
  a 4-byte access to a mapped register outside test generation, and otherwise returns -1 and
  changes no device.
\<close>

theorem memory_device_access:
  assumes "ValidatePhysicalMemoryAddress a for_test (memory p) = Inr a'"
    "ValidatePhysicalMemoryAddress (a' + word_of_int n - 1) for_test (memory p) = Inr e'"
    "find (dev_hit a' p) (devices (memory p)) = Some dv" "n \<le> 32" "is_data \<or> is_aligned"
  defines "ok \<equiv> \<not> for_test \<and> n = 4 \<and> dev_IsMapped a' dv"
  shows "\<exists>p1 p2 out. WriteMemory cpu a is_data privileged n is_aligned buf for_test p = (Inr (if ok then 0 else -1), p1) \<and>
    device_effect p (if ok then snd (dev_Write dv a' buf n p) else p) p1 \<and>
    ReadMemory cpu a is_data privileged n is_aligned buf for_test init_if_free p = (Inr (if ok then 0 else -1, out), p2) \<and>
    out = (if ok then snd (fst (dev_Read dv a' buf n p)) else out) \<and>
    device_effect p (if ok then snd (dev_Read dv a' buf n p) else p) p2"
proof -
  let ?q = "log_both a (a + word_of_int n - 1) is_data p"
  have q: "same_setup p ?q" "phys_mem (memory ?q) = phys_mem (memory p)" by (simp_all only: log_both_same)
  have V: "ValidatePhysicalMemoryAddress x ft (memory ?q) = ValidatePhysicalMemoryAddress x ft (memory p)" for x ft
    by (simp add: ValidatePhysicalMemoryAddress_def pa_mask_setup [OF q(1)] same_setup_fields(4) [OF q(1)])
  have F: "find (dev_hit a' ?q) (devices (memory ?q)) = Some dv"
    using assms(3) by (simp add: same_setup_fields [OF q(1)])
  have keep: "device_effect p p ?q"
    using q(2) same_setup_fields [OF q(1)] by (simp add: device_effect_def)
  note D = dev_access_setup [OF q, of dv a' buf n]
  have w: "WriteMemory cpu a is_data privileged n is_aligned buf for_test p =
      (if for_test \<or> \<not> dev_IsMapped a' dv then (Inr (-1), ?q)
       else (Inr (fst (dev_Write dv a' buf n ?q)), snd (dev_Write dv a' buf n ?q)))"
    using assms(1,2,4,5) F by (simp add: WriteMemory_short WritePhysicalMemory_def WriteDeviceMemory_def V case_prod_unfold)
  have r: "ReadMemory cpu a is_data privileged n is_aligned buf for_test init_if_free p =
      (if for_test \<or> \<not> dev_IsMapped a' dv then (Inr (-1, buf), ?q)
       else (Inr (fst (dev_Read dv a' buf n ?q)), snd (dev_Read dv a' buf n ?q)))"
    using assms(1,2,4,5) F by (simp add: ReadMemory_short ReadPhysicalMemory_def ReadDeviceMemory_def V case_prod_unfold)
  show ?thesis
  proof (cases "for_test \<or> \<not> dev_IsMapped a' dv")
    case True
    then show ?thesis using w r keep by (auto simp: ok_def)
  next
    case False
    have "fst (dev_Read dv a' buf n ?q) = (if n = 4 then 0 else -1, snd (fst (dev_Read dv a' buf n p)))"
      using dev_access_code(2) [of dv a' buf n p] False D(3) by (simp add: prod_eq_iff)
    then show ?thesis
      using w r False D(1,2) dev_access_code(1) [of dv a' buf n ?q] dev_access_fails [of n a' dv buf p]
      by (auto simp: ok_def)
  qed
qed

text \<open>The demo platform with the uart mapped at 0x10000000.\<close>

definition demo_uart_platform :: platform where
  "demo_uart_platform =
     (demo_platform\<lparr>memory := AddDevice Uart1Ref (memory demo_platform),
        uart1 := MapDevice UART_pl011_Reset 0x10000000 0xffff UART_pl011_new\<rparr>)"

theorem memory_device_access_witness:
  "fst (WriteMemory State_new 0x10000000 True False 4 True [0x41, 0, 0, 0] False demo_uart_platform) = Inr 0"
proof -
  have "ValidatePhysicalMemoryAddress 0x10000000 False (memory demo_uart_platform) = Inr 0x10000000"
    "ValidatePhysicalMemoryAddress (0x10000000 + word_of_int 4 - 1) False (memory demo_uart_platform) = Inr 0x10000003"
    "find (dev_hit 0x10000000 demo_uart_platform) (devices (memory demo_uart_platform)) = Some Uart1Ref"
    "dev_IsMapped 0x10000000 Uart1Ref"
    by code_simp+
  from memory_device_access [OF this(1-3), of True True State_new False "[0x41, 0, 0, 0]" True] this(4)
  show ?thesis by auto
qed

text \<open>
  Byte order: between two buffers, copying one word keeps or reverses its bytes as the orders agree or
  differ, and doing it twice gives any whole number of words back; called with one buffer as source and
  destination, as instruction fetch does, it is the identity when the orders agree, and with
  differing orders it overwrites bytes before they are read, so a 4-byte word loses its first two bytes.
\<close>

theorem apply_endianness_correct:
  assumes "0 < sz" "length src = m * sz" "length dest = m * sz" "length dest2 = m * sz"
  shows "(m = 1 \<longrightarrow> ApplyEndianness host dest src e sz sz = (if host = e then src else rev src)) \<and>
    ApplyEndianness host dest2 (ApplyEndianness host dest src e sz (m * sz)) e sz (m * sz) = src \<and>
    ApplyEndianness_in_place host src host sz (m * sz) = src \<and>
    ApplyEndianness_in_place host [b0, b1, b2, b3] (\<not> host) 4 4 = [b3, b2, b2, b3]"
proof (intro conjI impI)
  assume "m = 1"
  show "ApplyEndianness host dest src e sz sz = (if host = e then src else rev src)"
    by (rule nth_equalityI)
      (use assms \<open>m = 1\<close> in \<open>auto simp: nth_ApplyEndianness endian_source_def rev_nth\<close>)
next
  let ?d = "ApplyEndianness host dest src e sz (m * sz)"
  have len: "length ?d = m * sz" using assms by simp
  show "ApplyEndianness host dest2 ?d e sz (m * sz) = src"
  proof (rule nth_equalityI)
    fix i assume "i < length (ApplyEndianness host dest2 ?d e sz (m * sz))"
    then have i: "i < m * sz" using assms by simp
    then have "endian_source (host = e) sz i < m * sz" using assms(1) by (rule endian_source_less [rotated])
    then show "ApplyEndianness host dest2 ?d e sz (m * sz) ! i = src ! i"
      using i assms by (simp add: nth_ApplyEndianness endian_source_involution)
  qed (use assms in simp)
next
  have id: "endian_source True sz k = k" for k by (simp add: endian_source_def)
  have "foldl (\<lambda>d k. d[k := d ! endian_source True sz k]) src ks = src" for ks
    by (induction ks) (simp_all add: id)
  then show "ApplyEndianness_in_place host src host sz (m * sz) = src"
    by (simp add: ApplyEndianness_in_place_def)
next
  show "ApplyEndianness_in_place host [b0, b1, b2, b3] (\<not> host) 4 4 = [b3, b2, b2, b3]"
    by (simp add: ApplyEndianness_in_place_def endian_source_def upt_rec)
qed

theorem apply_endianness_correct_witness:
  "ApplyEndianness False [0, 0] [1, 2] True 2 2 = [2, 1] \<and> ApplyEndianness_in_place False [1, 2, 3, 4] True 4 4 = [4, 3, 3, 4]"
  using apply_endianness_correct [of 2 "[1, 2]" 1 "[0, 0]" "[0, 0]" False True 1 2 3 4] by simp

text \<open>
  Exclusive accesses: the core that set the monitor last passes the check at the same address and size and
  every other core fails it, whatever its local monitor says; a passed check closes the core's
  local monitor but not the global one, so it passes again.
\<close>

theorem exclusive_monitor_owner:
  assumes "ValidatePhysicalMemoryAddress a for_test m = Inr a'"
    "SetExclusiveMonitor a n privileged (cpu, m) = (cpu', m')"
  shows "Memory_IsExclusive a n privileged2 (cpu2, m') = (st_id cpu2 = st_id cpu) \<and>
    ExclusiveMonitorsPass a n aligned privileged2 for_test (cpu2, m') =
      (if st_id cpu2 = st_id cpu
       then (Inr True, cpu2\<lparr>local_monitor := exclMonitor_Clear (local_monitor cpu2)\<rparr>, m')
       else (Inr False, cpu2, m')) \<and>
    (b \<noteq> a \<longrightarrow> \<not> Memory_IsExclusive b n privileged2 (cpu2, m'))"
proof -
  have m': "m' = m\<lparr>global_monitor := exclMonitor_Set a a n (uint (st_id cpu)) (global_monitor m)\<rparr>"
    using assms(2) by (auto simp: SetExclusiveMonitor_def AccessGlobalMonitor_def MMU_Enabled_def Shareable_def LA2PA_def Let_def)
  have "ValidatePhysicalMemoryAddress a for_test m' = ValidatePhysicalMemoryAddress a for_test m"
    by (rule Validate_cong) (simp_all add: m' pa_mask_def PhysicalAddressRange_def)
  then have "ValidatePhysicalMemoryAddress a for_test m' = Inr a'"
    using assms(1) by simp
  then show ?thesis
    by (auto simp: m' Memory_IsExclusive_def ExclusiveMonitorsPass_def AccessGlobalMonitor_def MMU_Enabled_def
        Shareable_def LA2PA_def exclMonitor_IsExclusive_def exclMonitor_Set_def dest: unsigned_word_eqI)
qed

theorem exclusive_monitor_owner_witness:
  "\<not> Memory_IsExclusive 0x100 4 False
     (State_new\<lparr>st_id := 1\<rparr>, snd (SetExclusiveMonitor 0x100 4 False (State_new, memory demo_platform)))"
proof -
  obtain cpu' m' where s: "SetExclusiveMonitor 0x100 4 False (State_new, memory demo_platform) = (cpu', m')" by fastforce
  have v: "ValidatePhysicalMemoryAddress 0x100 False (memory demo_platform) = Inr 0x100" by code_simp
  have "st_id (State_new\<lparr>st_id := 1\<rparr>) \<noteq> st_id State_new" by (simp add: State_new_def)
  then show ?thesis
    using exclusive_monitor_owner [OF v s, of False "State_new\<lparr>st_id := 1\<rparr>" True 0] by (simp add: s)
qed

lemma file_block_loop_ok:
  assumes "distinct acc" "set seen = set acc"
  shows "distinct (file_block_loop as msk seen acc) \<and>
    set (file_block_loop as msk seen acc) = set acc \<union> (\<lambda>a. a AND msk) ` set as"
  using assms
proof (induction as msk seen acc rule: file_block_loop.induct)
  case (2 a as msk seen acc)
  then show ?case by (cases "a AND msk \<in> set seen") (auto simp: Let_def)
qed simp

text \<open>
  The block list of a saved test: it is sorted, names every block that holds a byte in use exactly once,
  and the list of file blocks made from it holds each masked address once and no other.
\<close>

theorem test_block_addresses_complete:
  assumes "wf_pm (phys_mem m)"
  shows "sorted (TestBlockAddresses [] m) \<and> distinct (TestBlockAddresses [] m) \<and>
    (\<forall>a v. pm_byte (phys_mem m) a = Some v \<longrightarrow> BlockAddress a \<in> set (TestBlockAddresses [] m)) \<and>
    distinct (SetFileBlockAddresses [] (TestBlockAddresses [] m) msk) \<and>
    set (SetFileBlockAddresses [] (TestBlockAddresses [] m) msk) = (\<lambda>a. a AND msk) ` set (TestBlockAddresses [] m)"
proof (intro conjI allI impI)
  show "sorted (TestBlockAddresses [] m)" by (simp add: TestBlockAddresses_def)
  have "distinct (map fst (filter P xs))" if "distinct (map fst xs)" for P and xs :: "(u64 \<times> MemBlock) list"
    using that by (induction xs) auto
  then show "distinct (TestBlockAddresses [] m)"
    using assms by (simp add: TestBlockAddresses_def AddressList_def wf_pm_def)
  show "BlockAddress a \<in> set (TestBlockAddresses [] m)" if used: "pm_byte (phys_mem m) a = Some v" for a v
  proof -
    obtain b where b: "map_of (physical_memory_by_block (phys_mem m)) (BlockAddress a) = Some b"
      "block_byte b (nat (Offset a)) = Some v"
      using used
      by (cases "map_of (physical_memory_by_block (phys_mem m)) (BlockAddress a)")
        (auto simp: pm_byte_def block_at_def block_byte_def MemBlock_new_def)
    have "nat (Offset a) < 32" by (simp add: nat_Offset)
    then have "0 < ByteCount b" by (rule ByteCount_pos) (simp add: b(2))
    then show ?thesis
      using map_of_SomeD [OF b(1)] by (force simp: TestBlockAddresses_def AddressList_def)
  qed
qed (simp_all add: SetFileBlockAddresses_def file_block_loop_ok [of "[]" "[]"])

theorem test_block_addresses_complete_witness:
  "BlockAddress 0x1010 \<in> set (TestBlockAddresses [] ((memory demo_platform)\<lparr>phys_mem := store_write False 0x1010 [1, 2] (PhysicalMemory_new demo_host)\<rparr>))"
proof -
  let ?pm = "store_write False 0x1010 [1, 2] (PhysicalMemory_new demo_host)"
  have wf: "wf_pm ?pm" by (rule pms.wr_ok) simp_all
  have "pm_byte ?pm = upd_span (pm_byte (PhysicalMemory_new demo_host)) 0x1010 [1, 2]"
    by (rule pms.wr_byte) simp_all
  then have "pm_byte ?pm 0x1010 = Some 1" by (simp add: upd_span_def)
  with wf test_block_addresses_complete [of "(memory demo_platform)\<lparr>phys_mem := ?pm\<rparr>" 0] show ?thesis by auto
qed

text \<open>
  A long read over memory that is not all in use stops early: when the first block of a read of two blocks
  holds a byte that was never written, the read returns a non-zero code after that block and
  leaves the second half of the caller's buffer as it was, although every single block can be read.
\<close>

theorem long_read_stops_early:
  assumes "wf_mem p" "ram_span p a 64" "length buf = 64" "is_data \<or> is_aligned"
    "read_code 32 (span_of (mem_byte p) a 32) \<noteq> 0"
  shows "\<exists>out p'. length out = 32 \<and>
    ReadMemory cpu a is_data privileged 64 is_aligned buf for_test init_if_free p =
      (Inr (read_code 32 (span_of (mem_byte p) a 32), out @ drop 32 buf), p')"
proof -
  have s: "ram_span p (a + of_nat 0) 32"
    by (rule ram_span_sub [OF assms(2)]) (use assms(1) in \<open>simp_all add: wf_mem_def\<close>)
  then have s: "ram_span p a 32" by simp
  obtain p' out where r: "ReadMemoryBlock cpu a is_data privileged (int 32) is_aligned buf for_test init_if_free p =
       (Inr (read_code 32 (span_of (mem_byte p) a 32), put_bytes 0 out buf), p')"
    "map Some out = span_of (mem_view p') a 32"
    by (rule ReadMemoryBlock_ram [OF assms(1) s]) (simp, rule that)
  have "length out = 32" using arg_cong [OF r(2), of length] by simp
  moreover have "nat (64 div 32) = Suc (Suc 0)" by simp
  ultimately show ?thesis
    using r(1) assms(3-5) by (intro exI [of _ out] exI [of _ p'])
      (auto simp: ReadMemory_def PM_BLOCK_SIZE_def put_bytes_def numeral_2_eq_2)
qed

theorem long_read_stops_early_witness:
  "\<exists>out p'. ReadMemory State_new 0x1000 True False 64 True (replicate 64 0) False False demo_platform = (Inr (2, out @ replicate 32 0), p')"
proof -
  have "read_code 32 (span_of (mem_byte demo_platform) 0x1000 32) = 2" by code_simp
  with long_read_stops_early [of demo_platform "0x1000" "replicate 64 0" True True State_new False False False]
  show ?thesis by auto
qed

end
