(* ===== verification/Core_State.thy ===== *)
theory Core_State
  imports State_Base
begin

text \<open>
  The RISC-V core state, \<open>include/riscv_core_state.h\<close> and \<open>src/riscv_core_state.C\<close>: general purpose
  registers, control and status registers with their masks and access rules, privilege levels,
  interrupts and traps. The log of register accesses that \<open>show_updates\<close> controls is left out;
  nothing reads it but the printer.
\<close>

unbundle bit_operations_syntax

section \<open>Registers\<close>

text \<open>The stored control registers, without the leading underscore of the members.\<close>

datatype csr_reg =
    MEPC | MTVEC | SATP | PMPADDR0 | PMPCFG0 | MISA | MEDELEG | MIDELEG | MIE | MSTATUS | MSTATUSH
  | MCOUNTEREN | MCOUNTINHIBIT | MSCRATCH | MCAUSE | MTVAL | MIP | MTINST | MCYCLE | MCYCLEH
  | MTINSTRET | MTINSTRETH | USTATUS | FFLAGS | FRM | FCSR

record RiscvState = State +
  machine_state :: u32
  X :: "u64 list"
  csr_file :: "csr_reg \<Rightarrow> u64"

definition DEFINED_MISA_VALUE :: u64 where
  "DEFINED_MISA_VALUE = 0x40101104"

definition USER_MODE :: u32 where "USER_MODE = 0"
definition SUPERVISOR_MODE :: u32 where "SUPERVISOR_MODE = 1"
definition HYPERVISOR_MODE :: u32 where "HYPERVISOR_MODE = 2"
definition MACHINE_MODE :: u32 where "MACHINE_MODE = 3"

definition GP :: "u32 \<Rightarrow> RiscvState \<Rightarrow> u64" where
  "GP rindex s = (if rindex = 0 then 0 else X s ! unat rindex)"

definition SetGP :: "u32 \<Rightarrow> u64 \<Rightarrow> RiscvState \<Rightarrow> RiscvState" where
  "SetGP rindex rval s = (if 0 < rindex then s\<lparr>X := (X s)[unat rindex := rval]\<rparr> else s)"

definition SP :: "RiscvState \<Rightarrow> u64" where
  "SP s = X s ! 2"

definition SetSP :: "u64 \<Rightarrow> RiscvState \<Rightarrow> RiscvState" where
  "SetSP rval s = s\<lparr>X := (X s)[2 := rval]\<rparr>"

definition FP :: "RiscvState \<Rightarrow> u64" where
  "FP s = X s ! 8"

definition SetFP :: "u64 \<Rightarrow> RiscvState \<Rightarrow> RiscvState" where
  "SetFP rval s = s\<lparr>X := (X s)[8 := rval]\<rparr>"

definition RiscvState_SetPC :: "u64 \<Rightarrow> RiscvState \<Rightarrow> RiscvState" where
  "RiscvState_SetPC rval s = s\<lparr>PC := rval\<rparr>"

definition put_csr :: "csr_reg \<Rightarrow> u64 \<Rightarrow> RiscvState \<Rightarrow> RiscvState" where
  "put_csr r v s = s\<lparr>csr_file := (csr_file s)(r := v)\<rparr>"

text \<open>The getters: two registers have bits that read as zero.\<close>

definition reg_value :: "csr_reg \<Rightarrow> RiscvState \<Rightarrow> u64" where
  "reg_value r s =
     (case r of
        MSTATUS \<Rightarrow> csr_file s MSTATUS AND 0x807fffff
      | MSTATUSH \<Rightarrow> csr_file s MSTATUSH AND 0x30
      | _ \<Rightarrow> csr_file s r)"

text \<open>
  The setters. A literal that fits an \<open>int\<close> is complemented as a negative number and keeps the upper
  half of a 64-bit operand; one that does not is complemented as a 32-bit value and clears it.
\<close>

definition SetMISA :: "u64 \<Rightarrow> RiscvState \<Rightarrow> RiscvState" where
  "SetMISA rval s =
     (let rval = rval AND DEFINED_MISA_VALUE;
          rval = (if reg_value MISA s AND 4 = 4 \<and> PC s AND 0x3 \<noteq> 0 then rval OR 4 else rval)
      in put_csr MISA rval s)"

definition SetMSTATUS :: "u64 \<Rightarrow> RiscvState \<Rightarrow> RiscvState" where
  "SetMSTATUS rval s =
     (let rval = rval AND (rval AND 0x7fa21e9d);
          rval = (if rval AND 0x1800 = 0x800 \<or> rval AND 0x1800 = 0x1000
                  then (rval AND NOT 0x1800) OR (reg_value MSTATUS s AND 0x1800)
                  else rval)
      in put_csr MSTATUS rval s)"

definition SetMSTATUSH :: "u64 \<Rightarrow> RiscvState \<Rightarrow> RiscvState" where
  "SetMSTATUSH rval s = put_csr MSTATUSH (rval AND (rval AND NOT 0x30)) s"

definition set_reg :: "csr_reg \<Rightarrow> u64 \<Rightarrow> RiscvState \<Rightarrow> RiscvState" where
  "set_reg r rval s =
     (case r of
        MISA \<Rightarrow> SetMISA rval s
      | MSTATUS \<Rightarrow> SetMSTATUS rval s
      | MSTATUSH \<Rightarrow> SetMSTATUSH rval s
      | _ \<Rightarrow> put_csr r rval s)"

definition CompressedExtensionEnabled :: "RiscvState \<Rightarrow> bool" where
  "CompressedExtensionEnabled s \<longleftrightarrow> reg_value MISA s AND 4 = 4"

definition GlobalInterruptsEnabled :: "RiscvState \<Rightarrow> bool" where
  "GlobalInterruptsEnabled s \<longleftrightarrow> reg_value MSTATUS s AND 0x8 \<noteq> 0"

definition CurrentPrivilegeLevel :: "RiscvState \<Rightarrow> u32" where
  "CurrentPrivilegeLevel s = machine_state s AND 0x3"

definition SetPrivilegeLevel :: "u32 \<Rightarrow> RiscvState \<Rightarrow> RiscvState" where
  "SetPrivilegeLevel new_privilege_level s =
     s\<lparr>machine_state := (machine_state s AND NOT 0x3) OR new_privilege_level\<rparr>"

definition WFIEnabled :: "RiscvState \<Rightarrow> bool" where
  "WFIEnabled s \<longleftrightarrow> CurrentPrivilegeLevel s = 3 \<or> reg_value MSTATUS s AND 0x200000 = 0x200000"

definition LowPowerMode :: "RiscvState \<Rightarrow> bool" where
  "LowPowerMode s \<longleftrightarrow> machine_state s AND 0x10 = 0x10"

definition ClearLowPowerMode :: "RiscvState \<Rightarrow> RiscvState" where
  "ClearLowPowerMode s = s\<lparr>machine_state := machine_state s AND NOT 0x10\<rparr>"

definition SetLowPowerMode :: "RiscvState \<Rightarrow> RiscvState" where
  "SetLowPowerMode s = s\<lparr>machine_state := machine_state s OR 0x10\<rparr>"

text \<open>The level every CSR instruction is checked at, whatever the current level is.\<close>

definition PrivilegeLevel :: "RiscvState \<Rightarrow> u32" where
  "PrivilegeLevel s = 3"

definition RecordMisalignedAddress :: "u64 \<Rightarrow> RiscvState \<Rightarrow> RiscvState" where
  "RecordMisalignedAddress branch_pc s = set_reg MTVAL branch_pc s"

text \<open>
  The constructor with a configuration. The control registers other than MISA are not initialised;
  \<open>csrs\<close> is what they happen to hold.
\<close>

definition RiscvState_new :: "u64 \<Rightarrow> (csr_reg \<Rightarrow> u64) \<Rightarrow> RiscvState" where
  "RiscvState_new reset_address csrs =
     SetMISA DEFINED_MISA_VALUE
       (State.extend (State_new\<lparr>PC := reset_address\<rparr>)
          \<lparr>machine_state = MACHINE_MODE, X = replicate 32 0, csr_file = csrs\<rparr>)"

section \<open>Access to control and status registers\<close>

definition ValidateCSRAccess :: "u32 \<Rightarrow> u32 \<Rightarrow> bool \<Rightarrow> sim_throw + unit" where
  "ValidateCSRAccess csr_address privilege_level for_write =
     (if 0xfff < csr_address then Inl RuntimeError
      else
        let machine_level_access = (privilege_level = 3);
            hypervisor_level_access = (2 \<le> privilege_level);
            supervisor_level_access = (1 \<le> privilege_level);
            csr_group = drop_bit 8 csr_address AND 0xf;
            access_okay =
              (if csr_group = 0 \<or> csr_group = 4 \<or> csr_group = 8 then True
               else if csr_group = 0xc then \<not> for_write
               else if csr_group = 1 \<or> csr_group = 5 \<or> csr_group = 9 then supervisor_level_access
               else if csr_group = 0xd then supervisor_level_access \<and> \<not> for_write
               else if csr_group = 2 \<or> csr_group = 6 \<or> csr_group = 0xa then hypervisor_level_access
               else if csr_group = 0xe then hypervisor_level_access \<and> \<not> for_write
               else if csr_group = 3 \<or> csr_group = 7 \<or> csr_group = 0xb then machine_level_access
               else if csr_group = 0xf then machine_level_access \<and> \<not> for_write
               else False)
        in if access_okay then Inr () else Inl (SimExc ILLEGAL_INSTRUCTION_PRIVILEGED_CSR))"

text \<open>The addresses that both switches map to a stored register.\<close>

definition csr_table :: "(u32 \<times> csr_reg) list" where
  "csr_table =
     [(0x000, USTATUS), (0x001, FFLAGS), (0x002, FRM), (0x003, FCSR), (0x180, SATP), (0x300, MSTATUS),
      (0x301, MISA), (0x302, MEDELEG), (0x303, MIDELEG), (0x304, MIE), (0x305, MTVEC), (0x306, MCOUNTEREN),
      (0x310, MSTATUSH), (0x340, MSCRATCH), (0x341, MEPC), (0x342, MCAUSE), (0x343, MTVAL), (0x344, MIP),
      (0x34a, MTINST), (0x3a0, PMPCFG0), (0x3b0, PMPADDR0), (0xb00, MCYCLE), (0xb02, MTINSTRET),
      (0xb80, MCYCLEH), (0xb82, MTINSTRETH)]"

text \<open>The read-only addresses.\<close>

definition csr_read_only :: "u32 \<Rightarrow> RiscvState \<Rightarrow> u64 option" where
  "csr_read_only csr s =
     map_of [(0xc00, st_clock s AND 0xffffffff), (0xc01, st_timer s AND 0xffffffff),
       (0xc02, instr_count s AND 0xffffffff), (0xc80, drop_bit 32 (st_clock s)),
       (0xc81, drop_bit 32 (st_timer s)), (0xc82, instr_count s AND 0xffffffff), (0xf11, 0), (0xf12, 0),
       (0xf13, 0), (0xf14, ucast (st_id s))] csr"

definition CSR :: "u32 \<Rightarrow> u32 \<Rightarrow> RiscvState \<Rightarrow> sim_throw + u64" where
  "CSR csr privilege_level s =
     (case ValidateCSRAccess csr privilege_level False of
        Inl e \<Rightarrow> Inl e
      | Inr _ \<Rightarrow>
          (case map_of csr_table csr of
             Some r \<Rightarrow> Inr (reg_value r s)
           | None \<Rightarrow>
               (case csr_read_only csr s of
                  Some v \<Rightarrow> Inr v
                | None \<Rightarrow> Inl (SimExc ILLEGAL_INSTRUCTION_UNKNOWN_CSR))))"

definition SetCSR :: "u32 \<Rightarrow> u32 \<Rightarrow> u64 \<Rightarrow> RiscvState \<Rightarrow> sim_throw + RiscvState" where
  "SetCSR csr privilege_level rval s =
     (case ValidateCSRAccess csr privilege_level True of
        Inl e \<Rightarrow> Inl e
      | Inr _ \<Rightarrow>
          (case map_of csr_table csr of
             Some r \<Rightarrow> Inr (set_reg r rval s)
           | None \<Rightarrow> Inl (SimExc ILLEGAL_INSTRUCTION_UNKNOWN_CSR)))"

section \<open>Traps and interrupts\<close>

definition PushPrivilegeLevel :: "RiscvState \<Rightarrow> RiscvState" where
  "PushPrivilegeLevel s =
     (let mstatus = ucast (reg_value MSTATUS s) :: u32;
          mie = drop_bit 3 mstatus AND 1;
          mstatus = mstatus AND NOT 0xc88
      in SetPrivilegeLevel MACHINE_MODE
           (SetMSTATUS (ucast (mstatus OR push_bit 11 (CurrentPrivilegeLevel s) OR push_bit 7 mie)) s))"

definition PopPrivilegeLevel :: "RiscvState \<Rightarrow> RiscvState" where
  "PopPrivilegeLevel s =
     (let mstatus = ucast (reg_value MSTATUS s) :: u32;
          mpie = drop_bit 7 mstatus AND 1;
          mpp = drop_bit 11 mstatus AND 3;
          mstatus = mstatus AND NOT 0x1888
      in SetMSTATUS (ucast (mstatus OR push_bit 3 mpie OR push_bit 7 1)) (SetPrivilegeLevel mpp s))"

definition InterruptPending :: "RiscvState \<Rightarrow> SIM_EXCEPTIONS option" where
  "InterruptPending s =
     (let mip = reg_value MIP s; mie = reg_value MIE s
      in if \<not> GlobalInterruptsEnabled s \<or> mip = 0 \<or> mie = 0 then None
         else if drop_bit 11 mip AND 1 \<noteq> 0 \<and> drop_bit 11 mie AND 1 \<noteq> 0 then Some MACHINE_EXTERNAL_INT
         else if drop_bit 7 mip AND 1 \<noteq> 0 \<and> drop_bit 7 mie AND 1 \<noteq> 0 then Some MACHINE_TIMER_INT
         else None)"

definition Ready :: "RiscvState \<Rightarrow> bool" where
  "Ready s \<longleftrightarrow> \<not> end_test s \<and> (\<not> LowPowerMode s \<or> InterruptPending s \<noteq> None)"

definition Signal :: "SIM_EXCEPTIONS \<Rightarrow> RiscvState \<Rightarrow> RiscvState" where
  "Signal sim_interrupt s =
     (case sim_interrupt of
        MACHINE_TIMER_INT \<Rightarrow> set_reg MIP (reg_value MIP s OR push_bit 7 1) s
      | MACHINE_EXTERNAL_INT \<Rightarrow> set_reg MIP (reg_value MIP s OR push_bit 11 1) s
      | _ \<Rightarrow> s)"

text \<open>The shared statement sequences of the switch: an interrupt, and a trap to the vector base.\<close>

definition take_interrupt :: "nat \<Rightarrow> SIM_EXCEPTIONS \<Rightarrow> RiscvState \<Rightarrow> RiscvState" where
  "take_interrupt cause_bit sim_exception s =
     (let s1 = set_reg MIP (reg_value MIP s AND NOT (push_bit cause_bit 1)) s;
          s2 = PushPrivilegeLevel (ClearLowPowerMode s1);
          s3 = set_reg MCAUSE (ucast ((enum_value sim_exception AND 0xf) OR 0x80000000)) s2;
          s4 = set_reg MEPC (PC s3) (set_reg MTVAL 0 s3)
      in RiscvState_SetPC (reg_value MTVEC s4 + (reg_value MCAUSE s4 AND 0xfffffff) * 4) s4)"

definition ProcessException :: "SIM_EXCEPTIONS \<Rightarrow> RiscvState \<Rightarrow> sim_throw + RiscvState" where
  "ProcessException sim_exception s =
     (let cause = ucast (enum_value sim_exception AND 0xf)
      in case sim_exception of
           MACHINE_TIMER_INT \<Rightarrow> Inr (take_interrupt 7 sim_exception s)
         | MACHINE_EXTERNAL_INT \<Rightarrow> Inr (take_interrupt 11 sim_exception s)
         | PROCESS_WFI \<Rightarrow>
             (let s1 = set_reg MTVAL 0 (set_reg MCAUSE cause s)
              in Inr (SetLowPowerMode (set_reg MEPC (PC s1 + 4) s1)))
         | PROCESS_MRET \<Rightarrow>
             (let s1 = PopPrivilegeLevel s
              in Inr (RiscvState_SetPC (if CompressedExtensionEnabled s1 then reg_value MEPC s1
                                        else reg_value MEPC s1 AND NOT 0x3) s1))
         | ENV_CALL_UMODE \<Rightarrow>
             (let s1 = set_reg MTVAL 0 (set_reg MCAUSE cause (PushPrivilegeLevel s)); s2 = set_reg MEPC (PC s1) s1
              in Inr (RiscvState_SetPC (reg_value MTVEC s2) s2))
         | ENV_CALL_MMODE \<Rightarrow>
             (let s1 = set_reg MTVAL 0 (set_reg MCAUSE cause (PushPrivilegeLevel s)); s2 = set_reg MEPC (PC s1) s1
              in Inr (RiscvState_SetPC (reg_value MTVEC s2) s2))
         | INSTRUCTION_ADDRESS_MISALIGNED \<Rightarrow>
             (let s1 = PushPrivilegeLevel (set_reg MCAUSE cause s); s2 = set_reg MEPC (PC s1) s1
              in Inr (RiscvState_SetPC (reg_value MTVEC s2) s2))
         | _ \<Rightarrow>
             if sim_exception \<in> {ILLEGAL_INSTRUCTION_UNKNOWN_INSTR, ILLEGAL_INSTRUCTION_UNIMPL_INSTR,
                  ILLEGAL_INSTRUCTION_PRIVILEGED_INSTR, ILLEGAL_INSTRUCTION_UNKNOWN_CSR,
                  ILLEGAL_INSTRUCTION_PRIVILEGED_CSR}
             then (let s1 = PushPrivilegeLevel (set_reg MTVAL 0 (set_reg MCAUSE cause s)); s2 = set_reg MEPC (PC s1) s1
                   in Inr (RiscvState_SetPC (reg_value MTVEC s2) s2))
             else Inl RuntimeError)"

definition ProcessInterrupt :: "SIM_EXCEPTIONS \<Rightarrow> RiscvState \<Rightarrow> sim_throw + RiscvState" where
  "ProcessInterrupt sim_exception s = ProcessException sim_exception s"

section \<open>Copying a state\<close>

text \<open>The registers in the order in which \<open>Update\<close> compares and sets them.\<close>

definition update_order :: "csr_reg list" where
  "update_order = [USTATUS, FFLAGS, FRM, FCSR, SATP, MSTATUS, MEDELEG, MIDELEG, MIE, MISA, MTVEC, MCOUNTEREN,
     MSTATUSH, MSCRATCH, MEPC, MCAUSE, MTVAL, MIP, MTINST, PMPCFG0, PMPADDR0, MCYCLE, MTINSTRET, MCYCLEH, MTINSTRETH]"

definition update_reg :: "RiscvState \<Rightarrow> RiscvState \<Rightarrow> csr_reg \<Rightarrow> RiscvState" where
  "update_reg rhs s r = (if reg_value r s \<noteq> reg_value r rhs then set_reg r (reg_value r rhs) s else s)"

definition RiscvState_Update :: "RiscvState \<Rightarrow> RiscvState \<Rightarrow> RiscvState" where
  "RiscvState_Update rhs s =
     (let s1 = (State_Update rhs s)\<lparr>machine_state := machine_state rhs\<rparr>;
          s2 = foldl (update_reg rhs) s1 update_order
      in foldl (\<lambda>s i. if X s ! i \<noteq> X rhs ! i then s\<lparr>X := (X s)[i := X rhs ! i]\<rparr> else s) s2 [0..<32])"

section \<open>Reading back registers\<close>

lemma put_csr_fields [simp]:
  "PC (put_csr r v s) = PC s" "X (put_csr r v s) = X s" "machine_state (put_csr r v s) = machine_state s"
  "end_test (put_csr r v s) = end_test s" "st_id (put_csr r v s) = st_id s" "st_asid (put_csr r v s) = st_asid s"
  "is_secure (put_csr r v s) = is_secure s" "st_clock (put_csr r v s) = st_clock s"
  "instr_count (put_csr r v s) = instr_count s" "st_timer (put_csr r v s) = st_timer s"
  "local_monitor (put_csr r v s) = local_monitor s"
  "csr_file (put_csr r v s) = (csr_file s)(r := v)"
  by (simp_all add: put_csr_def)

text \<open>Every setter stores some value in its register and touches nothing else.\<close>

lemma set_reg_put: "\<exists>v'. set_reg r v s = put_csr r v' s"
  by (cases r) (auto simp: set_reg_def SetMISA_def SetMSTATUS_def SetMSTATUSH_def Let_def)

lemma set_reg_fields [simp]:
  "PC (set_reg r v s) = PC s" "X (set_reg r v s) = X s" "machine_state (set_reg r v s) = machine_state s"
  "end_test (set_reg r v s) = end_test s" "st_id (set_reg r v s) = st_id s" "st_asid (set_reg r v s) = st_asid s"
  "is_secure (set_reg r v s) = is_secure s" "st_clock (set_reg r v s) = st_clock s"
  "instr_count (set_reg r v s) = instr_count s" "st_timer (set_reg r v s) = st_timer s"
  "local_monitor (set_reg r v s) = local_monitor s"
  using set_reg_put [of r v s] by auto

lemma SetMSTATUS_eq: "SetMSTATUS v s = set_reg MSTATUS v s"
  by (simp add: set_reg_def)

lemma csr_file_set_reg_other [simp]: "r \<noteq> r' \<Longrightarrow> csr_file (set_reg r v s) r' = csr_file s r'"
  using set_reg_put [of r v s] by auto

lemma reg_value_cong: "csr_file s r = csr_file s' r \<Longrightarrow> reg_value r s = reg_value r s'"
  by (cases r) (simp_all add: reg_value_def)

lemma reg_value_set_other [simp]: "r \<noteq> r' \<Longrightarrow> reg_value r' (set_reg r v s) = reg_value r' s"
  "r' \<noteq> r \<Longrightarrow> reg_value r' (set_reg r v s) = reg_value r' s"
  by (rule reg_value_cong, simp)+

text \<open>Registers without masks or side conditions.\<close>

definition plain_reg :: "csr_reg \<Rightarrow> bool" where
  "plain_reg r \<longleftrightarrow> r \<noteq> MISA \<and> r \<noteq> MSTATUS \<and> r \<noteq> MSTATUSH"

lemma reg_value_set_plain [simp]: "plain_reg r \<Longrightarrow> reg_value r (set_reg r v s) = v"
  by (cases r) (simp_all add: plain_reg_def set_reg_def reg_value_def)

lemma plain_regs [simp]: "plain_reg MEPC" "plain_reg MCAUSE" "plain_reg MTVAL" "plain_reg MTVEC" "plain_reg MIP" "plain_reg MIE"
  by (simp_all add: plain_reg_def)

lemma reg_value_state [simp]:
  "reg_value r (s\<lparr>PC := a\<rparr>) = reg_value r s" "reg_value r (s\<lparr>X := xs\<rparr>) = reg_value r s"
  "reg_value r (s\<lparr>machine_state := m\<rparr>) = reg_value r s" "reg_value r (s\<lparr>end_test := b\<rparr>) = reg_value r s"
  by (rule reg_value_cong, simp)+

lemma privilege_fields [simp]:
  "PC (SetPrivilegeLevel l s) = PC s" "X (SetPrivilegeLevel l s) = X s"
  "csr_file (SetPrivilegeLevel l s) = csr_file s" "reg_value r (SetPrivilegeLevel l s) = reg_value r s"
  by (simp_all add: SetPrivilegeLevel_def)

lemma low_power_fields [simp]:
  "PC (ClearLowPowerMode s) = PC s" "X (ClearLowPowerMode s) = X s" "reg_value r (ClearLowPowerMode s) = reg_value r s"
  "csr_file (ClearLowPowerMode s) = csr_file s"
  "PC (SetLowPowerMode s) = PC s" "X (SetLowPowerMode s) = X s" "reg_value r (SetLowPowerMode s) = reg_value r s"
  "csr_file (SetLowPowerMode s) = csr_file s"
  by (simp_all add: ClearLowPowerMode_def SetLowPowerMode_def)

lemma SetPC_fields [simp]:
  "PC (RiscvState_SetPC a s) = a" "X (RiscvState_SetPC a s) = X s" "reg_value r (RiscvState_SetPC a s) = reg_value r s"
  "machine_state (RiscvState_SetPC a s) = machine_state s" "csr_file (RiscvState_SetPC a s) = csr_file s"
  by (simp_all add: RiscvState_SetPC_def)

lemma level_simps [simp]:
  "CurrentPrivilegeLevel (set_reg r v s) = CurrentPrivilegeLevel s"
  "CurrentPrivilegeLevel (RiscvState_SetPC a s) = CurrentPrivilegeLevel s"
  by (simp_all add: CurrentPrivilegeLevel_def)

lemma CurrentPrivilegeLevel_Set [simp]: "CurrentPrivilegeLevel (SetPrivilegeLevel l s) = l AND 3"
proof -
  have "(m AND NOT 3 OR l) AND 3 = l AND 3" for m :: u32
    by (rule bit_word_eqI) (auto simp: bit_simps)
  then show ?thesis by (simp add: CurrentPrivilegeLevel_def SetPrivilegeLevel_def)
qed

lemma CurrentPrivilegeLevel_low_power [simp]:
  "CurrentPrivilegeLevel (ClearLowPowerMode s) = CurrentPrivilegeLevel s"
  "CurrentPrivilegeLevel (SetLowPowerMode s) = CurrentPrivilegeLevel s"
proof -
  have "(m AND NOT 0x10) AND 3 = m AND 3" "(m OR 0x10) AND 3 = m AND 3" for m :: u32
    by (simp_all add: and.assoc bit.conj_disj_distrib2)
  then show "CurrentPrivilegeLevel (ClearLowPowerMode s) = CurrentPrivilegeLevel s"
    "CurrentPrivilegeLevel (SetLowPowerMode s) = CurrentPrivilegeLevel s"
    by (simp_all add: CurrentPrivilegeLevel_def ClearLowPowerMode_def SetLowPowerMode_def)
qed

section \<open>The invariant of a core\<close>

text \<open>The status register: no bit outside the supported ones, and a previous privilege of U or M.\<close>

definition wf_mstatus :: "u64 \<Rightarrow> bool" where
  "wf_mstatus v \<longleftrightarrow> v AND NOT 0x7fa21e9d = 0 \<and> (v AND 0x1800 = 0 \<or> v AND 0x1800 = 0x1800)"

definition wf_core :: "RiscvState \<Rightarrow> bool" where
  "wf_core s \<longleftrightarrow> length (X s) = 32 \<and> X s ! 0 = 0 \<and> wf_mstatus (reg_value MSTATUS s) \<and>
     csr_file s MISA AND NOT DEFINED_MISA_VALUE = 0 \<and> CurrentPrivilegeLevel s \<in> {0, 3}"

lemma and_not_eq_0_iff: "v AND NOT m = 0 \<longleftrightarrow> (\<forall>k. bit v k \<longrightarrow> bit m k)" for v m :: "'l::len word"
  by (auto simp: bit_eq_iff bit_and_iff bit_not_iff dest: bit_imp_le_length)

text \<open>The previous privilege field, bits 11 and 12.\<close>

lemma bit_1800: "bit (0x1800 :: u64) k \<longleftrightarrow> k = 11 \<or> k = 12"
  by (auto simp: bit_numeral_rec bit_1_iff numeral_eq_Suc split: nat.splits)

lemma mpp_bits: "v AND 0x1800 = (if bit v 11 then 0x800 else 0) OR (if bit v 12 then 0x1000 else 0)" for v :: u64
  by (rule bit_word_eqI) (auto simp: bit_simps bit_numeral_rec numeral_eq_Suc split: nat.splits intro!: gr0I)

lemma mpp_wf: "v AND 0x1800 = 0 \<or> v AND 0x1800 = 0x1800 \<longleftrightarrow> bit v 11 = bit v 12" for v :: u64
  by (auto simp: mpp_bits)

lemma MSTATUS_mpp: "reg_value MSTATUS s AND 0x1800 = csr_file s MSTATUS AND 0x1800"
  by (simp add: reg_value_def and.assoc)

text \<open>What a write of the status register stores, bit by bit.\<close>

lemma bit_SetMSTATUS:
  "bit (csr_file (set_reg MSTATUS v s) MSTATUS) k \<longleftrightarrow>
    (if bit v 11 \<noteq> bit v 12 \<and> (k = 11 \<or> k = 12) then bit (csr_file s MSTATUS) k
     else bit v k \<and> bit (0x7fa21e9d :: u64) k)"
proof -
  let ?w = "v AND (v AND 0x7fa21e9d)"
  have w: "bit ?w j \<longleftrightarrow> bit v j \<and> bit (0x7fa21e9d :: u64) j" for j
    by (auto simp: bit_and_iff)
  have "bit ?w 11 = bit v 11" "bit ?w 12 = bit v 12"
    unfolding w by simp_all
  then have bad: "?w AND 0x1800 = 0x800 \<or> ?w AND 0x1800 = 0x1000 \<longleftrightarrow> bit v 11 \<noteq> bit v 12"
    by (auto simp: mpp_bits)
  have "csr_file (set_reg MSTATUS v s) MSTATUS =
      (if bit v 11 \<noteq> bit v 12 then (?w AND NOT 0x1800) OR (csr_file s MSTATUS AND 0x1800) else ?w)"
    using bad by (simp add: set_reg_def SetMSTATUS_def Let_def MSTATUS_mpp)
  then show ?thesis
    using w [of k] by (auto simp: bit_simps bit_1800 simp del: bit_numeral_word_iff dest: bit_imp_le_length)
qed

lemma wf_mstatus_bits:
  "wf_mstatus v \<longleftrightarrow> (\<forall>k. bit v k \<longrightarrow> bit (0x7fa21e9d :: u64) k) \<and> bit v 11 = bit v 12"
  unfolding wf_mstatus_def and_not_eq_0_iff mpp_wf ..

lemma bit_MSTATUS: "bit (reg_value MSTATUS s) k \<longleftrightarrow> bit (csr_file s MSTATUS) k \<and> bit (0x807fffff :: u64) k"
  by (simp add: reg_value_def bit_and_iff)

lemma wf_mstatus_mpp: "wf_mstatus (reg_value MSTATUS s) \<Longrightarrow> bit (csr_file s MSTATUS) 11 = bit (csr_file s MSTATUS) 12"
  by (simp add: wf_mstatus_bits bit_MSTATUS)

lemma wf_SetMSTATUS: "wf_mstatus (reg_value MSTATUS s) \<Longrightarrow> wf_mstatus (reg_value MSTATUS (set_reg MSTATUS v s))"
  unfolding wf_mstatus_bits bit_MSTATUS bit_SetMSTATUS by (auto simp del: bit_numeral_word_iff) (auto simp: wf_mstatus_bits)

lemma wf_SetMISA: "csr_file (SetMISA v s) MISA AND NOT DEFINED_MISA_VALUE = 0"
proof -
  have "bit (4 :: u64) k \<Longrightarrow> bit DEFINED_MISA_VALUE k" for k
    by (auto simp: DEFINED_MISA_VALUE_def bit_numeral_rec split: nat.splits)
  then show ?thesis
    unfolding and_not_eq_0_iff by (auto simp: SetMISA_def Let_def bit_simps)
qed

lemma wf_core_set_reg:
  assumes "wf_core s"
  shows "wf_core (set_reg r v s)"
proof -
  have "wf_mstatus (reg_value MSTATUS (set_reg r v s))"
    using assms wf_SetMSTATUS [of s v] by (cases "r = MSTATUS") (simp_all add: wf_core_def)
  moreover have "csr_file (set_reg r v s) MISA AND NOT DEFINED_MISA_VALUE = 0"
    using assms wf_SetMISA [of v s] by (cases "r = MISA") (auto simp: wf_core_def set_reg_def [of MISA])
  ultimately show ?thesis using assms by (simp add: wf_core_def CurrentPrivilegeLevel_def)
qed

lemma wf_core_level: "wf_core s \<Longrightarrow> l AND 3 \<in> {0, 3} \<Longrightarrow> wf_core (SetPrivilegeLevel l s)"
  by (simp add: wf_core_def)

lemma wf_core_low_power: "wf_core s \<Longrightarrow> wf_core (ClearLowPowerMode s)" "wf_core s \<Longrightarrow> wf_core (SetLowPowerMode s)"
  by (simp_all add: wf_core_def)

lemma wf_core_SetPC: "wf_core s \<Longrightarrow> wf_core (RiscvState_SetPC a s)"
  by (simp add: wf_core_def)

lemma wf_core_SetGP: "wf_core s \<Longrightarrow> wf_core (SetGP r v s)"
  by (auto simp: wf_core_def SetGP_def CurrentPrivilegeLevel_def nth_list_update word_gt_0 unat_eq_zero)

lemma wf_core_Push: "wf_core s \<Longrightarrow> wf_core (PushPrivilegeLevel s)"
  by (simp add: PushPrivilegeLevel_def Let_def SetMSTATUS_eq wf_core_level wf_core_set_reg MACHINE_MODE_def)

text \<open>The fields of the status register, and what trap entry and return do to them.\<close>

definition mpp :: "RiscvState \<Rightarrow> u32" where
  "mpp s = drop_bit 11 (ucast (reg_value MSTATUS s)) AND 3"

lemma two_bits: "w AND 3 = (if bit w 0 then 1 else 0) OR (if bit w 1 then 2 else 0)" for w :: "'l::len word"
  by (rule bit_word_eqI) (auto simp: bit_simps bit_numeral_rec split: nat.splits intro!: gr0I)

lemma mpp_from_bits: "mpp s = (if bit (csr_file s MSTATUS) 11 then 1 else 0) OR (if bit (csr_file s MSTATUS) 12 then 2 else 0)"
  by (simp add: mpp_def two_bits bit_drop_bit_eq bit_ucast_iff bit_MSTATUS)

lemma push_value_bits:
  fixes m l :: u32
  defines "v \<equiv> ucast ((m AND NOT 0xc88) OR push_bit 11 (l AND 3) OR push_bit 7 (drop_bit 3 m AND 1)) :: u64"
  shows "bit v 3 = False" "bit v 7 = bit m 3" "bit v 11 = bit l 0" "bit v 12 = (bit m 12 \<or> bit l 1)"
proof -
  have "(1 :: u32) = mask 1" "(3 :: u32) = mask 2" by (simp_all add: mask_numeral)
  then show "bit v 3 = False" "bit v 7 = bit m 3" "bit v 11 = bit l 0" "bit v 12 = (bit m 12 \<or> bit l 1)"
    by (simp_all add: v_def bit_or_iff bit_and_iff bit_not_iff bit_ucast_iff bit_push_bit_iff bit_drop_bit_eq
        bit_mask_iff del: push_bit_and)
qed

lemma level_bits: "CurrentPrivilegeLevel s AND 3 = CurrentPrivilegeLevel s"
  by (simp add: CurrentPrivilegeLevel_def and.assoc)

lemma PushPrivilegeLevel_ok:
  assumes "wf_core s"
  shows "CurrentPrivilegeLevel (PushPrivilegeLevel s) = 3" "PC (PushPrivilegeLevel s) = PC s"
    "X (PushPrivilegeLevel s) = X s" "r \<noteq> MSTATUS \<Longrightarrow> reg_value r (PushPrivilegeLevel s) = reg_value r s"
    "bit (reg_value MSTATUS (PushPrivilegeLevel s)) 3 = False"
    "bit (reg_value MSTATUS (PushPrivilegeLevel s)) 7 = bit (reg_value MSTATUS s) 3"
    "mpp (PushPrivilegeLevel s) = (if CurrentPrivilegeLevel s = 3 then 3 else mpp s)"
proof -
  let ?l = "CurrentPrivilegeLevel s" and ?m = "ucast (reg_value MSTATUS s) :: u32"
  let ?v = "ucast ((?m AND NOT 0xc88) OR push_bit 11 (?l AND 3) OR push_bit 7 (drop_bit 3 ?m AND 1)) :: u64"
  have push: "PushPrivilegeLevel s = SetPrivilegeLevel MACHINE_MODE (set_reg MSTATUS ?v s)"
    unfolding level_bits by (simp only: PushPrivilegeLevel_def Let_def SetMSTATUS_eq)
  show "CurrentPrivilegeLevel (PushPrivilegeLevel s) = 3" "PC (PushPrivilegeLevel s) = PC s"
    "X (PushPrivilegeLevel s) = X s" "r \<noteq> MSTATUS \<Longrightarrow> reg_value r (PushPrivilegeLevel s) = reg_value r s"
    by (simp_all add: push MACHINE_MODE_def)
  have fl: "csr_file (PushPrivilegeLevel s) MSTATUS = csr_file (set_reg MSTATUS ?v s) MSTATUS"
    by (simp only: push privilege_fields)
  have m: "bit ?m 3 = bit (reg_value MSTATUS s) 3" "bit ?m 12 = bit (csr_file s MSTATUS) 12"
    by (simp_all add: bit_ucast_iff bit_MSTATUS)
  note V = push_value_bits [of ?m ?l, unfolded m]
  show "bit (reg_value MSTATUS (PushPrivilegeLevel s)) 3 = False"
    "bit (reg_value MSTATUS (PushPrivilegeLevel s)) 7 = bit (reg_value MSTATUS s) 3"
    unfolding bit_MSTATUS fl bit_SetMSTATUS V by simp_all
  have lvl: "?l = 0 \<or> ?l = 3" and old: "bit (csr_file s MSTATUS) 11 = bit (csr_file s MSTATUS) 12"
    using assms wf_mstatus_mpp [of s] by (simp_all add: wf_core_def)
  have "bit (csr_file (PushPrivilegeLevel s) MSTATUS) 11 = (if ?l = 3 then True else bit (csr_file s MSTATUS) 11)"
    "bit (csr_file (PushPrivilegeLevel s) MSTATUS) 12 = (if ?l = 3 then True else bit (csr_file s MSTATUS) 12)"
    unfolding fl bit_SetMSTATUS V using lvl old by auto
  then show "mpp (PushPrivilegeLevel s) = (if ?l = 3 then 3 else mpp s)"
    by (simp add: mpp_from_bits)
qed

lemma pop_value_bits:
  fixes m :: u32
  defines "v \<equiv> ucast ((m AND NOT 0x1888) OR push_bit 3 (drop_bit 7 m AND 1) OR push_bit 7 1) :: u64"
  shows "bit v 3 = bit m 7" "bit v 7 = True" "bit v 11 = False" "bit v 12 = False"
proof -
  have "(1 :: u32) = mask 1" by (simp add: mask_numeral)
  then show "bit v 3 = bit m 7" "bit v 7 = True" "bit v 11 = False" "bit v 12 = False"
    by (simp_all add: v_def bit_or_iff bit_and_iff bit_not_iff bit_ucast_iff bit_push_bit_iff bit_drop_bit_eq
        bit_mask_iff del: push_bit_and)
qed

lemma PopPrivilegeLevel_ok:
  "CurrentPrivilegeLevel (PopPrivilegeLevel s) = mpp s" "PC (PopPrivilegeLevel s) = PC s"
  "X (PopPrivilegeLevel s) = X s" "r \<noteq> MSTATUS \<Longrightarrow> reg_value r (PopPrivilegeLevel s) = reg_value r s"
  "bit (reg_value MSTATUS (PopPrivilegeLevel s)) 3 = bit (reg_value MSTATUS s) 7"
  "bit (reg_value MSTATUS (PopPrivilegeLevel s)) 7"
  "mpp (PopPrivilegeLevel s) = 0"
proof -
  let ?m = "ucast (reg_value MSTATUS s) :: u32"
  let ?v = "ucast ((?m AND NOT 0x1888) OR push_bit 3 (drop_bit 7 ?m AND 1) OR push_bit 7 1) :: u64"
  have pop: "PopPrivilegeLevel s = set_reg MSTATUS ?v (SetPrivilegeLevel (mpp s) s)"
    by (simp only: PopPrivilegeLevel_def Let_def SetMSTATUS_eq mpp_def)
  show "CurrentPrivilegeLevel (PopPrivilegeLevel s) = mpp s" "PC (PopPrivilegeLevel s) = PC s"
    "X (PopPrivilegeLevel s) = X s" "r \<noteq> MSTATUS \<Longrightarrow> reg_value r (PopPrivilegeLevel s) = reg_value r s"
    by (simp_all add: pop mpp_def and.assoc)
  have m: "bit ?m 7 = bit (reg_value MSTATUS s) 7"
    by (simp_all add: bit_ucast_iff bit_MSTATUS)
  note V = pop_value_bits [of ?m, unfolded m]
  show "bit (reg_value MSTATUS (PopPrivilegeLevel s)) 3 = bit (reg_value MSTATUS s) 7"
    "bit (reg_value MSTATUS (PopPrivilegeLevel s)) 7"
    unfolding bit_MSTATUS pop bit_SetMSTATUS V by simp_all
  have "\<not> bit (csr_file (PopPrivilegeLevel s) MSTATUS) 11" "\<not> bit (csr_file (PopPrivilegeLevel s) MSTATUS) 12"
    unfolding pop bit_SetMSTATUS V by simp_all
  then show "mpp (PopPrivilegeLevel s) = 0"
    by (simp add: mpp_from_bits)
qed

lemma wf_core_mpp: "wf_core s \<Longrightarrow> mpp s \<in> {0, 3}"
  using wf_mstatus_mpp [of s] by (auto simp: wf_core_def mpp_from_bits)

lemma wf_core_Pop: "wf_core s \<Longrightarrow> wf_core (PopPrivilegeLevel s)"
  using wf_core_mpp [of s]
  by (auto simp: PopPrivilegeLevel_def Let_def SetMSTATUS_eq simp flip: mpp_def intro!: wf_core_set_reg wf_core_level)

lemmas wf_core_intros = wf_core_set_reg wf_core_low_power wf_core_SetPC wf_core_Push wf_core_Pop

lemma wf_core_ProcessException: "wf_core s \<Longrightarrow> ProcessException e s = Inr s' \<Longrightarrow> wf_core s'"
  by (cases e) (auto simp: ProcessException_def take_interrupt_def Let_def intro!: wf_core_intros)

lemma wf_core_SetCSR: "wf_core s \<Longrightarrow> SetCSR c l v s = Inr s' \<Longrightarrow> wf_core s'"
  by (auto simp: SetCSR_def wf_core_set_reg split: sum.splits option.splits)

text \<open>Copying the register file ends with equal lists.\<close>

lemma foldl_copy_list:
  assumes "length (X s) = n" "length (X rhs) = n" "k \<le> n"
  shows "foldl (\<lambda>s i. if X s ! i \<noteq> X rhs ! i then s\<lparr>X := (X s)[i := X rhs ! i]\<rparr> else s) s [0..<k]
    = s\<lparr>X := take k (X rhs) @ drop k (X s)\<rparr>"
  using assms(3)
proof (induction k)
  case (Suc k)
  let ?xs = "take k (X rhs) @ drop k (X s)"
  have k: "k < length (X rhs)" "k < length (X s)" using Suc.prems assms by simp_all
  have "?xs[k := X rhs ! k] = take k (X rhs) @ (drop k (X s))[0 := X rhs ! k]"
    using k by (simp add: list_update_append)
  also have "(drop k (X s))[0 := X rhs ! k] = X rhs ! k # drop (Suc k) (X s)"
    using k(2) by (subst Cons_nth_drop_Suc [symmetric]) simp_all
  finally have upd: "?xs[k := X rhs ! k] = take (Suc k) (X rhs) @ drop (Suc k) (X s)"
    using k by (simp add: take_Suc_conv_app_nth)
  have "(if ?xs ! k \<noteq> X rhs ! k then s\<lparr>X := ?xs[k := X rhs ! k]\<rparr> else s\<lparr>X := ?xs\<rparr>) = s\<lparr>X := ?xs[k := X rhs ! k]\<rparr>"
  proof (cases "?xs ! k = X rhs ! k")
    case True
    then show ?thesis using list_update_id [of ?xs k] by (simp only: simp_thms if_True if_False)
  qed (simp only: simp_thms if_True)
  then show ?case using Suc.IH Suc.prems by (simp add: upd split del: if_split cong: if_cong)
qed simp

section \<open>Access control\<close>

lemma nibble_cases: "(w AND 0xf :: u32) \<in> {0, 1, 2, 3, 4, 5, 6, 7, 8, 9, 0xa, 0xb, 0xc, 0xd, 0xe, 0xf}"
proof -
  have "unat (w AND 0xf) \<le> 15" using word_and_le1 [of w "0xf"] by (simp add: word_le_nat_alt)
  then obtain n where n: "w AND 0xf = word_of_nat n" "n \<le> 15" using that [of "unat (w AND 0xf)"] by simp
  from n(2) have "n \<in> {0, 1, 2, 3, 4, 5, 6, 7, 8, 9, 10, 11, 12, 13, 14, 15}"
    by (simp only: insert_iff empty_iff) presburger
  then show ?thesis unfolding n(1) by (elim insertE emptyE) simp_all
qed

lemma csr_group_fields:
  "drop_bit 8 c AND 3 = (drop_bit 8 c AND 0xf) AND 3" "drop_bit 10 c AND 3 = drop_bit 2 (drop_bit 8 c AND 0xf)" for c :: u32
proof -
  have "drop_bit 2 (w AND 0xf) = drop_bit 2 w AND 3" for w :: u32 by (simp add: drop_bit_and)
  then show "drop_bit 10 c AND 3 = drop_bit 2 (drop_bit 8 c AND 0xf)" by simp
qed (simp add: and.assoc)

text \<open>What the architecture manual says: bits 9 and 8 are the least level, bits 11 and 10 both set mean read-only.\<close>

definition csr_access_allowed :: "u32 \<Rightarrow> u32 \<Rightarrow> bool \<Rightarrow> bool" where
  "csr_access_allowed c l w \<longleftrightarrow> drop_bit 8 c AND 3 \<le> l \<and> (w \<longrightarrow> drop_bit 10 c AND 3 \<noteq> 3)"

lemma ValidateCSRAccess_spec:
  assumes "l \<le> 3"
  shows "ValidateCSRAccess c l w =
    (if 0xfff < c then Inl RuntimeError
     else if csr_access_allowed c l w then Inr ()
     else Inl (SimExc ILLEGAL_INSTRUCTION_PRIVILEGED_CSR))"
proof -
  have l: "l = 3 \<longleftrightarrow> 3 \<le> l" using assms by auto
  obtain g where g: "drop_bit 8 c AND 0xf = g" by simp
  show ?thesis
    using nibble_cases [of "drop_bit 8 c"]
    unfolding ValidateCSRAccess_def csr_access_allowed_def csr_group_fields Let_def l g by auto
qed

lemma ValidateCSRAccess_cases:
  "ValidateCSRAccess c l w \<in> {Inr (), Inl RuntimeError, Inl (SimExc ILLEGAL_INSTRUCTION_PRIVILEGED_CSR)}"
  by (simp add: ValidateCSRAccess_def Let_def)

section \<open>Reading back what was written\<close>

lemma distinct_csr_table: "distinct (map snd csr_table)"
  by (simp add: csr_table_def)

lemma map_of_inj_snd:
  "distinct (map snd xs) \<Longrightarrow> map_of xs a = Some r \<Longrightarrow> map_of xs b = Some r \<Longrightarrow> a = b"
  by (induction xs) (auto dest!: map_of_SomeD split: if_splits simp: image_iff)

text \<open>
  The value a write leaves behind, as the next read shows it: the supported bits of the status
  register with a reserved previous privilege ignored, the supported bits of MISA with C stuck at
  one while the program counter is not word aligned, zero for the upper status word, the value itself otherwise.
\<close>

definition legal_value :: "csr_reg \<Rightarrow> u64 \<Rightarrow> RiscvState \<Rightarrow> u64" where
  "legal_value r v s =
     (case r of
        MSTATUS \<Rightarrow> (if v AND 0x1800 = 0 \<or> v AND 0x1800 = 0x1800 then v AND 0x221e9d
                    else (v AND 0x22069d) OR (reg_value MSTATUS s AND 0x1800))
      | MISA \<Rightarrow> (v AND DEFINED_MISA_VALUE) OR (if CompressedExtensionEnabled s \<and> PC s AND 3 \<noteq> 0 then 4 else 0)
      | MSTATUSH \<Rightarrow> 0
      | _ \<Rightarrow> v)"

lemma bit_221e9d: "bit (0x7fa21e9d :: u64) k \<and> bit (0x807fffff :: u64) k \<longleftrightarrow> bit (0x221e9d :: u64) k"
  unfolding bit_and_iff [symmetric] by (simp del: bit_numeral_word_iff)

lemma bit_22069d: "bit (0x22069d :: u64) k \<longleftrightarrow> bit (0x221e9d :: u64) k \<and> k \<noteq> 11 \<and> k \<noteq> 12"
proof -
  have "(0x22069d :: u64) = 0x221e9d AND NOT 0x1800" by simp
  then show ?thesis
    by (simp only: bit_and_iff bit_not_iff bit_1800) (auto dest: bit_imp_le_length)
qed

lemma reg_value_set_reg: "reg_value r (set_reg r v s) = legal_value r v s"
proof (cases "plain_reg r")
  case True
  then show ?thesis by (cases r) (simp_all add: legal_value_def plain_reg_def)
next
  case False
  then consider "r = MSTATUS" | "r = MISA" | "r = MSTATUSH" by (auto simp: plain_reg_def)
  then show ?thesis
  proof cases
    case 1
    have "bit (reg_value MSTATUS (set_reg MSTATUS v s)) k = bit (legal_value MSTATUS v s) k" for k
      unfolding legal_value_def csr_reg.case mpp_wf
      using bit_221e9d [of k] bit_22069d [of k] bit_1800 [of k]
      by (auto simp: bit_MSTATUS bit_SetMSTATUS bit_or_iff bit_and_iff simp del: bit_numeral_word_iff)
    then show ?thesis unfolding 1 by (rule bit_word_eqI)
  next
    case 2
    then show ?thesis
      by (simp add: legal_value_def set_reg_def SetMISA_def CompressedExtensionEnabled_def Let_def reg_value_def)
  next
    case 3
    then show ?thesis
      by (simp add: legal_value_def set_reg_def SetMSTATUSH_def reg_value_def and.assoc)
  qed
qed

lemma csr_read_only_set_reg [simp]: "csr_read_only c (set_reg r v s) = csr_read_only c s"
  by (simp add: csr_read_only_def)

section \<open>Trap entry and return\<close>

definition sync_trap :: "SIM_EXCEPTIONS \<Rightarrow> bool" where
  "sync_trap e \<longleftrightarrow> e \<in> {ENV_CALL_UMODE, ENV_CALL_MMODE, INSTRUCTION_ADDRESS_MISALIGNED,
     ILLEGAL_INSTRUCTION_UNKNOWN_INSTR, ILLEGAL_INSTRUCTION_UNIMPL_INSTR, ILLEGAL_INSTRUCTION_PRIVILEGED_INSTR,
     ILLEGAL_INSTRUCTION_UNKNOWN_CSR, ILLEGAL_INSTRUCTION_PRIVILEGED_CSR}"

text \<open>The exception codes of the architecture.\<close>

definition trap_code :: "SIM_EXCEPTIONS \<Rightarrow> u64" where
  "trap_code e = (if e = INSTRUCTION_ADDRESS_MISALIGNED then 0 else if e = ENV_CALL_UMODE then 8
     else if e = ENV_CALL_MMODE then 11 else 2)"

text \<open>Entry into machine mode: the status stack is pushed, the registers outside the trap set are kept.\<close>

definition entered_machine_mode :: "RiscvState \<Rightarrow> RiscvState \<Rightarrow> bool" where
  "entered_machine_mode s s' \<longleftrightarrow>
     CurrentPrivilegeLevel s' = 3 \<and> X s' = X s \<and> reg_value MEPC s' = PC s \<and>
     \<not> bit (reg_value MSTATUS s') 3 \<and> bit (reg_value MSTATUS s') 7 = bit (reg_value MSTATUS s) 3 \<and>
     mpp s' = (if CurrentPrivilegeLevel s = 3 then 3 else mpp s) \<and>
     (\<forall>r. r \<notin> {MSTATUS, MEPC, MCAUSE, MTVAL, MIP} \<longrightarrow> reg_value r s' = reg_value r s)"

lemma MSTATUS_kept [simp]: "r \<noteq> MSTATUS \<Longrightarrow> mpp (set_reg r v s) = mpp s" "mpp (RiscvState_SetPC a s) = mpp s"
    "mpp (ClearLowPowerMode s) = mpp s"
  by (simp_all add: mpp_def)

definition trap_entered :: "SIM_EXCEPTIONS \<Rightarrow> RiscvState \<Rightarrow> RiscvState \<Rightarrow> bool" where
  "trap_entered e s s' \<longleftrightarrow>
     entered_machine_mode s s' \<and> PC s' = reg_value MTVEC s \<and> reg_value MCAUSE s' = trap_code e \<and>
     reg_value MTVAL s' = (if e = INSTRUCTION_ADDRESS_MISALIGNED then reg_value MTVAL s else 0) \<and>
     reg_value MIP s' = reg_value MIP s \<and> LowPowerMode s' = LowPowerMode s"

text \<open>
  What every trap from a well-formed core guarantees: as above, but the previous level is only said to
  be saved where it is, for a trap from machine mode or with the previous-privilege field at user mode
  already (\<open>user_trap_escalates\<close> is the other case).
\<close>

definition trap_taken :: "SIM_EXCEPTIONS \<Rightarrow> RiscvState \<Rightarrow> RiscvState \<Rightarrow> bool" where
  "trap_taken e s s' \<longleftrightarrow>
     CurrentPrivilegeLevel s' = 3 \<and> PC s' = reg_value MTVEC s \<and> reg_value MEPC s' = PC s \<and> reg_value MCAUSE s' = trap_code e \<and>
     \<not> bit (reg_value MSTATUS s') 3 \<and> bit (reg_value MSTATUS s') 7 = bit (reg_value MSTATUS s) 3 \<and>
     (CurrentPrivilegeLevel s = 3 \<or> mpp s = 0 \<longrightarrow> mpp s' = CurrentPrivilegeLevel s) \<and>
     reg_value MTVAL s' = (if e = INSTRUCTION_ADDRESS_MISALIGNED then reg_value MTVAL s else 0) \<and>
     LowPowerMode s' = LowPowerMode s \<and> X s' = X s \<and>
     (\<forall>r. r \<notin> {MSTATUS, MEPC, MCAUSE, MTVAL} \<longrightarrow> reg_value r s' = reg_value r s)"

lemma trap_entered_taken:
  assumes "trap_entered e s s'" "CurrentPrivilegeLevel s \<in> {0, 3}"
  shows "trap_taken e s s'"
proof -
  have "reg_value r s' = reg_value r s" if "r \<notin> {MSTATUS, MEPC, MCAUSE, MTVAL}" for r
    using assms(1) that by (cases "r = MIP") (simp_all add: trap_entered_def entered_machine_mode_def)
  then show ?thesis
    using assms by (auto simp: trap_taken_def trap_entered_def entered_machine_mode_def)
qed

lemma LowPowerMode_Push: "LowPowerMode (PushPrivilegeLevel s) = LowPowerMode s"
proof -
  have "((m AND NOT 3) OR 3) AND 0x10 = m AND 0x10" for m :: u32
    by (simp add: bit.conj_disj_distrib2 and.assoc)
  then show ?thesis
    by (simp add: LowPowerMode_def PushPrivilegeLevel_def Let_def SetMSTATUS_eq SetPrivilegeLevel_def MACHINE_MODE_def)
qed

lemma LowPowerMode_kept [simp]:
  "LowPowerMode (set_reg r v s) = LowPowerMode s" "LowPowerMode (RiscvState_SetPC a s) = LowPowerMode s"
  by (simp_all add: LowPowerMode_def)

lemma trap_entry_ok:
  assumes wf: "wf_core s" and e: "sync_trap e"
  shows "\<exists>s'. ProcessException e s = Inr s' \<and> trap_entered e s s'"
proof -
  note W = wf wf_core_set_reg [OF wf, of MCAUSE] wf_core_set_reg [OF wf_core_set_reg [OF wf, of MCAUSE], of MTVAL]
  note P = W [THEN PushPrivilegeLevel_ok(1)] W [THEN PushPrivilegeLevel_ok(2)] W [THEN PushPrivilegeLevel_ok(3)]
    W [THEN PushPrivilegeLevel_ok(4)] W [THEN PushPrivilegeLevel_ok(5)] W [THEN PushPrivilegeLevel_ok(6)]
    W [THEN PushPrivilegeLevel_ok(7)] LowPowerMode_Push
  from e show ?thesis
    unfolding sync_trap_def
    by (elim insertE emptyE)
      (simp_all add: ProcessException_def Let_def trap_entered_def entered_machine_mode_def P trap_code_def)
qed

lemma trap_taken_ok:
  assumes "wf_core s" "sync_trap e"
  shows "\<exists>s'. ProcessException e s = Inr s' \<and> trap_taken e s s'"
  using trap_entry_ok [OF assms] trap_entered_taken [of e s] assms(1) by (auto simp: wf_core_def)

text \<open>Return from a trap: the status stack is popped.\<close>

lemma MRET_ok:
  "\<exists>s'. ProcessException PROCESS_MRET s = Inr s' \<and> CurrentPrivilegeLevel s' = mpp s \<and>
     bit (reg_value MSTATUS s') 3 = bit (reg_value MSTATUS s) 7 \<and> bit (reg_value MSTATUS s') 7 \<and> mpp s' = 0 \<and>
     X s' = X s \<and> (\<forall>r. r \<noteq> MSTATUS \<longrightarrow> reg_value r s' = reg_value r s) \<and>
     PC s' = (if CompressedExtensionEnabled s then reg_value MEPC s else reg_value MEPC s AND NOT 3)"
  by (simp add: ProcessException_def Let_def PopPrivilegeLevel_ok CompressedExtensionEnabled_def)

text \<open>Interrupts: the external one first, each only if pending and enabled.\<close>

lemma drop_bit_and_1: "drop_bit k w AND 1 \<noteq> 0 \<longleftrightarrow> bit w k" for w :: "'l::len word"
  by (simp add: bit_iff_odd_drop_bit and_one_eq odd_iff_mod_2_eq_one)

lemma InterruptPending_iff:
  "InterruptPending s =
    (if bit (reg_value MSTATUS s) 3 then
       if bit (reg_value MIP s) 11 \<and> bit (reg_value MIE s) 11 then Some MACHINE_EXTERNAL_INT
       else if bit (reg_value MIP s) 7 \<and> bit (reg_value MIE s) 7 then Some MACHINE_TIMER_INT
       else None
     else None)"
proof -
  have "w AND 8 \<noteq> 0 \<longleftrightarrow> bit w 3" for w :: u64
  proof -
    have "w AND 8 = (if bit w 3 then 8 else 0)"
      by (rule bit_word_eqI) (auto simp: bit_simps bit_numeral_rec numeral_eq_Suc split: nat.splits intro!: gr0I)
    then show ?thesis by simp
  qed
  then have "GlobalInterruptsEnabled s \<longleftrightarrow> bit (reg_value MSTATUS s) 3"
    by (simp add: GlobalInterruptsEnabled_def)
  then show ?thesis
    unfolding InterruptPending_def Let_def drop_bit_and_1 by auto
qed

lemma reg_value_take:
  assumes "wf_core s" and "s1 = set_reg MIP v s"
  defines "s2 \<equiv> PushPrivilegeLevel (ClearLowPowerMode s1)"
  shows "CurrentPrivilegeLevel s2 = 3" "PC s2 = PC s" "X s2 = X s" "\<not> LowPowerMode s2"
    "r \<noteq> MSTATUS \<Longrightarrow> r \<noteq> MIP \<Longrightarrow> reg_value r s2 = reg_value r s" "reg_value MIP s2 = v"
    "\<not> bit (reg_value MSTATUS s2) 3" "bit (reg_value MSTATUS s2) 7 = bit (reg_value MSTATUS s) 3"
    "mpp s2 = (if CurrentPrivilegeLevel s = 3 then 3 else mpp s)"
proof -
  have wf: "wf_core (ClearLowPowerMode s1)" using assms by (simp add: wf_core_intros)
  have "\<not> LowPowerMode (ClearLowPowerMode s1)"
    by (simp add: LowPowerMode_def ClearLowPowerMode_def and.assoc)
  then show "\<not> LowPowerMode s2" by (simp add: s2_def LowPowerMode_Push)
  show "CurrentPrivilegeLevel s2 = 3" "PC s2 = PC s" "X s2 = X s"
    "r \<noteq> MSTATUS \<Longrightarrow> r \<noteq> MIP \<Longrightarrow> reg_value r s2 = reg_value r s" "reg_value MIP s2 = v"
    "\<not> bit (reg_value MSTATUS s2) 3" "bit (reg_value MSTATUS s2) 7 = bit (reg_value MSTATUS s) 3"
    "mpp s2 = (if CurrentPrivilegeLevel s = 3 then 3 else mpp s)"
    unfolding s2_def using PushPrivilegeLevel_ok [OF wf] by (simp_all add: assms(2))
qed

definition int_code :: "SIM_EXCEPTIONS \<Rightarrow> nat" where
  "int_code e = (if e = MACHINE_TIMER_INT then 7 else 11)"

definition interrupt_entered :: "SIM_EXCEPTIONS \<Rightarrow> RiscvState \<Rightarrow> RiscvState \<Rightarrow> bool" where
  "interrupt_entered e s s' \<longleftrightarrow>
     entered_machine_mode s s' \<and> PC s' = reg_value MTVEC s + 4 * of_nat (int_code e) \<and>
     reg_value MCAUSE s' = 0x80000000 + of_nat (int_code e) \<and> reg_value MTVAL s' = 0 \<and>
     (\<forall>k. bit (reg_value MIP s') k \<longleftrightarrow> bit (reg_value MIP s) k \<and> k \<noteq> int_code e) \<and> \<not> LowPowerMode s' \<and>
     InterruptPending s' = None"

lemma bit_and_not_push: "bit (w AND NOT (push_bit n 1)) k \<longleftrightarrow> bit w k \<and> k \<noteq> n" for w :: "'l::len word"
  by (auto simp: bit_simps dest: bit_imp_le_length)

lemma interrupt_entry_ok:
  assumes wf: "wf_core s" and e: "e \<in> {MACHINE_TIMER_INT, MACHINE_EXTERNAL_INT}"
  shows "\<exists>s'. ProcessInterrupt e s = Inr s' \<and> interrupt_entered e s s'"
proof -
  have P: "ProcessInterrupt e s = Inr (take_interrupt (int_code e) e s)"
    using e by (auto simp: ProcessInterrupt_def ProcessException_def int_code_def)
  have "e = MACHINE_TIMER_INT \<or> e = MACHINE_EXTERNAL_INT" using e by simp
  then have c: "ucast ((enum_value e AND 0xf) OR 0x80000000) = (0x80000000 + of_nat (int_code e) :: u64)"
    "(0x80000000 + of_nat (int_code e) AND 0xfffffff) * 4 = (4 * of_nat (int_code e) :: u64)"
    by (auto simp: int_code_def)
  define v where "v = reg_value MIP s AND NOT (push_bit (int_code e) 1)"
  have mip: "bit v k \<longleftrightarrow> bit (reg_value MIP s) k \<and> k \<noteq> int_code e" for k
    unfolding v_def by (rule bit_and_not_push)
  note R = reg_value_take [OF wf refl, where v = v]
  have "interrupt_entered e s (take_interrupt (int_code e) e s)"
    unfolding take_interrupt_def Let_def v_def [symmetric]
    by (simp add: interrupt_entered_def entered_machine_mode_def c R InterruptPending_iff mip)
  with P show ?thesis by blast
qed

section \<open>Copying states\<close>

lemma update_reg_fields [simp]:
  "PC (update_reg rhs s r) = PC s" "X (update_reg rhs s r) = X s" "machine_state (update_reg rhs s r) = machine_state s"
  "end_test (update_reg rhs s r) = end_test s" "st_id (update_reg rhs s r) = st_id s" "st_asid (update_reg rhs s r) = st_asid s"
  "is_secure (update_reg rhs s r) = is_secure s" "st_clock (update_reg rhs s r) = st_clock s"
  "instr_count (update_reg rhs s r) = instr_count s" "st_timer (update_reg rhs s r) = st_timer s"
  "local_monitor (update_reg rhs s r) = local_monitor s"
  by (simp_all add: update_reg_def)

lemma update_regs_fields [simp]:
  "PC (foldl (update_reg rhs) s rs) = PC s" "X (foldl (update_reg rhs) s rs) = X s"
  "machine_state (foldl (update_reg rhs) s rs) = machine_state s" "end_test (foldl (update_reg rhs) s rs) = end_test s"
  "st_id (foldl (update_reg rhs) s rs) = st_id s" "st_asid (foldl (update_reg rhs) s rs) = st_asid s"
  "is_secure (foldl (update_reg rhs) s rs) = is_secure s" "st_clock (foldl (update_reg rhs) s rs) = st_clock s"
  "instr_count (foldl (update_reg rhs) s rs) = instr_count s" "st_timer (foldl (update_reg rhs) s rs) = st_timer s"
  "local_monitor (foldl (update_reg rhs) s rs) = local_monitor s"
  by (induction rs arbitrary: s) simp_all

lemma legal_value_cong: "reg_value r s = reg_value r t \<Longrightarrow> PC s = PC t \<Longrightarrow> legal_value r v s = legal_value r v t"
  by (cases r) (simp_all add: legal_value_def CompressedExtensionEnabled_def)

lemma reg_value_update_reg:
  "reg_value r (update_reg rhs s r') =
    (if r = r' \<and> reg_value r s \<noteq> reg_value r rhs then legal_value r (reg_value r rhs) s else reg_value r s)"
  by (cases "r = r'") (auto simp: update_reg_def reg_value_set_reg)

lemma reg_value_update_regs:
  "distinct rs \<Longrightarrow> reg_value r (foldl (update_reg rhs) s rs) =
    (if r \<in> set rs \<and> reg_value r s \<noteq> reg_value r rhs then legal_value r (reg_value r rhs) s else reg_value r s)"
proof (induction rs arbitrary: s)
  case (Cons q rs)
  then show ?case
    using legal_value_cong [of r "update_reg rhs s q" s "reg_value r rhs"]
    by (auto simp: reg_value_update_reg)
qed simp

lemma or_eq_of_and_eq: "m AND k = k \<Longrightarrow> m OR k = m" for m k :: "'l::len word"
  by (auto simp: bit_eq_iff bit_simps)

text \<open>A register whose value a write keeps is copied.\<close>

lemma legal_value_wf:
  assumes "wf_core rhs" "r = MSTATUSH \<longrightarrow> reg_value MSTATUSH rhs = 0"
    "r = MISA \<longrightarrow> CompressedExtensionEnabled rhs \<or> PC s AND 3 = 0 \<or> \<not> CompressedExtensionEnabled s"
  shows "legal_value r (reg_value r rhs) s = reg_value r rhs"
proof (cases r)
  case MSTATUS
  let ?m = "reg_value MSTATUS rhs"
  have m: "wf_mstatus ?m" using assms(1) by (simp add: wf_core_def)
  have "bit (reg_value MSTATUS rhs AND 0x221e9d) k = bit (reg_value MSTATUS rhs) k" for k
    using m bit_221e9d [of k] by (auto simp: wf_mstatus_bits bit_MSTATUS bit_and_iff simp del: bit_numeral_word_iff)
  then have "reg_value MSTATUS rhs AND 0x221e9d = reg_value MSTATUS rhs" by (rule bit_word_eqI)
  moreover have "reg_value MSTATUS rhs AND 0x1800 = 0 \<or> reg_value MSTATUS rhs AND 0x1800 = 0x1800"
    using m unfolding wf_mstatus_def by simp
  ultimately show ?thesis by (auto simp: MSTATUS legal_value_def)
next
  case MISA
  let ?m = "reg_value MISA rhs"
  have "?m AND NOT DEFINED_MISA_VALUE = 0" using assms(1) by (simp add: wf_core_def reg_value_def)
  then have m: "?m AND DEFINED_MISA_VALUE = ?m"
    by (auto simp: and_not_eq_0_iff bit_and_iff intro!: bit_word_eqI)
  moreover have "?m OR 4 = ?m" if "CompressedExtensionEnabled rhs"
    using that unfolding CompressedExtensionEnabled_def by (rule or_eq_of_and_eq)
  ultimately show ?thesis using assms(3) by (auto simp: MISA legal_value_def)
qed (use assms in \<open>simp_all add: legal_value_def\<close>)

lemma update_order_ok: "distinct update_order" "r \<in> set update_order \<longleftrightarrow> r \<noteq> MCOUNTINHIBIT"
  by (simp add: update_order_def, cases r) (simp_all add: update_order_def)

lemma wf_core_status: "wf_core s \<Longrightarrow> reg_value MSTATUS s AND NOT 0x221e9d = 0"
  unfolding and_not_eq_0_iff
  using bit_221e9d by (auto simp: wf_core_def wf_mstatus_bits bit_MSTATUS simp del: bit_numeral_word_iff)

lemma csr_table_not_inhibit: "map_of csr_table c \<noteq> Some MCOUNTINHIBIT"
  by (auto simp: csr_table_def dest!: map_of_SomeD)

text \<open>An update is the base update, the control registers in order, and the general registers at once.\<close>

definition update_start :: "RiscvState \<Rightarrow> RiscvState \<Rightarrow> RiscvState" where
  "update_start rhs s = (State_Update rhs s)\<lparr>machine_state := machine_state rhs\<rparr>"

lemma update_start_fields [simp]:
  "X (update_start rhs s) = X s" "PC (update_start rhs s) = PC rhs" "machine_state (update_start rhs s) = machine_state rhs"
  "csr_file (update_start rhs s) = csr_file s" "end_test (update_start rhs s) = end_test rhs"
  "st_id (update_start rhs s) = st_id rhs" "st_clock (update_start rhs s) = st_clock rhs"
  "st_timer (update_start rhs s) = st_timer rhs" "instr_count (update_start rhs s) = instr_count rhs"
  "local_monitor (update_start rhs s) = local_monitor s" "reg_value r (update_start rhs s) = reg_value r s"
  by (simp_all add: update_start_def State_Update_def) (rule reg_value_cong, simp add: update_start_def State_Update_def)

lemma Update_shape:
  assumes "length (X rhs) = 32" "length (X s) = 32"
  shows "RiscvState_Update rhs s = (foldl (update_reg rhs) (update_start rhs s) update_order)\<lparr>X := X rhs\<rparr>"
  using foldl_copy_list [of "foldl (update_reg rhs) (update_start rhs s) update_order" 32 rhs 32] assms
  by (simp add: RiscvState_Update_def Let_def flip: update_start_def)

lemma Update_fields:
  assumes "length (X rhs) = 32" "length (X s) = 32"
  shows "X (RiscvState_Update rhs s) = X rhs" "PC (RiscvState_Update rhs s) = PC rhs"
    "machine_state (RiscvState_Update rhs s) = machine_state rhs" "end_test (RiscvState_Update rhs s) = end_test rhs"
    "local_monitor (RiscvState_Update rhs s) = local_monitor s"
    "LowPowerMode (RiscvState_Update rhs s) = LowPowerMode rhs"
  by (simp_all add: Update_shape [OF assms] LowPowerMode_def)

text \<open>A well-formed core stays so when it takes over another state with legal registers and privilege.\<close>

lemma wf_core_update_regs: "wf_core s \<Longrightarrow> wf_core (foldl (update_reg rhs) s rs)"
  by (induction rs arbitrary: s) (simp_all add: update_reg_def wf_core_set_reg)

lemma wf_core_Update:
  assumes "wf_core s" "length (X rhs) = 32" "X rhs ! 0 = 0" "CurrentPrivilegeLevel rhs \<in> {0, 3}"
  shows "wf_core (RiscvState_Update rhs s)"
proof -
  have x: "length (X s) = 32" using assms(1) by (simp add: wf_core_def)
  have "wf_core (update_start rhs s)" using assms(1,4) by (simp add: wf_core_def CurrentPrivilegeLevel_def)
  then have "wf_core (foldl (update_reg rhs) (update_start rhs s) update_order)" by (rule wf_core_update_regs)
  then show ?thesis using assms(2,3) by (simp add: Update_shape [OF assms(2) x] wf_core_def CurrentPrivilegeLevel_def)
qed

text \<open>A copy of a well-formed core is well-formed, whatever the object held before.\<close>

lemma reg_value_copy:
  assumes "wf_core rhs" "length (X s) = 32" "r \<noteq> MCOUNTINHIBIT" "r \<noteq> MSTATUSH" "r \<noteq> MISA"
  shows "reg_value r (RiscvState_Update rhs s) = reg_value r rhs"
  using assms legal_value_wf [OF assms(1), of r "update_start rhs s"]
  by (simp add: Update_shape wf_core_def reg_value_update_regs update_order_ok)

lemma wf_core_copy:
  assumes "wf_core rhs" "length (X s) = 32"
  shows "wf_core (RiscvState_Update rhs s)"
proof -
  have x: "length (X rhs) = 32" using assms(1) by (simp add: wf_core_def)
  let ?u = "RiscvState_Update rhs s"
  have "csr_file ?u MISA = reg_value MISA (foldl (update_reg rhs) (update_start rhs s) update_order)"
    by (simp add: Update_shape [OF x assms(2)] reg_value_def)
  also have "\<dots> \<in> {reg_value MISA rhs, legal_value MISA (reg_value MISA rhs) (update_start rhs s)}"
    by (simp add: reg_value_update_regs update_order_ok)
  finally have "csr_file ?u MISA AND NOT DEFINED_MISA_VALUE = 0"
    using assms(1) wf_SetMISA [of "reg_value MISA rhs" "update_start rhs s"] reg_value_set_reg [of MISA "reg_value MISA rhs" "update_start rhs s"]
    by (auto simp: wf_core_def reg_value_def set_reg_def)
  then show ?thesis
    using assms(1) reg_value_copy [OF assms, of MSTATUS] Update_fields [OF x assms(2)]
    by (simp add: wf_core_def CurrentPrivilegeLevel_def)
qed

section \<open>Reachable states\<close>

text \<open>
  What the other parts of the simulator do to a core: register writes and jumps of instructions,
  control register writes, traps, device signals, and the end of the test.
\<close>

inductive core_step :: "RiscvState \<Rightarrow> RiscvState \<Rightarrow> bool" where
  step_gp: "core_step s (SetGP r v s)"
| step_sp: "core_step s (SetSP v s)"
| step_fp: "core_step s (SetFP v s)"
| step_pc: "core_step s (RiscvState_SetPC a s)"
| step_csr: "SetCSR c l v s = Inr s' \<Longrightarrow> core_step s s'"
| step_trap: "ProcessException e s = Inr s' \<Longrightarrow> core_step s s'"
| step_signal: "core_step s (Signal e s)"
| step_misaligned: "core_step s (RecordMisalignedAddress a s)"
| step_end: "core_step s (SetEndTest b s)"

inductive_cases core_stepE: "core_step s s'"

text \<open>
  The constructor sets the registers, the level and MISA and leaves the other control registers as
  it finds them, MSTATUS with the word \<open>m\<close>, which may be anything.
\<close>

inductive core_reachable :: "u64 \<Rightarrow> RiscvState \<Rightarrow> bool" for m where
  reach_new: "csrs MSTATUS = m \<Longrightarrow> core_reachable m (RiscvState_new a csrs)"
| reach_step: "core_reachable m s \<Longrightarrow> core_step s s' \<Longrightarrow> core_reachable m s'"

lemma wf_core_new: "wf_mstatus (csrs MSTATUS AND 0x807fffff) \<Longrightarrow> wf_core (RiscvState_new a csrs)"
proof -
  assume m: "wf_mstatus (csrs MSTATUS AND 0x807fffff)"
  let ?s = "State.extend (State_new\<lparr>PC := a\<rparr>) \<lparr>machine_state = MACHINE_MODE, X = replicate 32 0, csr_file = csrs\<rparr>"
  have "csr_file (SetMISA v ?s) MSTATUS = csrs MSTATUS" "X (SetMISA v ?s) = replicate 32 0"
    "machine_state (SetMISA v ?s) = 3" for v
    by (simp_all add: SetMISA_def Let_def State.defs MACHINE_MODE_def)
  then show ?thesis
    using m wf_SetMISA by (simp add: wf_core_def RiscvState_new_def CurrentPrivilegeLevel_def reg_value_def)
qed

lemma wf_core_step: "core_step s s' \<Longrightarrow> wf_core s \<Longrightarrow> wf_core s'"
proof (induction rule: core_step.induct)
  case (step_sp s v)
  then show ?case by (simp add: wf_core_def SetSP_def CurrentPrivilegeLevel_def)
next
  case (step_fp s v)
  then show ?case by (simp add: wf_core_def SetFP_def CurrentPrivilegeLevel_def)
next
  case (step_signal s e)
  then show ?case by (cases e) (simp_all add: Signal_def wf_core_set_reg)
next
  case (step_end s b)
  then show ?case by (simp add: wf_core_def SetEndTest_def CurrentPrivilegeLevel_def)
qed (auto intro: wf_core_SetGP wf_core_SetPC wf_core_SetCSR wf_core_ProcessException
    simp: RecordMisalignedAddress_def wf_core_set_reg)

lemma wf_core_reachable: "core_reachable m s \<Longrightarrow> wf_mstatus (m AND 0x807fffff) \<Longrightarrow> wf_core s"
  by (induction rule: core_reachable.induct) (auto intro: wf_core_new wf_core_step)

text \<open>Whatever MSTATUS held at first: the part of the invariant on the general registers and MISA.\<close>

definition wf_regs :: "RiscvState \<Rightarrow> bool" where
  "wf_regs s \<longleftrightarrow> length (X s) = 32 \<and> X s ! 0 = 0 \<and> csr_file s MISA AND NOT DEFINED_MISA_VALUE = 0"

lemma wf_regs_kept [intro!]:
  "wf_regs s \<Longrightarrow> wf_regs (set_reg r v s)" "wf_regs s \<Longrightarrow> wf_regs (SetPrivilegeLevel l s)"
  "wf_regs s \<Longrightarrow> wf_regs (ClearLowPowerMode s)" "wf_regs s \<Longrightarrow> wf_regs (SetLowPowerMode s)"
  "wf_regs s \<Longrightarrow> wf_regs (RiscvState_SetPC a s)"
proof -
  have "csr_file (set_reg r v s) MISA AND NOT DEFINED_MISA_VALUE = 0" if "wf_regs s"
    using that wf_SetMISA [of v s] by (cases "r = MISA") (auto simp: wf_regs_def set_reg_def [of MISA])
  then show "wf_regs s \<Longrightarrow> wf_regs (set_reg r v s)" by (simp add: wf_regs_def)
qed (simp_all add: wf_regs_def)

lemma wf_regs_stack [intro!]:
  "wf_regs s \<Longrightarrow> wf_regs (PushPrivilegeLevel s)" "wf_regs s \<Longrightarrow> wf_regs (PopPrivilegeLevel s)"
  by (auto simp: PushPrivilegeLevel_def PopPrivilegeLevel_def Let_def SetMSTATUS_eq)

lemma wf_regs_trap [intro]: "wf_regs s \<Longrightarrow> ProcessException e s = Inr s' \<Longrightarrow> wf_regs s'"
  by (cases e) (auto simp: ProcessException_def take_interrupt_def Let_def)

lemma wf_regs_gp [intro!]: "wf_regs s \<Longrightarrow> wf_regs (SetGP r v s)"
  by (auto simp: wf_regs_def SetGP_def nth_list_update word_gt_0 unat_eq_zero)

lemma wf_regs_step: "core_step s s' \<Longrightarrow> wf_regs s \<Longrightarrow> wf_regs s'"
proof (induction rule: core_step.induct)
  case (step_csr c l v s s')
  then show ?case by (auto simp: SetCSR_def split: sum.splits option.splits)
next
  case (step_signal s e)
  then show ?case by (cases e) (auto simp: Signal_def)
next
  case (step_sp s v)
  then show ?case by (simp add: wf_regs_def SetSP_def)
next
  case (step_fp s v)
  then show ?case by (simp add: wf_regs_def SetFP_def)
next
  case (step_end s b)
  then show ?case by (simp add: wf_regs_def SetEndTest_def)
qed (auto simp: RecordMisalignedAddress_def)

lemma wf_regs_new: "wf_regs (RiscvState_new a csrs)"
  using wf_SetMISA by (simp add: wf_regs_def RiscvState_new_def) (simp add: SetMISA_def Let_def State.defs)

lemma wf_regs_reachable: "core_reachable m s \<Longrightarrow> wf_regs s"
  by (induction rule: core_reachable.induct) (auto intro: wf_regs_new wf_regs_step)

section \<open>Properties\<close>

text \<open>
  Access to a control register at a level of at most machine mode is allowed exactly when the
  level is at least the one coded in bits 9 and 8 of its address and, for a write, bits 11 and 10
  are not both set; a refused access is an illegal instruction, an address over 12 bits a simulator error.
\<close>

theorem csr_access_rule:
  assumes "l \<le> 3"
  shows "ValidateCSRAccess c l w =
    (if 0xfff < c then Inl RuntimeError
     else if drop_bit 8 c AND 3 \<le> l \<and> (w \<longrightarrow> drop_bit 10 c AND 3 \<noteq> 3) then Inr ()
     else Inl (SimExc ILLEGAL_INSTRUCTION_PRIVILEGED_CSR))"
  unfolding ValidateCSRAccess_spec [OF assms] csr_access_allowed_def ..

theorem csr_access_rule_witness:
  "(0 :: u32) \<le> 3 \<and> ValidateCSRAccess 0x341 0 False = Inl (SimExc ILLEGAL_INSTRUCTION_PRIVILEGED_CSR)"
  using csr_access_rule [of 0 "0x341" False] by simp

text \<open>
  C12. A successful write of a control register is read back, at any level the write was allowed at,
  as the legalised value: unsupported status bits are dropped, a reserved previous privilege is
  ignored, MISA keeps its supported bits with C stuck while the program counter is not word
  aligned, the upper status word reads as zero, every other register holds the value written.
  All other control registers, the program counter and the general registers are unchanged.
\<close>

theorem csr_read_after_write:
  assumes "SetCSR c l v s = Inr s'"
  shows "(\<exists>r. map_of csr_table c = Some r \<and> (l \<le> 3 \<longrightarrow> CSR c l s' = Inr (legal_value r v s))) \<and>
    (\<forall>c' l'. c' \<noteq> c \<longrightarrow> CSR c' l' s' = CSR c' l' s) \<and> PC s' = PC s \<and> X s' = X s"
proof -
  obtain r where r: "map_of csr_table c = Some r" and s': "s' = set_reg r v s" and ok: "ValidateCSRAccess c l True = Inr ()"
    using assms by (auto simp: SetCSR_def split: sum.splits option.splits)
  have "CSR c l s' = Inr (legal_value r v s)" if "l \<le> 3"
    using ok that r s' by (auto simp: CSR_def ValidateCSRAccess_spec csr_access_allowed_def reg_value_set_reg split: if_splits)
  moreover have "CSR c' l' s' = CSR c' l' s" if "c' \<noteq> c" for c' l'
    using map_of_inj_snd [OF distinct_csr_table r, of c'] that
    by (auto simp: CSR_def s' split: sum.splits option.splits intro!: reg_value_set_other)
  ultimately show ?thesis using r s' by simp
qed

definition demo_core :: RiscvState where
  "demo_core = RiscvState_new 0x1000 (\<lambda>r. if r = MTVEC then 0x200 else 0)"

theorem csr_read_after_write_witness:
  "(\<exists>s'. SetCSR 0x300 3 0x1808 demo_core = Inr s' \<and> CSR 0x300 3 s' = Inr 0x1808 \<and> CSR 0x305 3 s' = CSR 0x305 3 demo_core)"
proof -
  have v: "ValidateCSRAccess 0x300 3 True = Inr ()" by (simp add: ValidateCSRAccess_def)
  have r: "map_of csr_table 0x300 = Some MSTATUS" by (simp add: csr_table_def)
  then have s: "SetCSR 0x300 3 0x1808 demo_core = Inr (set_reg MSTATUS 0x1808 demo_core)"
    by (simp add: SetCSR_def v)
  from csr_read_after_write [OF s] r show ?thesis
    by (simp add: s legal_value_def)
qed

text \<open>
  C10. In every state a core can reach, whatever its control registers held before the constructor
  ran, register x0 is zero and reads as zero, there are 32 registers and MISA holds only supported
  bits. The constructor does not set MSTATUS; if the word found there has only supported bits and a
  previous privilege of user or machine mode, then so has MSTATUS in every reachable state and the
  current privilege is user or machine mode.
\<close>

theorem core_reachable_invariant:
  assumes "core_reachable m s"
  shows "length (X s) = 32 \<and> X s ! 0 = 0 \<and> GP 0 s = 0 \<and> csr_file s MISA AND NOT DEFINED_MISA_VALUE = 0 \<and>
    (wf_mstatus (m AND 0x807fffff) \<longrightarrow>
      CurrentPrivilegeLevel s \<in> {0, 3} \<and> mpp s \<in> {0, 3} \<and> reg_value MSTATUS s AND NOT 0x221e9d = 0)"
  using wf_regs_reachable [OF assms] wf_core_reachable [OF assms] wf_core_mpp [of s] wf_core_status [of s]
  by (auto simp add: wf_regs_def wf_core_def GP_def simp del: insert_iff)

lemma demo_reachable: "core_reachable 0 demo_core"
  unfolding demo_core_def by (rule reach_new) simp

theorem core_reachable_invariant_witness:
  "core_reachable 0 (SetGP 0 7 demo_core) \<and> wf_mstatus (0 AND 0x807fffff) \<and> GP 0 (SetGP 0 7 demo_core) = 0 \<and>
   CurrentPrivilegeLevel (SetGP 0 7 demo_core) \<in> {0, 3}"
proof -
  have r: "core_reachable 0 (SetGP 0 7 demo_core)"
    by (rule reach_step [OF demo_reachable step_gp])
  have m: "wf_mstatus (0 AND 0x807fffff)" by (simp add: wf_mstatus_def)
  from core_reachable_invariant [OF r] r m show ?thesis by blast
qed

text \<open>
  C7. A synchronous trap (environment call, misaligned target, illegal instruction) from a
  well-formed core enters machine mode at the trap vector with the program counter saved, the
  architecture's cause code, interrupts off and their old enable saved; every other control
  register and all general registers are kept. The level of before is saved in the
  previous-privilege field for a trap from machine mode, and for one from user mode if the field
  was at user mode already (otherwise it is not, \<open>user_trap_escalates\<close>). Other codes that are no
  interrupt, WFI or MRET are simulator errors.
\<close>

theorem trap_entry:
  assumes "wf_core s"
  shows "if sync_trap e then
      \<exists>s'. ProcessException e s = Inr s' \<and> PC s' = reg_value MTVEC s \<and> reg_value MEPC s' = PC s \<and>
        reg_value MCAUSE s' = trap_code e \<and> CurrentPrivilegeLevel s' = 3 \<and>
        \<not> bit (reg_value MSTATUS s') 3 \<and> bit (reg_value MSTATUS s') 7 = bit (reg_value MSTATUS s) 3 \<and>
        reg_value MTVAL s' = (if e = INSTRUCTION_ADDRESS_MISALIGNED then reg_value MTVAL s else 0) \<and>
        (CurrentPrivilegeLevel s = 3 \<or> mpp s = 0 \<longrightarrow> mpp s' = CurrentPrivilegeLevel s) \<and>
        LowPowerMode s' = LowPowerMode s \<and> X s' = X s \<and>
        (\<forall>r. r \<notin> {MSTATUS, MEPC, MCAUSE, MTVAL} \<longrightarrow> reg_value r s' = reg_value r s)
    else e \<in> {MACHINE_TIMER_INT, MACHINE_EXTERNAL_INT, PROCESS_WFI, PROCESS_MRET} \<or> ProcessException e s = Inl RuntimeError"
proof (cases "sync_trap e")
  case True
  from trap_taken_ok [OF assms this] obtain s' where "ProcessException e s = Inr s'" "trap_taken e s s'" by blast
  then show ?thesis
    using True unfolding trap_taken_def by auto
next
  case False
  then show ?thesis by (cases e) (simp_all add: sync_trap_def ProcessException_def)
qed

lemma demo_wf: "wf_core demo_core"
  by (rule wf_core_reachable [OF demo_reachable]) (simp add: wf_mstatus_def)

lemma demo_regs:
  "reg_value MTVEC demo_core = 0x200" "PC demo_core = 0x1000" "CurrentPrivilegeLevel demo_core = 3"
  by (simp_all add: demo_core_def RiscvState_new_def SetMISA_def reg_value_def State.defs State_new_def
      CurrentPrivilegeLevel_def MACHINE_MODE_def Let_def)

theorem trap_entry_witness:
  "wf_core demo_core \<and> (\<exists>s'. ProcessException ENV_CALL_MMODE demo_core = Inr s' \<and> PC s' = 0x200 \<and>
     reg_value MEPC s' = 0x1000 \<and> reg_value MCAUSE s' = 11)"
  using trap_entry [OF demo_wf, of ENV_CALL_MMODE] demo_wf
  by (auto simp: sync_trap_def demo_regs trap_code_def)

text \<open>
  C13. MRET after a trap brings the core back: the handler that leaves the trap registers alone
  returns to the trapping instruction (rounded down to a word when compressed instructions are
  off) with the interrupt enable of before. The privilege of before is restored for a trap from
  machine mode, and for a trap from user mode if the previous-privilege field was at user mode
  when the trap came, which is what MRET leaves there (\<open>user_trap_escalates\<close> is the other case).
\<close>

theorem trap_return:
  assumes "wf_core s" "sync_trap e"
  shows "\<exists>s' s''. ProcessException e s = Inr s' \<and> ProcessException PROCESS_MRET s' = Inr s'' \<and>
    PC s'' = (if CompressedExtensionEnabled s then PC s else PC s AND NOT 3) \<and> X s'' = X s \<and>
    bit (reg_value MSTATUS s'') 3 = bit (reg_value MSTATUS s) 3 \<and>
    (CurrentPrivilegeLevel s = 3 \<or> mpp s = 0 \<longrightarrow> CurrentPrivilegeLevel s'' = CurrentPrivilegeLevel s) \<and> mpp s'' = 0 \<and>
    (\<forall>r. r \<notin> {MSTATUS, MEPC, MCAUSE, MTVAL} \<longrightarrow> reg_value r s'' = reg_value r s)"
proof -
  from trap_taken_ok [OF assms] obtain s' where s': "ProcessException e s = Inr s'" "trap_taken e s s'" by blast
  from MRET_ok [of s'] obtain s'' where s'': "ProcessException PROCESS_MRET s' = Inr s''"
    "CurrentPrivilegeLevel s'' = mpp s'" "bit (reg_value MSTATUS s'') 3 = bit (reg_value MSTATUS s') 7"
    "X s'' = X s'" "\<forall>r. r \<noteq> MSTATUS \<longrightarrow> reg_value r s'' = reg_value r s'" "mpp s'' = 0"
    "PC s'' = (if CompressedExtensionEnabled s' then reg_value MEPC s' else reg_value MEPC s' AND NOT 3)"
    by auto
  have "CompressedExtensionEnabled s' = CompressedExtensionEnabled s"
    using s'(2) by (simp add: trap_taken_def CompressedExtensionEnabled_def)
  then show ?thesis
    using s'(1) s'(2) s'' unfolding trap_taken_def by (intro exI [of _ s'] exI [of _ s''] conjI) simp_all
qed

theorem trap_return_witness:
  "wf_core demo_core \<and> sync_trap ENV_CALL_MMODE \<and> (\<exists>s' s''. ProcessException ENV_CALL_MMODE demo_core = Inr s' \<and>
     ProcessException PROCESS_MRET s' = Inr s'' \<and> PC s'' = 0x1000 \<and> CurrentPrivilegeLevel s'' = 3)"
proof -
  have e: "sync_trap ENV_CALL_MMODE" by (simp add: sync_trap_def)
  from trap_return [OF demo_wf e] obtain s' s'' where s: "ProcessException ENV_CALL_MMODE demo_core = Inr s'"
    "ProcessException PROCESS_MRET s' = Inr s''" "CurrentPrivilegeLevel s'' = 3"
    "PC s'' = (if CompressedExtensionEnabled demo_core then 0x1000 else 0x1000 AND NOT 3)"
    unfolding demo_regs by (elim exE conjE) (simp only: simp_thms if_True)
  have "PC s'' = 0x1000" using s(4) by simp
  with s(1-3) demo_wf e show ?thesis by blast
qed

text \<open>
  C8. An interrupt is delivered only with the global enable on and when pending and enabled, the
  external one before the timer; delivering it enters machine mode at the vector base plus four
  times the cause, clears exactly its pending bit, ends low power mode and masks further interrupts.
\<close>

theorem interrupt_delivery:
  assumes "wf_core s" "InterruptPending s = Some e"
  shows "bit (reg_value MSTATUS s) 3 \<and> bit (reg_value MIP s) (int_code e) \<and> bit (reg_value MIE s) (int_code e) \<and>
    e \<in> {MACHINE_EXTERNAL_INT, MACHINE_TIMER_INT} \<and>
    (e = MACHINE_TIMER_INT \<longrightarrow> \<not> (bit (reg_value MIP s) 11 \<and> bit (reg_value MIE s) 11)) \<and>
    (\<exists>s'. ProcessInterrupt e s = Inr s' \<and> PC s' = reg_value MTVEC s + 4 * of_nat (int_code e) \<and>
      reg_value MEPC s' = PC s \<and> reg_value MCAUSE s' = 0x80000000 + of_nat (int_code e) \<and>
      CurrentPrivilegeLevel s' = 3 \<and> \<not> LowPowerMode s' \<and> InterruptPending s' = None \<and>
      bit (reg_value MSTATUS s') 7 \<and>
      (\<forall>k. bit (reg_value MIP s') k \<longleftrightarrow> bit (reg_value MIP s) k \<and> k \<noteq> int_code e))"
proof -
  have e: "e \<in> {MACHINE_TIMER_INT, MACHINE_EXTERNAL_INT}" and mie: "bit (reg_value MSTATUS s) 3"
    and c: "bit (reg_value MIP s) (int_code e)" "bit (reg_value MIE s) (int_code e)"
    and prio: "e = MACHINE_TIMER_INT \<longrightarrow> \<not> (bit (reg_value MIP s) 11 \<and> bit (reg_value MIE s) 11)"
    using assms(2) unfolding InterruptPending_iff int_code_def by (auto split: if_splits)
  from interrupt_entry_ok [OF assms(1) e] obtain s' where "ProcessInterrupt e s = Inr s'" "interrupt_entered e s s'" by blast
  then show ?thesis
    using mie c prio e unfolding interrupt_entered_def entered_machine_mode_def by blast
qed

definition demo_int_core :: RiscvState where
  "demo_int_core = Signal MACHINE_TIMER_INT (put_csr MSTATUS 8 (put_csr MIE 0x80 demo_core))"

lemma demo_int_regs:
  "reg_value MSTATUS demo_int_core = 8" "reg_value MIE demo_int_core = 0x80" "reg_value MIP demo_int_core = 0x80"
  "reg_value MTVEC demo_int_core = 0x200"
  by (simp_all add: demo_int_core_def Signal_def set_reg_def reg_value_def demo_core_def RiscvState_new_def
      SetMISA_def State.defs State_new_def Let_def)

lemma demo_int_wf: "wf_core demo_int_core"
  unfolding demo_int_core_def
  by (rule wf_core_step [OF step_signal]) (use demo_wf in \<open>simp add: wf_core_def wf_mstatus_def CurrentPrivilegeLevel_def reg_value_def\<close>)

theorem interrupt_delivery_witness:
  "wf_core demo_int_core \<and> InterruptPending demo_int_core = Some MACHINE_TIMER_INT \<and>
   (\<exists>s'. ProcessInterrupt MACHINE_TIMER_INT demo_int_core = Inr s' \<and> PC s' = 0x21c)"
proof -
  have p: "InterruptPending demo_int_core = Some MACHINE_TIMER_INT"
    by (simp add: InterruptPending_iff demo_int_regs)
  show ?thesis
    using interrupt_delivery [OF demo_int_wf p] p demo_int_wf by (auto simp: demo_int_regs int_code_def)
qed

text \<open>
  Updating a core from a well-formed one makes them agree on everything software can see: the
  program counter, the general registers, the machine state and what every control register
  access returns. The two exceptions the setters make are excluded: C of MISA cannot be cleared
  at a program counter that is not word aligned, and the upper status word never stores its
  readable bits.
\<close>

theorem update_agrees:
  assumes "wf_core rhs" "length (X s) = 32" "reg_value MSTATUSH rhs = 0"
    "CompressedExtensionEnabled rhs \<or> PC rhs AND 3 = 0 \<or> \<not> CompressedExtensionEnabled s"
  shows "CSR c l (RiscvState_Update rhs s) = CSR c l rhs \<and> X (RiscvState_Update rhs s) = X rhs \<and>
    PC (RiscvState_Update rhs s) = PC rhs \<and> machine_state (RiscvState_Update rhs s) = machine_state rhs \<and>
    end_test (RiscvState_Update rhs s) = end_test rhs \<and>
    local_monitor (RiscvState_Update rhs s) = local_monitor s"
proof -
  let ?s1 = "update_start rhs s"
  let ?s2 = "foldl (update_reg rhs) ?s1 update_order"
  have x: "length (X rhs) = 32" using assms(1) by (simp add: wf_core_def)
  note u = Update_shape [OF x assms(2)]
  have "legal_value r (reg_value r rhs) ?s1 = reg_value r rhs" for r
    using assms by (intro legal_value_wf) (auto simp: CompressedExtensionEnabled_def)
  then have regs: "reg_value r ?s2 = reg_value r rhs" if "r \<noteq> MCOUNTINHIBIT" for r
    using that by (simp add: reg_value_update_regs update_order_ok)
  have "csr_read_only c (RiscvState_Update rhs s) = csr_read_only c rhs"
    by (simp add: u csr_read_only_def)
  then have "CSR c l (RiscvState_Update rhs s) = CSR c l rhs"
    using regs csr_table_not_inhibit [of c] by (auto simp: CSR_def u split: sum.splits option.splits)
  then show ?thesis by (simp add: u)
qed

theorem update_agrees_witness:
  "wf_core demo_int_core \<and> PC (RiscvState_Update demo_int_core demo_core) = PC demo_int_core \<and>
   CSR 0x344 3 (RiscvState_Update demo_int_core demo_core) = CSR 0x344 3 demo_int_core"
proof -
  have l: "length (X demo_core) = 32" using demo_wf by (simp add: wf_core_def)
  have h: "reg_value MSTATUSH demo_int_core = 0"
    by (simp add: demo_int_core_def Signal_def set_reg_def reg_value_def demo_core_def RiscvState_new_def
      SetMISA_def State.defs State_new_def Let_def)
  have "PC demo_int_core = 0x1000" by (simp add: demo_int_core_def Signal_def demo_regs)
  then have a: "PC demo_int_core AND 3 = 0" by simp
  show ?thesis
    using update_agrees [OF demo_int_wf l h] a demo_int_wf by blast
qed

text \<open>
  A trap from user mode leaves the previous-privilege field as it was instead of setting it to
  user mode, because one of its two bits is not cleared: with the field at machine mode, a trap
  from user mode followed by MRET resumes the user program in machine mode.
\<close>

theorem user_trap_escalates:
  assumes "wf_core s" "CurrentPrivilegeLevel s = 0" "mpp s = 3" "sync_trap e"
  shows "\<exists>s' s''. ProcessException e s = Inr s' \<and> ProcessException PROCESS_MRET s' = Inr s'' \<and>
    CurrentPrivilegeLevel s'' = 3"
proof -
  from trap_entry_ok [OF assms(1,4)] obtain s' where s': "ProcessException e s = Inr s'" "trap_entered e s s'" by blast
  then have "mpp s' = 3" using assms(2,3) by (simp add: trap_entered_def entered_machine_mode_def)
  with MRET_ok [of s'] s'(1) show ?thesis by auto
qed

definition demo_user_core :: RiscvState where
  "demo_user_core = SetPrivilegeLevel USER_MODE (put_csr MSTATUS 0x1800 demo_core)"

theorem user_trap_escalates_witness:
  "wf_core demo_user_core \<and> (\<exists>s' s''. ProcessException ENV_CALL_UMODE demo_user_core = Inr s' \<and>
     ProcessException PROCESS_MRET s' = Inr s'' \<and> CurrentPrivilegeLevel s'' = 3)"
proof -
  have l: "CurrentPrivilegeLevel demo_user_core = 0" by (simp add: demo_user_core_def USER_MODE_def)
  have m: "mpp demo_user_core = 3" by (simp add: demo_user_core_def mpp_def reg_value_def)
  have w: "wf_core demo_user_core"
    unfolding demo_user_core_def
    by (rule wf_core_level) (use demo_wf in \<open>simp_all add: wf_core_def wf_mstatus_def CurrentPrivilegeLevel_def USER_MODE_def reg_value_def\<close>)
  have e: "sync_trap ENV_CALL_UMODE" by (simp add: sync_trap_def)
  from user_trap_escalates [OF w l m e] w show ?thesis by blast
qed

end
