(* ===== verification/Instr_Decode.thy ===== *)
theory Instr_Decode
  imports Memory_Sys Core_State
begin

text \<open>
  The instruction object and its decoding, \<open>include/riscv_instruction.h\<close> and the factory of
  \<open>src/riscv_instruction.C\<close>. The classes of the single instructions come from the template in
  \<open>utils/make_rv32i_iclasses.pl\<close>: each inherits the \<open>Decode\<close> of its encoding type. Members that only
  the disassembler reads are in \<open>Disasm\<close>.
\<close>

unbundle bit_operations_syntax

section \<open>Instruction objects\<close>

text \<open>
  The instruction classes, grouped by the encoding type they inherit from as in the lists of the
  generator; AND, OR and XOR carry a suffix.
\<close>

datatype R_class = ADD | SLT | SLTU | ANDr | ORr | XORr | SLL | SRL | SUB | SRA
  | MUL | MULH | MULHSU | MULHU | DIV | DIVU | REM | REMU

datatype I_class = ADDI | SLTI | XORI | ORI | ANDI | SLTIU | SLLI | SRLI | SRAI | JALR | LB | LH | LW | LBU | LHU
  | CSRRW | CSRRC | CSRRS | CSRRWI | CSRRSI | CSRRCI | URET | SRET | HRET | MRET | WFI | SFENCE

datatype S_class = SB | SH | SW
datatype B_class = BEQ | BNE | BLT | BGE | BLTU | BGEU
datatype U_class = LUI | FENCE | FENCE_I | ECALL | EBREAK | AUIPC
datatype J_class = JAL
datatype CR_class = C_MV | C_ADD | C_EBREAK | C_JR | C_JALR
datatype CI_class = C_LWSP | C_LI | C_LUI | C_ADDI | C_ADDI16SP | C_SLLI | C_NOP
datatype CSS_class = C_SWSP
datatype CIW_class = C_ADDI4SPN
datatype CL_class = C_LW
datatype CS_class = C_SW | C_AND | C_OR | C_XOR | C_SUB
datatype CB_class = C_BEQZ | C_BNEZ | C_SRLI | C_SRAI | C_ANDI
datatype CJ_class = C_J | C_JAL

datatype instr_class =
    Rtype R_class | Itype I_class | Stype S_class | Btype B_class | Utype U_class | Jtype J_class
  | CRtype CR_class | CItype CI_class | CSStype CSS_class | CIWtype CIW_class | CLtype CL_class
  | CStype CS_class | CBtype CB_class | CJtype CJ_class | UnknownInstruction

text \<open>The instruction size that the constructors of the encoding types pass on.\<close>

fun class_size :: "instr_class \<Rightarrow> u32" where
  "class_size (CRtype _) = 2"
| "class_size (CItype _) = 2"
| "class_size (CSStype _) = 2"
| "class_size (CIWtype _) = 2"
| "class_size (CLtype _) = 2"
| "class_size (CStype _) = 2"
| "class_size (CBtype _) = 2"
| "class_size (CJtype _) = 2"
| "class_size _ = 4"

datatype ACCESS_TYPE = INSTRUCTION | DATA | NORMAL | ATOMIC | ORDERED | UNPRIVILEGED | STREAM | VECTOR

record MemoryAccess =
  ma_address :: u64
  ma_size :: int
  ma_type :: ACCESS_TYPE
  ma_direction :: int
  ma_word_size :: int
  ma_privileged :: bool
  membuffer :: buffer

text \<open>
  Encoding fields are indeterminate until \<open>Decode\<close> sets them, and \<open>Decode\<close> sets only those of the
  encoding type: \<open>None\<close> is an indeterminate field.
\<close>

record RiscvInstruction =
  iclass :: instr_class
  mbuf :: buffer
  encoding :: u32
  instr_size :: u32
  opcode :: u32
  i_state :: RiscvState
  i_memory :: platform
  mOpsMemory :: "MemoryAccess list"
  next_pc :: u32
  funct7 :: "u32 option"
  rs2 :: "u32 option"
  rs1 :: "u32 option"
  funct3 :: "u32 option"
  funct4 :: "u32 option"
  rd :: "u32 option"
  imm :: "u32 option"
  op :: "u32 option"
  instr_pc :: u32

text \<open>The constructor; \<open>buf\<close> is what the bytes of \<open>mbuf\<close> happen to hold.\<close>

definition RiscvInstruction_new ::
    "instr_class \<Rightarrow> RiscvState \<Rightarrow> platform \<Rightarrow> u32 \<Rightarrow> buffer \<Rightarrow> RiscvInstruction" where
  "RiscvInstruction_new c s p enc buf =
     (let sz = class_size c; pc = ucast (PC s)
      in \<lparr>iclass = c, mbuf = buf, encoding = enc, instr_size = sz, opcode = enc AND 0x3f, i_state = s,
          i_memory = p, mOpsMemory = [], next_pc = pc + sz, funct7 = None, rs2 = None, rs1 = None,
          funct3 = None, funct4 = None, rd = None, imm = None, op = None, instr_pc = pc\<rparr>)"

section \<open>Field extraction\<close>

definition dec_FUNCT7 :: "u32 \<Rightarrow> u32" where "dec_FUNCT7 e = drop_bit 25 e AND 0x3f"
definition dec_RS2 :: "u32 \<Rightarrow> u32" where "dec_RS2 e = drop_bit 20 e AND 0x1f"
definition dec_RS1 :: "u32 \<Rightarrow> u32" where "dec_RS1 e = drop_bit 15 e AND 0x1f"
definition dec_FUNCT3 :: "u32 \<Rightarrow> u32" where "dec_FUNCT3 e = drop_bit 12 e AND 0x7"
definition dec_RD :: "u32 \<Rightarrow> u32" where "dec_RD e = drop_bit 7 e AND 0x1f"
definition dec_ITYPE_IMM :: "u32 \<Rightarrow> u32" where "dec_ITYPE_IMM e = drop_bit 20 e AND 0xfff"

definition dec_STYPE_IMM :: "u32 \<Rightarrow> u32" where
  "dec_STYPE_IMM e = push_bit 5 (drop_bit 25 e AND 0x7f) OR (drop_bit 7 e AND 0x1f)"

definition dec_BTYPE_IMM :: "u32 \<Rightarrow> u32" where
  "dec_BTYPE_IMM e = push_bit 12 (drop_bit 31 e AND 1) OR push_bit 5 (drop_bit 25 e AND 0x3f)
     OR push_bit 1 (drop_bit 8 e AND 0xf) OR push_bit 11 (drop_bit 7 e AND 1)"

definition dec_UTYPE_IMM :: "u32 \<Rightarrow> u32" where "dec_UTYPE_IMM e = e AND 0xfffff000"

definition dec_JTYPE_IMM :: "u32 \<Rightarrow> u32" where
  "dec_JTYPE_IMM e = push_bit 12 (drop_bit 12 e AND 0xff) OR push_bit 11 (drop_bit 20 e AND 1)
     OR push_bit 5 (drop_bit 25 e AND 0x3f) OR push_bit 1 (drop_bit 21 e AND 0xf)"

definition rvc2reg :: "u32 \<Rightarrow> u32" where "rvc2reg indx = indx + 8"

definition dec_FUNCT4 :: "u32 \<Rightarrow> u32" where "dec_FUNCT4 e = drop_bit 12 (e AND 0xf000)"
definition dec_OP :: "u32 \<Rightarrow> u32" where "dec_OP e = e AND 3"

definition dec_CB_OFFSET :: "u32 \<Rightarrow> u32" where
  "dec_CB_OFFSET e = push_bit 5 (drop_bit 10 (e AND 0x1c00)) OR drop_bit 2 (e AND 0x7c)"

definition dec_CJ_TARGET :: "u32 \<Rightarrow> u32" where "dec_CJ_TARGET e = drop_bit 2 (e AND 0x1ffc)"

definition dec_IMM_CI :: "u32 \<Rightarrow> u32" where
  "dec_IMM_CI e = push_bit 5 (drop_bit 12 (e AND 0x1000)) OR drop_bit 2 (e AND 0x7c)"

definition dec_IMM_CIW :: "u32 \<Rightarrow> u32" where "dec_IMM_CIW e = drop_bit 5 (e AND 0x1fe0)"

definition dec_IMM_CL :: "u32 \<Rightarrow> u32" where
  "dec_IMM_CL e = push_bit 2 (drop_bit 10 e AND 0x7) OR (drop_bit 5 e AND 3)"

definition dec_IMM_CSS :: "u32 \<Rightarrow> u32" where "dec_IMM_CSS e = drop_bit 7 e AND 0x3f"
definition dec_RD3 :: "u32 \<Rightarrow> u32" where "dec_RD3 e = rvc2reg (drop_bit 2 e AND 0x3)"
definition dec_RD_RS1 :: "u32 \<Rightarrow> u32" where "dec_RD_RS1 e = drop_bit 7 e AND 0x1f"
definition dec_RS1_3 :: "u32 \<Rightarrow> u32" where "dec_RS1_3 e = rvc2reg (drop_bit 7 e AND 0x3)"
definition dec_RS2_3 :: "u32 \<Rightarrow> u32" where "dec_RS2_3 e = rvc2reg (drop_bit 2 e AND 0x3)"

section \<open>Decode methods\<close>

definition Rtype_Decode :: "RiscvInstruction \<Rightarrow> RiscvInstruction" where
  "Rtype_Decode i = i\<lparr>funct7 := Some (dec_FUNCT7 (encoding i)), rs2 := Some (dec_RS2 (encoding i)),
     rs1 := Some (dec_RS1 (encoding i)), funct3 := Some (dec_FUNCT3 (encoding i)), rd := Some (dec_RD (encoding i))\<rparr>"

definition Itype_Decode :: "RiscvInstruction \<Rightarrow> RiscvInstruction" where
  "Itype_Decode i = i\<lparr>imm := Some (dec_ITYPE_IMM (encoding i)), rs1 := Some (dec_RS1 (encoding i)),
     funct3 := Some (dec_FUNCT3 (encoding i)), rd := Some (dec_RD (encoding i))\<rparr>"

definition Stype_Decode :: "RiscvInstruction \<Rightarrow> RiscvInstruction" where
  "Stype_Decode i = i\<lparr>imm := Some (dec_STYPE_IMM (encoding i)), rs2 := Some (dec_RS2 (encoding i)),
     rs1 := Some (dec_RS1 (encoding i)), funct3 := Some (dec_FUNCT3 (encoding i))\<rparr>"

definition Btype_Decode :: "RiscvInstruction \<Rightarrow> RiscvInstruction" where
  "Btype_Decode i = i\<lparr>imm := Some (dec_BTYPE_IMM (encoding i)), rs2 := Some (dec_RS2 (encoding i)),
     rs1 := Some (dec_RS1 (encoding i)), funct3 := Some (dec_FUNCT3 (encoding i))\<rparr>"

definition Utype_Decode :: "RiscvInstruction \<Rightarrow> RiscvInstruction" where
  "Utype_Decode i = i\<lparr>imm := Some (dec_UTYPE_IMM (encoding i)), rd := Some (dec_RD (encoding i))\<rparr>"

definition Jtype_Decode :: "RiscvInstruction \<Rightarrow> RiscvInstruction" where
  "Jtype_Decode i = i\<lparr>imm := Some (dec_JTYPE_IMM (encoding i)), rd := Some (dec_RD (encoding i))\<rparr>"

definition CRtype_Decode :: "RiscvInstruction \<Rightarrow> RiscvInstruction" where
  "CRtype_Decode i = i\<lparr>funct4 := Some (dec_FUNCT4 (encoding i)), rd := Some (dec_RD_RS1 (encoding i)),
     rs1 := Some (dec_RD_RS1 (encoding i)), rs2 := Some (dec_RS2 (encoding i)), op := Some (dec_OP (encoding i))\<rparr>"

definition CItype_Decode :: "RiscvInstruction \<Rightarrow> RiscvInstruction" where
  "CItype_Decode i = i\<lparr>funct3 := Some (dec_FUNCT3 (encoding i)), imm := Some (dec_IMM_CI (encoding i)),
     rd := Some (dec_RD_RS1 (encoding i)), rs1 := Some (dec_RD_RS1 (encoding i)), op := Some (dec_OP (encoding i))\<rparr>"

definition CSStype_Decode :: "RiscvInstruction \<Rightarrow> RiscvInstruction" where
  "CSStype_Decode i = i\<lparr>funct3 := Some (dec_FUNCT3 (encoding i)), imm := Some (dec_IMM_CSS (encoding i)),
     rs2 := Some (dec_RS2 (encoding i)), op := Some (dec_OP (encoding i))\<rparr>"

definition CIWtype_Decode :: "RiscvInstruction \<Rightarrow> RiscvInstruction" where
  "CIWtype_Decode i = i\<lparr>funct3 := Some (dec_FUNCT3 (encoding i)), imm := Some (dec_IMM_CIW (encoding i)),
     rd := Some (dec_RD3 (encoding i)), op := Some (dec_OP (encoding i))\<rparr>"

definition CLtype_Decode :: "RiscvInstruction \<Rightarrow> RiscvInstruction" where
  "CLtype_Decode i = i\<lparr>funct3 := Some (dec_FUNCT3 (encoding i)), imm := Some (dec_IMM_CL (encoding i)),
     rs1 := Some (dec_RS1_3 (encoding i)), rd := Some (dec_RD3 (encoding i)), op := Some (dec_OP (encoding i))\<rparr>"

definition CStype_Decode :: "RiscvInstruction \<Rightarrow> RiscvInstruction" where
  "CStype_Decode i = i\<lparr>funct3 := Some (dec_FUNCT3 (encoding i)), imm := Some (dec_IMM_CL (encoding i)),
     rs1 := Some (dec_RS1_3 (encoding i)), rs2 := Some (dec_RS2_3 (encoding i)), op := Some (dec_OP (encoding i))\<rparr>"

definition CBtype_Decode :: "RiscvInstruction \<Rightarrow> RiscvInstruction" where
  "CBtype_Decode i = i\<lparr>funct3 := Some (dec_FUNCT3 (encoding i)), imm := Some (dec_CB_OFFSET (encoding i)),
     rs1 := Some (dec_RS1_3 (encoding i)), op := Some (dec_OP (encoding i))\<rparr>"

definition CJtype_Decode :: "RiscvInstruction \<Rightarrow> RiscvInstruction" where
  "CJtype_Decode i = i\<lparr>funct3 := Some (dec_FUNCT3 (encoding i)), imm := Some (dec_CJ_TARGET (encoding i)),
     op := Some (dec_OP (encoding i))\<rparr>"

definition Decode :: "RiscvInstruction \<Rightarrow> RiscvInstruction" where
  "Decode i = (case iclass i of
      Rtype _ \<Rightarrow> Rtype_Decode i
    | Itype _ \<Rightarrow> Itype_Decode i
    | Stype _ \<Rightarrow> Stype_Decode i
    | Btype _ \<Rightarrow> Btype_Decode i
    | Utype _ \<Rightarrow> Utype_Decode i
    | Jtype _ \<Rightarrow> Jtype_Decode i
    | CRtype _ \<Rightarrow> CRtype_Decode i
    | CItype _ \<Rightarrow> CItype_Decode i
    | CSStype _ \<Rightarrow> CSStype_Decode i
    | CIWtype _ \<Rightarrow> CIWtype_Decode i
    | CLtype _ \<Rightarrow> CLtype_Decode i
    | CStype _ \<Rightarrow> CStype_Decode i
    | CBtype _ \<Rightarrow> CBtype_Decode i
    | CJtype _ \<Rightarrow> CJtype_Decode i
    | UnknownInstruction \<Rightarrow> i)"

section \<open>The factory\<close>

text \<open>An inner switch whose default leaves the pointer null.\<close>

definition switch :: "u32 \<Rightarrow> (u32 \<times> instr_class) list \<Rightarrow> instr_class" where
  "switch x cs = (case map_of cs x of Some c \<Rightarrow> c | None \<Rightarrow> UnknownInstruction)"

definition class_of_encoding :: "u32 \<Rightarrow> instr_class" where
  "class_of_encoding enc =
     (let opc = enc AND 0x7f; f3 = drop_bit 12 enc AND 0x7; f7 = drop_bit 25 enc AND 0x7f;
          r1 = drop_bit 15 enc AND 0x1f; im = drop_bit 20 enc AND 0xfff
      in if opc = 0x37 then Utype LUI
         else if opc = 0x17 then Utype AUIPC
         else if opc = 0x6f then Jtype JAL
         else if opc = 0x67 then (if f3 = 0 then Itype JALR else UnknownInstruction)
         else if opc = 0x63 then switch f3 [(0, Btype BEQ), (1, Btype BNE), (4, Btype BLT), (5, Btype BGE), (6, Btype BLTU), (7, Btype BGEU)]
         else if opc = 0x3 then switch f3 [(0, Itype LB), (1, Itype LH), (2, Itype LW), (4, Itype LBU), (5, Itype LHU)]
         else if opc = 0x23 then switch f3 [(0, Stype SB), (1, Stype SH), (2, Stype SW)]
         else if opc = 0x13 then
           (if f3 = 1 then (if f7 = 0 then Itype SLLI else UnknownInstruction)
            else if f3 = 5 then (if f7 = 0x20 then Itype SRAI else if f7 = 0 then Itype SRLI else UnknownInstruction)
            else switch f3 [(0, Itype ADDI), (2, Itype SLTI), (3, Itype SLTIU), (4, Itype XORI), (6, Itype ORI), (7, Itype ANDI)])
         else if opc = 0x33 then
           (if f7 = 0 then switch f3 [(0, Rtype ADD), (1, Rtype SLL), (2, Rtype SLT), (3, Rtype SLTU), (4, Rtype XORr), (5, Rtype SRL), (6, Rtype ORr), (7, Rtype ANDr)]
            else if f7 = 1 then
              switch f3 [(0, Rtype MUL), (1, Rtype MULH), (2, Rtype MULHSU), (3, Rtype MULHU), (4, Rtype DIV), (5, Rtype DIVU), (6, Rtype REM), (7, Rtype REMU)]
            else if f7 = 0x20 then switch f3 [(0, Rtype SUB), (5, Rtype SRA)]
            else UnknownInstruction)
         else if opc = 0x73 then
           (if enc = 0x73 then Utype ECALL
            else if enc = 0x100073 then Utype EBREAK
            else if f3 = 0 \<and> r1 = 0 then
              switch im [(0x002, Itype URET), (0x102, Itype SRET), (0x202, Itype HRET), (0x302, Itype MRET), (0x105, Itype WFI), (0x104, Itype SFENCE)]
            else switch f3 [(1, Itype CSRRW), (2, Itype CSRRS), (3, Itype CSRRC), (5, Itype CSRRWI), (6, Itype CSRRSI), (7, Itype CSRRCI)])
         else if opc = 0xf then
           (if enc AND 0xffffffff = 0x100f then Utype FENCE_I
            else if enc AND 0xf00fffff = 0xf then Utype FENCE else UnknownInstruction)
         else UnknownInstruction)"

definition class_of_encoding16 :: "RiscvState \<Rightarrow> u32 \<Rightarrow> instr_class" where
  "class_of_encoding16 s enc =
     (if \<not> CompressedExtensionEnabled s then UnknownInstruction
      else if enc = 0 then UnknownInstruction
      else if enc = 1 then CItype C_NOP
      else
        let f3 = drop_bit 13 enc AND 0x7; opc = enc AND 0x3; r = drop_bit 7 enc AND 0x1f; sel = push_bit 4 f3 OR opc
        in if sel = 0x31 then (if r = 2 then CItype C_ADDI16SP else if r = 0 then UnknownInstruction else CItype C_LUI)
           else if sel = 0x41 then
             switch (push_bit 4 (drop_bit 10 enc AND 0x7) OR (drop_bit 5 enc AND 0x3))
               [(0x20, CBtype C_ANDI), (0x21, CBtype C_ANDI), (0x22, CBtype C_ANDI), (0x23, CBtype C_ANDI), (0x30, CStype C_SUB), (0x31, CStype C_XOR),
                (0x32, CStype C_OR), (0x33, CStype C_AND)]
           else switch sel [(0x00, CIWtype C_ADDI4SPN), (0x20, CLtype C_LW), (0x60, CStype C_SW), (0x01, CItype C_ADDI), (0x11, CJtype C_JAL), (0x21, CItype C_LI),
                (0x51, CJtype C_J), (0x61, CBtype C_BEQZ), (0x71, CItype C_LUI)])"

definition NewInstruction16 :: "RiscvState \<Rightarrow> platform \<Rightarrow> u32 \<Rightarrow> buffer \<Rightarrow> RiscvInstruction" where
  "NewInstruction16 s p enc buf = RiscvInstruction_new (class_of_encoding16 s enc) s p enc buf"

definition NewInstruction :: "RiscvState \<Rightarrow> platform \<Rightarrow> u32 \<Rightarrow> bool \<Rightarrow> buffer \<Rightarrow> RiscvInstruction" where
  "NewInstruction s p enc compressed buf =
     (if compressed then NewInstruction16 s p enc buf
      else RiscvInstruction_new (class_of_encoding enc) s p enc buf)"


section \<open>Bit fields\<close>

lemma and_masks:
  "w AND 1 = take_bit 1 w" "w AND 3 = take_bit 2 w" "w AND 7 = take_bit 3 w" "w AND 0xf = take_bit 4 w"
  "w AND 0x1f = take_bit 5 w" "w AND 0x3f = take_bit 6 w" "w AND 0x7f = take_bit 7 w" "w AND 0xff = take_bit 8 w"
  "w AND 0xfff = take_bit 12 w" for w :: u32
  by (simp_all add: take_bit_eq_mask mask_numeral)

text \<open>The six fields that partition a 32-bit encoding.\<close>

definition enc_fields :: "u32 \<Rightarrow> u32 \<Rightarrow> u32 \<Rightarrow> u32 \<Rightarrow> u32 \<Rightarrow> u32 \<Rightarrow> u32" where
  "enc_fields f7 r2 r1 f3 r opc =
     push_bit 25 (take_bit 7 f7) OR push_bit 20 (take_bit 5 r2) OR push_bit 15 (take_bit 5 r1) OR
     push_bit 12 (take_bit 3 f3) OR push_bit 7 (take_bit 5 r) OR take_bit 7 opc"

lemma bit_enc_fields:
  "bit (enc_fields f7 r2 r1 f3 r opc) k \<longleftrightarrow> k < 32 \<and>
    (if k < 7 then bit opc k else if k < 12 then bit r (k - 7) else if k < 15 then bit f3 (k - 12)
     else if k < 20 then bit r1 (k - 15) else if k < 25 then bit r2 (k - 20) else bit f7 (k - 25))"
  unfolding enc_fields_def bit_or_iff bit_push_bit_iff bit_take_bit_iff by auto

lemma dec_enc_fields:
  "enc_fields f7 r2 r1 f3 r opc AND 0x7f = take_bit 7 opc"
  "drop_bit 7 (enc_fields f7 r2 r1 f3 r opc) AND 0x1f = take_bit 5 r"
  "drop_bit 12 (enc_fields f7 r2 r1 f3 r opc) AND 7 = take_bit 3 f3"
  "drop_bit 15 (enc_fields f7 r2 r1 f3 r opc) AND 0x1f = take_bit 5 r1"
  "drop_bit 20 (enc_fields f7 r2 r1 f3 r opc) AND 0x1f = take_bit 5 r2"
  "drop_bit 25 (enc_fields f7 r2 r1 f3 r opc) AND 0x7f = take_bit 7 f7"
  unfolding and_masks
  by (rule bit_word_eqI; auto simp: bit_take_bit_iff bit_drop_bit_eq bit_enc_fields)+

lemma enc_dec_fields:
  "enc_fields (drop_bit 25 e AND 0x7f) (drop_bit 20 e AND 0x1f) (drop_bit 15 e AND 0x1f) (drop_bit 12 e AND 7)
     (drop_bit 7 e AND 0x1f) (e AND 0x7f) = e"
  unfolding and_masks
  by (rule bit_word_eqI) (auto simp: bit_take_bit_iff bit_drop_bit_eq bit_enc_fields)

section \<open>The reference encodings\<close>

fun R_code :: "R_class \<Rightarrow> u32 \<times> u32" where
  "R_code ADD = (0, 0)" | "R_code SUB = (0x20, 0)" | "R_code SLL = (0, 1)" | "R_code SLT = (0, 2)"
| "R_code SLTU = (0, 3)" | "R_code XORr = (0, 4)" | "R_code SRL = (0, 5)" | "R_code SRA = (0x20, 5)"
| "R_code ORr = (0, 6)" | "R_code ANDr = (0, 7)" | "R_code MUL = (1, 0)" | "R_code MULH = (1, 1)"
| "R_code MULHSU = (1, 2)" | "R_code MULHU = (1, 3)" | "R_code DIV = (1, 4)" | "R_code DIVU = (1, 5)"
| "R_code REM = (1, 6)" | "R_code REMU = (1, 7)"

fun I_code :: "I_class \<Rightarrow> u32 \<times> u32" where
  "I_code ADDI = (0x13, 0)" | "I_code SLTI = (0x13, 2)" | "I_code SLTIU = (0x13, 3)" | "I_code XORI = (0x13, 4)"
| "I_code ORI = (0x13, 6)" | "I_code ANDI = (0x13, 7)" | "I_code SLLI = (0x13, 1)" | "I_code SRLI = (0x13, 5)"
| "I_code SRAI = (0x13, 5)" | "I_code JALR = (0x67, 0)" | "I_code LB = (3, 0)" | "I_code LH = (3, 1)"
| "I_code LW = (3, 2)" | "I_code LBU = (3, 4)" | "I_code LHU = (3, 5)" | "I_code CSRRW = (0x73, 1)"
| "I_code CSRRS = (0x73, 2)" | "I_code CSRRC = (0x73, 3)" | "I_code CSRRWI = (0x73, 5)"
| "I_code CSRRSI = (0x73, 6)" | "I_code CSRRCI = (0x73, 7)" | "I_code _ = (0x73, 0)"

text \<open>The immediates that belong to the operation: the upper part of a shift, the code of a return.\<close>

fun I_imm :: "I_class \<Rightarrow> u32 \<Rightarrow> u32" where
  "I_imm SLLI im = take_bit 5 im" | "I_imm SRLI im = take_bit 5 im" | "I_imm SRAI im = 0x400 OR take_bit 5 im"
| "I_imm URET im = 0x002" | "I_imm SRET im = 0x102" | "I_imm HRET im = 0x202" | "I_imm MRET im = 0x302"
| "I_imm WFI im = 0x105" | "I_imm SFENCE im = 0x104" | "I_imm _ im = take_bit 12 im"

definition I_system :: "I_class \<Rightarrow> bool" where
  "I_system c \<longleftrightarrow> c \<in> {URET, SRET, HRET, MRET, WFI, SFENCE}"

fun S_code :: "S_class \<Rightarrow> u32" where "S_code SB = 0" | "S_code SH = 1" | "S_code SW = 2"

fun B_code :: "B_class \<Rightarrow> u32" where
  "B_code BEQ = 0" | "B_code BNE = 1" | "B_code BLT = 4" | "B_code BGE = 5" | "B_code BLTU = 6" | "B_code BGEU = 7"

text \<open>An instruction in assembler form: destination, sources, immediate.\<close>

datatype asm = AsmR R_class u32 u32 u32 | AsmI I_class u32 u32 u32 | AsmS S_class u32 u32 u32
  | AsmB B_class u32 u32 u32 | AsmLUI u32 u32 | AsmAUIPC u32 u32 | AsmJAL u32 u32 | AsmECALL | AsmEBREAK

fun assemble :: "asm \<Rightarrow> u32" where
  "assemble (AsmR c r a b) = enc_fields (fst (R_code c)) b a (snd (R_code c)) r 0x33"
| "assemble (AsmI c r a im) =
     enc_fields (drop_bit 5 (I_imm c im)) (I_imm c im) (if I_system c then 0 else a) (snd (I_code c)) r (fst (I_code c))"
| "assemble (AsmS c a b im) = enc_fields (drop_bit 5 im) b a (S_code c) im 0x23"
| "assemble (AsmB c a b im) =
     enc_fields (push_bit 6 (drop_bit 12 im) OR take_bit 6 (drop_bit 5 im)) b a (B_code c)
       (push_bit 1 (take_bit 4 (drop_bit 1 im)) OR take_bit 1 (drop_bit 11 im)) 0x63"
| "assemble (AsmLUI r im) = enc_fields (drop_bit 25 im) (drop_bit 20 im) (drop_bit 15 im) (drop_bit 12 im) r 0x37"
| "assemble (AsmAUIPC r im) = enc_fields (drop_bit 25 im) (drop_bit 20 im) (drop_bit 15 im) (drop_bit 12 im) r 0x17"
| "assemble (AsmJAL r im) =
     enc_fields (push_bit 6 (drop_bit 20 im) OR take_bit 6 (drop_bit 5 im))
       (push_bit 1 (take_bit 4 (drop_bit 1 im)) OR take_bit 1 (drop_bit 11 im))
       (drop_bit 15 im) (drop_bit 12 im) r 0x6f"
| "assemble AsmECALL = 0x73"
| "assemble AsmEBREAK = 0x100073"

fun asm_class :: "asm \<Rightarrow> instr_class" where
  "asm_class (AsmR c _ _ _) = Rtype c" | "asm_class (AsmI c _ _ _) = Itype c" | "asm_class (AsmS c _ _ _) = Stype c"
| "asm_class (AsmB c _ _ _) = Btype c" | "asm_class (AsmLUI _ _) = Utype LUI" | "asm_class (AsmAUIPC _ _) = Utype AUIPC"
| "asm_class (AsmJAL _ _) = Jtype JAL" | "asm_class AsmECALL = Utype ECALL" | "asm_class AsmEBREAK = Utype EBREAK"

lemma I_imm_12: "take_bit 12 (I_imm c im) = I_imm c im"
  by (cases c) (simp_all add: take_bit_eq_mask mask_numeral and.assoc bit.conj_disj_distrib2)

lemma R_codes: "take_bit 7 (fst (R_code c)) = fst (R_code c)" "take_bit 3 (snd (R_code c)) = snd (R_code c)"
  by (cases c; simp)+

lemma I_codes: "take_bit 7 (fst (I_code c)) = fst (I_code c)" "take_bit 3 (snd (I_code c)) = snd (I_code c)"
  by (cases c; simp)+

lemma S_codes: "take_bit 3 (S_code c) = S_code c"
  by (cases c) simp_all

lemma B_codes: "take_bit 3 (B_code c) = B_code c"
  by (cases c) simp_all

lemma ITYPE_IMM_enc: "drop_bit 20 (enc_fields (drop_bit 5 im) im a f3 r opc) AND 0xfff = take_bit 12 im"
  unfolding and_masks
  by (rule bit_word_eqI) (auto simp: bit_take_bit_iff bit_drop_bit_eq bit_enc_fields)

lemmas enc_simps = dec_enc_fields ITYPE_IMM_enc R_codes I_codes S_codes B_codes I_imm_12

lemma shift_imm_f7: "take_bit 7 (drop_bit 5 (I_imm c im)) = (if c = SRAI then 0x20 else 0)" if "c \<in> {SLLI, SRLI, SRAI}"
proof -
  have "drop_bit 5 (take_bit 5 im) = 0" for im :: u32 by (simp add: drop_bit_take_bit)
  then show ?thesis using that by (auto simp: drop_bit_or)
qed

lemma system_not_exact:
  "enc_fields (drop_bit 5 im) im a f3 r 0x73 = 0x73 \<Longrightarrow> take_bit 12 im = 0 \<and> take_bit 3 f3 = 0"
  "enc_fields (drop_bit 5 im) im a f3 r 0x73 = 0x100073 \<Longrightarrow> take_bit 12 im = 1 \<and> take_bit 3 f3 = 0"
  using ITYPE_IMM_enc [of im a f3 r "0x73"] dec_enc_fields(3) [of "drop_bit 5 im" im a f3 r "0x73"] by simp_all

lemma class_R: "class_of_encoding (assemble (AsmR c r a b)) = Rtype c"
  by (cases c) (simp_all add: class_of_encoding_def enc_simps switch_def)

lemma class_S: "class_of_encoding (assemble (AsmS c a b im)) = Stype c"
  by (cases c) (simp_all add: class_of_encoding_def enc_simps switch_def)

lemma class_B: "class_of_encoding (assemble (AsmB c a b im)) = Btype c"
  by (cases c) (simp_all add: class_of_encoding_def enc_simps switch_def)

lemma class_I: "class_of_encoding (assemble (AsmI c r a im)) = Itype c"
proof (cases "c \<in> {SLLI, SRLI, SRAI}")
  case True
  then show ?thesis
    using shift_imm_f7 [OF True, of im]
    by (auto simp: class_of_encoding_def dec_enc_fields I_codes switch_def simp del: I_imm.simps)
next
  case False
  let ?i = "I_imm c im" and ?a = "if I_system c then 0 else a"
  have "fst (I_code c) = 0x73 \<Longrightarrow> assemble (AsmI c r a im) \<noteq> 0x73 \<and> assemble (AsmI c r a im) \<noteq> 0x100073"
    using system_not_exact [of ?i ?a "snd (I_code c)" r] I_imm_12 [of c im] I_codes(2) [of c]
    by (cases c) auto
  then show ?thesis
    using False ITYPE_IMM_enc [of ?i ?a "snd (I_code c)" r "fst (I_code c)"] I_imm_12 [of c im]
    by (cases c) (simp_all add: class_of_encoding_def dec_enc_fields switch_def I_system_def)
qed

lemma class_UJ:
  "class_of_encoding (assemble (AsmLUI r im)) = Utype LUI" "class_of_encoding (assemble (AsmAUIPC r im)) = Utype AUIPC"
  "class_of_encoding (assemble (AsmJAL r im)) = Jtype JAL" "class_of_encoding (assemble AsmECALL) = Utype ECALL"
  "class_of_encoding (assemble AsmEBREAK) = Utype EBREAK"
  by (simp_all add: class_of_encoding_def dec_enc_fields)

lemma class_of_assemble: "class_of_encoding (assemble a) = asm_class a"
  by (cases a) (simp_all only: asm_class.simps class_R class_I class_S class_B class_UJ)

text \<open>Equality of encodings, bit by bit.\<close>

lemmas bit_field_simps = bit_or_iff bit_and_iff bit_not_iff bit_push_bit_iff bit_take_bit_iff bit_drop_bit_eq bit_enc_fields o_apply

lemma list_all_bits: "list_all (\<lambda>k. bit a k = bit b k) [0..<32] \<Longrightarrow> a = b" for a b :: u32
  by (rule bit_word_eqI) (simp add: list_all_iff)

lemma word32_eqI:
  "list_all (\<lambda>k. bit a k = bit b k)
     [0, 1, 2, 3, 4, 5, 6, 7, 8, 9, 10, 11, 12, 13, 14, 15, 16, 17, 18, 19, 20, 21, 22, 23, 24, 25, 26, 27, 28, 29, 30, 31] \<Longrightarrow> a = b" for a b :: u32
proof -
  have "[0..<32] = [0, 1, 2, 3, 4, 5, 6, 7, 8, 9, 10, 11, 12, 13, 14, 15, 16, 17, 18, 19, 20, 21, 22, 23, 24, 25, 26, 27, 28, 29, 30, 31]" by code_simp
  then show "list_all (\<lambda>k. bit a k = bit b k)
     [0, 1, 2, 3, 4, 5, 6, 7, 8, 9, 10, 11, 12, 13, 14, 15, 16, 17, 18, 19, 20, 21, 22, 23, 24, 25, 26, 27, 28, 29, 30, 31] \<Longrightarrow> a = b"
    using list_all_bits [of a b] by simp
qed

text \<open>The immediates come back, those of branches and jumps without their bit 0, and without bit 20 for JAL.\<close>

lemma STYPE_IMM_enc: "dec_STYPE_IMM (assemble (AsmS c a b im)) = take_bit 12 im"
  unfolding dec_STYPE_IMM_def and_masks
  by (rule bit_word_eqI) (auto simp: bit_or_iff bit_push_bit_iff bit_take_bit_iff bit_drop_bit_eq bit_enc_fields)

lemma BTYPE_IMM_enc: "dec_BTYPE_IMM (assemble (AsmB c a b im)) = take_bit 13 im AND NOT 1"
  unfolding dec_BTYPE_IMM_def and_masks
  by (rule word32_eqI, simp only: assemble.simps bit_field_simps) (simp add: bit_1_iff numeral_2_eq_2 [symmetric] numeral_3_eq_3 [symmetric])

lemma UTYPE_IMM_enc: "dec_UTYPE_IMM (enc_fields (drop_bit 25 im) (drop_bit 20 im) (drop_bit 15 im) (drop_bit 12 im) r opc)
    = im AND 0xfffff000"
  unfolding dec_UTYPE_IMM_def
  by (rule word32_eqI) (simp add: bit_and_iff bit_drop_bit_eq bit_enc_fields)

lemma JTYPE_IMM_enc: "dec_JTYPE_IMM (assemble (AsmJAL r im)) = take_bit 20 im AND NOT 1"
  unfolding dec_JTYPE_IMM_def and_masks
  by (rule word32_eqI, simp only: assemble.simps bit_field_simps) (simp add: bit_1_iff numeral_2_eq_2 [symmetric] numeral_3_eq_3 [symmetric])

section \<open>From encodings back to assembler\<close>

text \<open>
  What the decoder makes of an encoding, in assembler form. FENCE, FENCE.I and JAL are left out:
  the fields the former ignore, and bit 31 of the latter, are not decoded.
\<close>

definition disassemble :: "u32 \<Rightarrow> asm option" where
  "disassemble e =
     (case class_of_encoding e of
        Rtype c \<Rightarrow> Some (AsmR c (dec_RD e) (dec_RS1 e) (dec_RS2 e))
      | Itype c \<Rightarrow> Some (AsmI c (dec_RD e) (dec_RS1 e) (dec_ITYPE_IMM e))
      | Stype c \<Rightarrow> Some (AsmS c (dec_RS1 e) (dec_RS2 e) (dec_STYPE_IMM e))
      | Btype c \<Rightarrow> Some (AsmB c (dec_RS1 e) (dec_RS2 e) (dec_BTYPE_IMM e))
      | Utype LUI \<Rightarrow> Some (AsmLUI (dec_RD e) (dec_UTYPE_IMM e))
      | Utype AUIPC \<Rightarrow> Some (AsmAUIPC (dec_RD e) (dec_UTYPE_IMM e))
      | Utype ECALL \<Rightarrow> Some AsmECALL
      | Utype EBREAK \<Rightarrow> Some AsmEBREAK
      | _ \<Rightarrow> None)"

text \<open>The fields each class is chosen by.\<close>

definition sel_opc :: "u32 \<Rightarrow> u32" where "sel_opc e = e AND 0x7f"
definition sel_f3 :: "u32 \<Rightarrow> u32" where "sel_f3 e = drop_bit 12 e AND 0x7"
definition sel_f7 :: "u32 \<Rightarrow> u32" where "sel_f7 e = drop_bit 25 e AND 0x7f"

lemmas sel_fold = sel_opc_def [symmetric] sel_f3_def [symmetric]
  dec_RS1_def [symmetric] dec_ITYPE_IMM_def [symmetric]

lemma switch_eq: "switch x [] = UnknownInstruction"
  "switch x ((a, c) # cs) = (if x = a then c else switch x cs)"
  by (simp_all add: switch_def)

lemma sel_f7_opc: "sel_f7 e = sel_opc (drop_bit 25 e)"
  by (simp add: sel_f7_def sel_opc_def)

lemmas class_unfold = class_of_encoding_def Let_def sel_fold sel_f7_opc switch_eq

lemma class_R_sel: "class_of_encoding e = Rtype c \<Longrightarrow> sel_opc e = 0x33 \<and> sel_f7 e = fst (R_code c) \<and> sel_f3 e = snd (R_code c)"
  by (cases c) (auto simp: class_unfold split: if_splits)

lemma class_S_sel: "class_of_encoding e = Stype c \<Longrightarrow> sel_opc e = 0x23 \<and> sel_f3 e = S_code c"
  by (cases c) (auto simp: class_unfold split: if_splits)

lemma class_B_sel: "class_of_encoding e = Btype c \<Longrightarrow> sel_opc e = 0x63 \<and> sel_f3 e = B_code c"
  by (cases c) (auto simp: class_unfold split: if_splits)

lemma class_I_sel: "class_of_encoding e = Itype c \<Longrightarrow> sel_opc e = fst (I_code c) \<and> sel_f3 e = snd (I_code c) \<and>
   (I_system c \<longrightarrow> dec_RS1 e = 0 \<and> dec_ITYPE_IMM e = I_imm c 0) \<and>
   (c \<in> {SLLI, SRLI} \<longrightarrow> sel_f7 e = 0) \<and> (c = SRAI \<longrightarrow> sel_f7 e = 0x20)"
  by (cases c) (auto simp: class_unfold I_system_def split: if_splits)

lemma class_U_sel:
  "class_of_encoding e = Utype LUI \<Longrightarrow> sel_opc e = 0x37" "class_of_encoding e = Utype AUIPC \<Longrightarrow> sel_opc e = 0x17"
  "class_of_encoding e = Utype ECALL \<Longrightarrow> e = 0x73" "class_of_encoding e = Utype EBREAK \<Longrightarrow> e = 0x100073"
  by (auto simp: class_unfold split: if_splits)

lemma enc_of_sel: "enc_fields (sel_f7 e) (dec_RS2 e) (dec_RS1 e) (sel_f3 e) (dec_RD e) (sel_opc e) = e"
  unfolding sel_f7_def sel_f3_def sel_opc_def dec_RS2_def dec_RS1_def dec_RD_def by (rule enc_dec_fields)

lemma I_fields_of_imm:
  "enc_fields (drop_bit 5 (dec_ITYPE_IMM e)) (dec_ITYPE_IMM e) a f3 r opc = enc_fields (sel_f7 e) (dec_RS2 e) a f3 r opc"
  unfolding dec_ITYPE_IMM_def sel_f7_def dec_RS2_def and_masks
  by (rule bit_word_eqI) (auto simp: bit_enc_fields bit_take_bit_iff bit_drop_bit_eq)

lemma S_fields_of_imm:
  "enc_fields (drop_bit 5 (dec_STYPE_IMM e)) b a f3 (dec_STYPE_IMM e) opc = enc_fields (sel_f7 e) b a f3 (dec_RD e) opc"
  unfolding dec_STYPE_IMM_def sel_f7_def dec_RD_def and_masks
  by (rule bit_word_eqI) (auto simp: bit_enc_fields bit_take_bit_iff bit_drop_bit_eq bit_or_iff bit_push_bit_iff)

lemma B_fields_of_imm:
  "enc_fields (push_bit 6 (drop_bit 12 (dec_BTYPE_IMM e)) OR take_bit 6 (drop_bit 5 (dec_BTYPE_IMM e))) b a f3
     (push_bit 1 (take_bit 4 (drop_bit 1 (dec_BTYPE_IMM e))) OR take_bit 1 (drop_bit 11 (dec_BTYPE_IMM e))) opc
   = enc_fields (sel_f7 e) b a f3 (dec_RD e) opc"
  unfolding dec_BTYPE_IMM_def sel_f7_def dec_RD_def and_masks
  by (rule word32_eqI, simp only: bit_field_simps) (simp add: numeral_2_eq_2 [symmetric] numeral_3_eq_3 [symmetric])

lemma U_fields_of_imm:
  "enc_fields (drop_bit 25 (dec_UTYPE_IMM e)) (drop_bit 20 (dec_UTYPE_IMM e)) (drop_bit 15 (dec_UTYPE_IMM e))
     (drop_bit 12 (dec_UTYPE_IMM e)) r opc = enc_fields (sel_f7 e) (dec_RS2 e) (dec_RS1 e) (sel_f3 e) r opc"
  unfolding dec_UTYPE_IMM_def sel_f7_def dec_RS2_def dec_RS1_def sel_f3_def and_masks
  by (rule word32_eqI, simp only: bit_field_simps) simp

lemma I_imm_of_class:
  assumes "class_of_encoding e = Itype c"
  shows "I_imm c (dec_ITYPE_IMM e) = dec_ITYPE_IMM e"
proof -
  let ?i = "dec_ITYPE_IMM e"
  have i: "take_bit 12 ?i = ?i" by (simp add: dec_ITYPE_IMM_def and_masks)
  have hi: "?i = push_bit 5 (sel_f7 e) OR take_bit 5 ?i"
    unfolding dec_ITYPE_IMM_def sel_f7_def and_masks
    by (rule bit_word_eqI) (auto simp: bit_take_bit_iff bit_drop_bit_eq bit_or_iff bit_push_bit_iff)
  show ?thesis
    using class_I_sel [OF assms] i hi by (cases c) (auto simp: I_system_def)
qed

text \<open>The fields a decoded instruction has.\<close>

lemma Decode_R: "iclass i = Rtype c \<Longrightarrow> rd (Decode i) = Some (dec_RD (encoding i))"
  "iclass i = Rtype c \<Longrightarrow> rs1 (Decode i) = Some (dec_RS1 (encoding i))"
  "iclass i = Rtype c \<Longrightarrow> rs2 (Decode i) = Some (dec_RS2 (encoding i))"
  by (simp_all add: Decode_def Rtype_Decode_def)

lemma Decode_I: "iclass i = Itype c' \<Longrightarrow> rd (Decode i) = Some (dec_RD (encoding i))"
  "iclass i = Itype c' \<Longrightarrow> rs1 (Decode i) = Some (dec_RS1 (encoding i))"
  "iclass i = Itype c' \<Longrightarrow> imm (Decode i) = Some (dec_ITYPE_IMM (encoding i))"
  by (simp_all add: Decode_def Itype_Decode_def)

lemma Decode_S: "iclass i = Stype cs \<Longrightarrow> rs1 (Decode i) = Some (dec_RS1 (encoding i))"
  "iclass i = Stype cs \<Longrightarrow> rs2 (Decode i) = Some (dec_RS2 (encoding i))"
  "iclass i = Stype cs \<Longrightarrow> imm (Decode i) = Some (dec_STYPE_IMM (encoding i))"
  by (simp_all add: Decode_def Stype_Decode_def)

lemma Decode_B: "iclass i = Btype cb \<Longrightarrow> rs1 (Decode i) = Some (dec_RS1 (encoding i))"
  "iclass i = Btype cb \<Longrightarrow> rs2 (Decode i) = Some (dec_RS2 (encoding i))"
  "iclass i = Btype cb \<Longrightarrow> imm (Decode i) = Some (dec_BTYPE_IMM (encoding i))"
  by (simp_all add: Decode_def Btype_Decode_def)

lemma Decode_U: "iclass i = Utype cu \<Longrightarrow> rd (Decode i) = Some (dec_RD (encoding i))"
  "iclass i = Utype cu \<Longrightarrow> imm (Decode i) = Some (dec_UTYPE_IMM (encoding i))"
  by (simp_all add: Decode_def Utype_Decode_def)

lemma Decode_J: "iclass i = Jtype cj \<Longrightarrow> rd (Decode i) = Some (dec_RD (encoding i))"
  "iclass i = Jtype cj \<Longrightarrow> imm (Decode i) = Some (dec_JTYPE_IMM (encoding i))"
  by (simp_all add: Decode_def Jtype_Decode_def)

lemma decode_assemble_fields:
  "class_of_encoding (assemble a) = asm_class a \<and>
   (let i = Decode (NewInstruction s p (assemble a) False buf)
    in case a of
         AsmR c r x y \<Rightarrow> rd i = Some (take_bit 5 r) \<and> rs1 i = Some (take_bit 5 x) \<and> rs2 i = Some (take_bit 5 y)
       | AsmI c r x im \<Rightarrow> rd i = Some (take_bit 5 r) \<and> rs1 i = Some (if I_system c then 0 else take_bit 5 x) \<and>
                          imm i = Some (I_imm c im)
       | AsmS c x y im \<Rightarrow> rs1 i = Some (take_bit 5 x) \<and> rs2 i = Some (take_bit 5 y) \<and> imm i = Some (take_bit 12 im)
       | AsmB c x y im \<Rightarrow> rs1 i = Some (take_bit 5 x) \<and> rs2 i = Some (take_bit 5 y) \<and>
                          imm i = Some (take_bit 13 im AND NOT 1)
       | AsmLUI r im \<Rightarrow> rd i = Some (take_bit 5 r) \<and> imm i = Some (im AND 0xfffff000)
       | AsmAUIPC r im \<Rightarrow> rd i = Some (take_bit 5 r) \<and> imm i = Some (im AND 0xfffff000)
       | AsmJAL r im \<Rightarrow> rd i = Some (take_bit 5 r) \<and> imm i = Some (take_bit 20 im AND NOT 1)
       | _ \<Rightarrow> True)"
proof -
  let ?i = "NewInstruction s p (assemble a) False buf"
  have i: "iclass ?i = asm_class a" "encoding ?i = assemble a"
    by (simp_all add: NewInstruction_def RiscvInstruction_new_def Let_def class_of_assemble)
  have f: "dec_RD (enc_fields a b c d e f) = take_bit 5 e" "dec_RS1 (enc_fields a b c d e f) = take_bit 5 c"
    "dec_RS2 (enc_fields a b c d e f) = take_bit 5 b" for a b c d e f
    by (simp_all only: dec_RD_def dec_RS1_def dec_RS2_def dec_enc_fields)
  have im: "dec_ITYPE_IMM (assemble (AsmI c r x im)) = I_imm c im" for c r x im
    by (simp add: dec_ITYPE_IMM_def ITYPE_IMM_enc I_imm_12)
  obtain j where j: "j = ?i" "iclass j = asm_class a" "encoding j = assemble a" using i by simp
  show ?thesis
    unfolding Let_def class_of_assemble j(1) [symmetric]
    using j(2,3) im STYPE_IMM_enc BTYPE_IMM_enc JTYPE_IMM_enc
    by (cases a) (simp_all add: Decode_R Decode_I Decode_S Decode_B Decode_U Decode_J f UTYPE_IMM_enc if_distrib)
qed

lemma take_bit_21: "take_bit 21 w = (take_bit 20 w :: u32)" if "\<not> bit w 20"
proof (rule bit_word_eqI)
  fix n
  show "bit (take_bit 21 w) n = bit (take_bit 20 w) n"
    using that by (cases "n = 20") (auto simp: bit_take_bit_iff)
qed

text \<open>
  C23. Decoding inverts assembling: from the encoding of any assembler instruction the factory
  creates the instruction's class, and the decoded register fields and immediate are those of the
  instruction at their widths, for JAL if its 21-bit offset is not negative (bit 20 of the offset
  is encoded but not decoded). Bit 0 of a branch or jump offset has no place in the encoding.
  ECALL and EBREAK have no fields; the assembler has every 32-bit instruction but FENCE and FENCE.I.
\<close>

theorem decode_assemble:
  "class_of_encoding (assemble a) = asm_class a \<and>
   (let i = Decode (NewInstruction s p (assemble a) False buf)
    in case a of
         AsmR c r x y \<Rightarrow> rd i = Some (take_bit 5 r) \<and> rs1 i = Some (take_bit 5 x) \<and> rs2 i = Some (take_bit 5 y)
       | AsmI c r x im \<Rightarrow> rd i = Some (take_bit 5 r) \<and> rs1 i = Some (if I_system c then 0 else take_bit 5 x) \<and>
                          imm i = Some (I_imm c im)
       | AsmS c x y im \<Rightarrow> rs1 i = Some (take_bit 5 x) \<and> rs2 i = Some (take_bit 5 y) \<and> imm i = Some (take_bit 12 im)
       | AsmB c x y im \<Rightarrow> rs1 i = Some (take_bit 5 x) \<and> rs2 i = Some (take_bit 5 y) \<and>
                          imm i = Some (take_bit 13 im AND NOT 1)
       | AsmLUI r im \<Rightarrow> rd i = Some (take_bit 5 r) \<and> imm i = Some (im AND 0xfffff000)
       | AsmAUIPC r im \<Rightarrow> rd i = Some (take_bit 5 r) \<and> imm i = Some (im AND 0xfffff000)
       | AsmJAL r im \<Rightarrow> rd i = Some (take_bit 5 r) \<and> (\<not> bit im 20 \<longrightarrow> imm i = Some (take_bit 21 im AND NOT 1))
       | _ \<Rightarrow> True)"
proof (cases a)
  case (AsmJAL r im)
  then show ?thesis
    using decode_assemble_fields [of a s p buf] by (simp add: Let_def take_bit_21 del: assemble.simps)
qed (use decode_assemble_fields [of a s p buf] in \<open>simp_all only: asm.case Let_def\<close>)

theorem decode_assemble_witness:
  "\<not> bit (0x1234 :: u32) 20 \<and> class_of_encoding (assemble (AsmJAL 1 0x1234)) = asm_class (AsmJAL 1 0x1234) \<and>
   imm (Decode (NewInstruction demo_core demo_platform (assemble (AsmJAL 1 0x1234)) False [])) = Some 0x1234"
  using decode_assemble [of "AsmJAL 1 0x1234" demo_core demo_platform "[]"]
  by (simp add: Let_def del: assemble.simps)

text \<open>
  C24. Every word the 32-bit decoder accepts as something other than JAL, FENCE or FENCE.I is a legal
  encoding of what it decodes: assembling the decoded class and fields gives the word back, so no
  two such encodings are confused and no reserved one is accepted. (Of JAL, FENCE and FENCE.I some
  bits are not decoded.)
\<close>

theorem assemble_decode:
  assumes "disassemble e = Some a"
  shows "assemble a = e \<and> asm_class a = class_of_encoding e"
proof (cases "class_of_encoding e")
  case (Rtype c)
  then show ?thesis
    using assms class_R_sel [OF Rtype] enc_of_sel [of e] by (auto simp: disassemble_def)
next
  case (Itype c)
  have r1: "(if I_system c then 0 else dec_RS1 e) = dec_RS1 e" using class_I_sel [OF Itype] by simp
  have "assemble (AsmI c (dec_RD e) (dec_RS1 e) (dec_ITYPE_IMM e)) = e"
    unfolding assemble.simps r1 I_imm_of_class [OF Itype] I_fields_of_imm
    using class_I_sel [OF Itype] enc_of_sel [of e] by simp
  moreover have "a = AsmI c (dec_RD e) (dec_RS1 e) (dec_ITYPE_IMM e)" using assms Itype by (simp add: disassemble_def)
  ultimately show ?thesis using Itype by (simp only: asm_class.simps simp_thms)
next
  case (Stype c)
  then show ?thesis
    using assms class_S_sel [OF Stype] enc_of_sel [of e] by (auto simp: disassemble_def S_fields_of_imm)
next
  case (Btype c)
  have "assemble (AsmB c (dec_RS1 e) (dec_RS2 e) (dec_BTYPE_IMM e)) = e"
    using class_B_sel [OF Btype] enc_of_sel [of e] unfolding assemble.simps B_fields_of_imm by simp
  moreover have "a = AsmB c (dec_RS1 e) (dec_RS2 e) (dec_BTYPE_IMM e)" using assms Btype by (simp add: disassemble_def)
  ultimately show ?thesis using Btype by (simp only: asm_class.simps simp_thms)
next
  case (Utype c)
  have "c = LUI \<Longrightarrow> assemble (AsmLUI (dec_RD e) (dec_UTYPE_IMM e)) = e"
    "c = AUIPC \<Longrightarrow> assemble (AsmAUIPC (dec_RD e) (dec_UTYPE_IMM e)) = e"
    using class_U_sel(1,2) [of e] enc_of_sel [of e] Utype by (simp_all add: U_fields_of_imm)
  then show ?thesis
    using assms Utype class_U_sel(3,4) [of e] class_of_assemble [of a] by (cases c) (auto simp: disassemble_def simp del: assemble.simps(1-7))
qed (use assms in \<open>simp_all add: disassemble_def\<close>)

theorem assemble_decode_witness:
  "disassemble 0x00c58533 = Some (AsmR ADD 10 11 12) \<and> assemble (AsmR ADD 10 11 12) = 0x00c58533"
proof -
  have d: "disassemble 0x00c58533 = Some (AsmR ADD 10 11 12)" by code_simp
  from assemble_decode [OF d] d show ?thesis by simp
qed
end
