(* ===== verification/Instr.thy ===== *)
theory Instr
  imports Instr_Decode
begin

text \<open>
  Execution of instructions: the helpers of \<open>include/riscv_instruction.h\<close>, the memory access methods
  and \<open>Writeback\<close> of \<open>src/riscv_instruction.C\<close>, and one \<open>Step\<close> per instruction as in
  \<open>src/rv32i_instrs.C\<close>. A step works on the instruction object, which holds the copy of the core state
  it changes. What C++ leaves undefined (an indeterminate field, a shift by 32 or more, a division by
  zero) ends in \<open>UB\<close>; a left shift of a negative value is taken as the two's complement one.
\<close>

unbundle bit_operations_syntax

type_synonym 'a step = "(RiscvInstruction, sim_throw, 'a) smx"

section \<open>Helpers\<close>

definition rs1_field :: "u32 step" where "rs1_field = needS UB rs1"
definition rd_field :: "u32 step" where "rd_field = needS UB rd"
definition IMM :: "u32 step" where "IMM = needS UB imm"

definition instr_X :: "u32 \<Rightarrow> u32 step" where
  "instr_X idx = getS (\<lambda>i. ucast (GP idx (i_state i)))"

definition RS1 :: "u32 step" where "RS1 = bindS rs1_field instr_X"
definition RS2 :: "u32 step" where "RS2 = bindS (needS UB rs2) instr_X"
definition RD_value :: "u32 step" where "RD_value = bindS rd_field instr_X"

definition upd_state :: "(RiscvState \<Rightarrow> RiscvState) \<Rightarrow> RiscvInstruction \<Rightarrow> RiscvInstruction" where
  "upd_state f i = i\<lparr>i_state := f (i_state i)\<rparr>"

definition RD :: "u32 \<Rightarrow> unit step" where
  "RD rval = bindS rd_field (\<lambda>r. modifyS (upd_state (SetGP r (ucast rval))))"

definition instr_SetSP :: "u64 \<Rightarrow> unit step" where
  "instr_SetSP rval = modifyS (upd_state (SetGP 2 rval))"

definition instr_PC :: "u32 step" where
  "instr_PC = getS (\<lambda>i. ucast (PC (i_state i)))"

definition UserMode :: "bool step" where
  "UserMode = getS (\<lambda>i. CurrentPrivilegeLevel (i_state i) = USER_MODE)"

definition MachineMode :: "bool step" where
  "MachineMode = getS (\<lambda>i. CurrentPrivilegeLevel (i_state i) = MACHINE_MODE)"

definition instr_CSR :: "u32 \<Rightarrow> u64 step" where
  "instr_CSR csr = (\<lambda>i. (CSR csr (PrivilegeLevel (i_state i)) (i_state i), i))"

definition instr_SetCSR :: "u32 \<Rightarrow> u64 \<Rightarrow> unit step" where
  "instr_SetCSR csr rval =
     (\<lambda>i. case SetCSR csr (PrivilegeLevel (i_state i)) rval (i_state i) of
            Inl e \<Rightarrow> (Inl e, i)
          | Inr s \<Rightarrow> (Inr (), i\<lparr>i_state := s\<rparr>))"

text \<open>The loop sets the bits from the sign bit up to bit 63.\<close>

definition SignExtend :: "u64 \<Rightarrow> nat \<Rightarrow> u64" where
  "SignExtend oper field_width =
     (let sign_bit = field_width - 1
      in if drop_bit sign_bit oper AND 1 = 1
         then foldl (\<lambda>oper i. oper OR push_bit i 1) oper [sign_bit..<64]
         else oper)"

definition SIGN_EXTEND_IMM :: "nat \<Rightarrow> u64 step" where
  "SIGN_EXTEND_IMM sign_bit = bindS IMM (\<lambda>i. returnS (SignExtend (ucast i) sign_bit))"

definition UNSIGNED_SIGN_EXTEND_IMM :: "nat \<Rightarrow> u64 step" where
  "UNSIGNED_SIGN_EXTEND_IMM sign_bit = bindS IMM (\<lambda>i. returnS (SignExtend (ucast i) sign_bit))"

definition IMM_FOR_SHIFT :: "u32 step" where
  "IMM_FOR_SHIFT = bindS IMM (\<lambda>i. returnS (i AND 0x1f))"

text \<open>The right operand of a C++ shift of a 32-bit value.\<close>

definition shift_amount :: "u32 \<Rightarrow> nat step" where
  "shift_amount y = (if y < 32 then returnS (unat y) else throwS UB)"

definition instr_SetPC :: "u64 \<Rightarrow> u64 \<Rightarrow> unit step" where
  "instr_SetPC branch_pc alignment =
     (\<lambda>i. let alignment_mask = (if CompressedExtensionEnabled (i_state i) then 1 else alignment - 1)
          in if branch_pc AND alignment_mask \<noteq> 0
             then (Inl (SimExc INSTRUCTION_ADDRESS_MISALIGNED), upd_state (RecordMisalignedAddress branch_pc) i)
             else (Inr (), i\<lparr>next_pc := ucast branch_pc\<rparr>))"

definition branch :: "(u32 \<Rightarrow> u32 \<Rightarrow> bool) \<Rightarrow> unit step" where
  "branch cond = bindS instr_PC (\<lambda>pc. bindS RS1 (\<lambda>x. bindS RS2 (\<lambda>y.
     bindS (SIGN_EXTEND_IMM 13) (\<lambda>i. instr_SetPC (ucast pc + (if cond x y then i else 4)) 4))))"

section \<open>Memory accesses\<close>

definition MemoryAccess_new :: "u64 \<Rightarrow> int \<Rightarrow> ACCESS_TYPE \<Rightarrow> int \<Rightarrow> int \<Rightarrow> bool \<Rightarrow> buffer \<Rightarrow> MemoryAccess" where
  "MemoryAccess_new address sz type direction word_size privileged buf =
     \<lparr>ma_address = address, ma_size = sz, ma_type = type, ma_direction = direction, ma_word_size = word_size,
      ma_privileged = privileged, membuffer = (if type \<noteq> INSTRUCTION \<and> direction = 1 then take (nat sz) buf else [])\<rparr>"

definition ma_IsWrite :: "MemoryAccess \<Rightarrow> bool" where "ma_IsWrite a \<longleftrightarrow> ma_direction a = 1"
definition ma_IsData :: "MemoryAccess \<Rightarrow> bool" where "ma_IsData a \<longleftrightarrow> ma_type a \<noteq> INSTRUCTION"

definition ma_Aligned :: "MemoryAccess \<Rightarrow> bool" where
  "ma_Aligned a \<longleftrightarrow> ma_word_size a = 1 \<or> word_of_int (ma_word_size a - 1) AND ma_address a = 0"

definition valid_access_size :: "int \<Rightarrow> bool" where
  "valid_access_size sz \<longleftrightarrow> sz = 1 \<or> sz = 2 \<or> sz = 4 \<or> sz = 8"

text \<open>The byte loops, with the order of the host.\<close>

definition store_mbuf :: "bool \<Rightarrow> nat \<Rightarrow> u64 \<Rightarrow> buffer \<Rightarrow> buffer" where
  "store_mbuf big n rval buf =
     foldl (\<lambda>b k. b[(if big then n - 1 - k else k) := ucast (drop_bit (8 * k) rval)]) buf [0..<n]"

text \<open>
  On a little endian host a byte is promoted to \<open>int\<close> before the shift and sign extended after it;
  for eight bytes, which no instruction reads, the shift is by more than the width.
\<close>

definition load_mbuf :: "bool \<Rightarrow> nat \<Rightarrow> buffer \<Rightarrow> u64" where
  "load_mbuf big n buf =
     foldl (\<lambda>rval k. rval OR (if big then push_bit (8 * k) (ucast (buf ! (n - 1 - k)))
                             else scast (push_bit (8 * k) (ucast (buf ! k) :: u32)))) 0 [0..<n]"

definition MEMORY_WRITE :: "u64 \<Rightarrow> int \<Rightarrow> u64 \<Rightarrow> unit step" where
  "MEMORY_WRITE address sz rval =
     (\<lambda>i. if \<not> valid_access_size sz then (Inl RuntimeError, i)
          else let buf = store_mbuf (host_endianness (memory (i_memory i))) (nat sz) rval (mbuf i)
               in (Inr (), i\<lparr>mbuf := buf,
                    mOpsMemory := mOpsMemory i @ [MemoryAccess_new address sz DATA 1 sz False buf]\<rparr>))"

definition MEMORY_READ :: "u64 \<Rightarrow> int \<Rightarrow> u64 step" where
  "MEMORY_READ address sz =
     (\<lambda>i. if \<not> valid_access_size sz then (Inl RuntimeError, i)
          else case ReadMemory (i_state i) address True False sz True (mbuf i) False True (i_memory i) of
                 (Inl e, p) \<Rightarrow> (Inl e, i\<lparr>i_memory := p\<rparr>)
               | (Inr (rcode, buf), p) \<Rightarrow>
                   (if sz = 8 \<and> \<not> host_endianness (memory p) then Inl UB
                    else Inr (load_mbuf (host_endianness (memory p)) (nat sz) buf),
                    i\<lparr>i_memory := p, mbuf := buf,
                      mOpsMemory := mOpsMemory i @ [MemoryAccess_new address sz DATA 0 sz False buf]\<rparr>))"

section \<open>The instructions\<close>

definition ADDI_Step :: "unit step" where
  "ADDI_Step =
     bindS RS1 (\<lambda>x. bindS (SIGN_EXTEND_IMM 12) (\<lambda>i. RD (ucast ((ucast x :: u64) + i))))"

definition SLTI_Step :: "unit step" where
  "SLTI_Step =
     bindS RS1 (\<lambda>x. bindS (SIGN_EXTEND_IMM 12) (\<lambda>i. RD (if sint x < sint (ucast i :: u32) then 1 else 0)))"

definition SLTIU_Step :: "unit step" where
  "SLTIU_Step =
     bindS RS1 (\<lambda>x. bindS (UNSIGNED_SIGN_EXTEND_IMM 12) (\<lambda>i. RD (if x < ucast i then 1 else 0)))"

definition ANDI_Step :: "unit step" where
  "ANDI_Step =
     bindS RS1 (\<lambda>x. bindS (SIGN_EXTEND_IMM 12) (\<lambda>i. RD (x AND ucast i)))"

definition ORI_Step :: "unit step" where
  "ORI_Step =
     bindS RS1 (\<lambda>x. bindS (SIGN_EXTEND_IMM 12) (\<lambda>i. RD (x OR ucast i)))"

definition XORI_Step :: "unit step" where
  "XORI_Step =
     bindS RS1 (\<lambda>x. bindS (SIGN_EXTEND_IMM 12) (\<lambda>i. RD (x XOR ucast i)))"

definition SLLI_Step :: "unit step" where
  "SLLI_Step =
     bindS RS1 (\<lambda>x. bindS IMM_FOR_SHIFT (\<lambda>n. RD (push_bit (unat n) x)))"

definition SRLI_Step :: "unit step" where
  "SRLI_Step =
     bindS RS1 (\<lambda>x. bindS IMM_FOR_SHIFT (\<lambda>n. RD (drop_bit (unat n) x)))"

definition SRAI_Step :: "unit step" where
  "SRAI_Step =
     bindS RS1 (\<lambda>x. bindS IMM_FOR_SHIFT (\<lambda>n. RD (ucast (SignExtend (ucast (drop_bit (unat n) x)) (32 - unat n)))))"

definition LUI_Step :: "unit step" where
  "LUI_Step =
     bindS IMM RD"

definition AUIPC_Step :: "unit step" where
  "AUIPC_Step =
     bindS IMM (\<lambda>i. bindS instr_PC (\<lambda>pc. RD (pc + i)))"

definition ADD_Step :: "unit step" where
  "ADD_Step =
     bindS RS1 (\<lambda>x. bindS RS2 (\<lambda>y. RD (x + y)))"

definition SLT_Step :: "unit step" where
  "SLT_Step =
     bindS RS1 (\<lambda>x. bindS RS2 (\<lambda>y. RD (if sint x < sint y then 1 else 0)))"

definition SLTU_Step :: "unit step" where
  "SLTU_Step =
     bindS RS1 (\<lambda>x. bindS RS2 (\<lambda>y. RD (if x < y then 1 else 0)))"

definition ANDr_Step :: "unit step" where
  "ANDr_Step =
     bindS RS1 (\<lambda>x. bindS RS2 (\<lambda>y. RD (x AND y)))"

definition ORr_Step :: "unit step" where
  "ORr_Step =
     bindS RS1 (\<lambda>x. bindS RS2 (\<lambda>y. RD (x OR y)))"

definition XORr_Step :: "unit step" where
  "XORr_Step =
     bindS RS1 (\<lambda>x. bindS RS2 (\<lambda>y. RD (x XOR y)))"

definition SLL_Step :: "unit step" where
  "SLL_Step =
     bindS RS1 (\<lambda>x. bindS RS2 (\<lambda>y. bindS (shift_amount y) (\<lambda>n. RD (push_bit n x))))"

definition SRL_Step :: "unit step" where
  "SRL_Step =
     bindS RS1 (\<lambda>x. bindS RS2 (\<lambda>y. bindS (shift_amount y) (\<lambda>n. RD (drop_bit n x))))"

definition SUB_Step :: "unit step" where
  "SUB_Step =
     bindS RS1 (\<lambda>x. bindS RS2 (\<lambda>y. RD (x - y)))"

definition SRA_Step :: "unit step" where
  "SRA_Step =
     bindS RS1 (\<lambda>x. bindS RS2 (\<lambda>y. bindS (shift_amount y) (\<lambda>n.
     RD (ucast (SignExtend (ucast (drop_bit n x)) (32 - unat (y AND 0x1f)))))))"

definition JAL_Step :: "unit step" where
  "JAL_Step =
     bindS instr_PC (\<lambda>pc. bindS (SIGN_EXTEND_IMM 20) (\<lambda>i.
     thenS (instr_SetPC (ucast pc + i) 4) (RD (pc + 4))))"

definition JALR_Step :: "unit step" where
  "JALR_Step =
     bindS RS1 (\<lambda>x. bindS (SIGN_EXTEND_IMM 12) (\<lambda>i.
     thenS (instr_SetPC ((ucast x + i) AND 0xfffffffe) 4) (bindS instr_PC (\<lambda>pc. RD (pc + 4)))))"

definition BEQ_Step :: "unit step" where
  "BEQ_Step =
     branch (\<lambda>x y. x = y)"

definition BNE_Step :: "unit step" where
  "BNE_Step =
     branch (\<lambda>x y. x \<noteq> y)"

definition BLT_Step :: "unit step" where
  "BLT_Step =
     branch (\<lambda>x y. sint x < sint y)"

definition BLTU_Step :: "unit step" where
  "BLTU_Step =
     branch (\<lambda>x y. x < y)"

definition BGE_Step :: "unit step" where
  "BGE_Step =
     branch (\<lambda>x y. sint x \<ge> sint y)"

definition BGEU_Step :: "unit step" where
  "BGEU_Step =
     branch (\<lambda>x y. x \<ge> y)"

definition LB_Step :: "unit step" where
  "LB_Step =
     bindS RS1 (\<lambda>x. bindS (SIGN_EXTEND_IMM 12) (\<lambda>i.
     bindS (MEMORY_READ (ucast x + i) 1) (\<lambda>v. RD (ucast (SignExtend v 8)))))"

definition LH_Step :: "unit step" where
  "LH_Step =
     bindS RS1 (\<lambda>x. bindS (SIGN_EXTEND_IMM 12) (\<lambda>i.
     bindS (MEMORY_READ (ucast x + i) 2) (\<lambda>v. RD (ucast (SignExtend v 16)))))"

definition LW_Step :: "unit step" where
  "LW_Step =
     bindS RS1 (\<lambda>x. bindS (SIGN_EXTEND_IMM 12) (\<lambda>i.
     bindS (MEMORY_READ (ucast x + i) 4) (\<lambda>v. RD (ucast v))))"

definition LBU_Step :: "unit step" where
  "LBU_Step =
     bindS RS1 (\<lambda>x. bindS (SIGN_EXTEND_IMM 12) (\<lambda>i.
     bindS (MEMORY_READ (ucast x + i) 1) (\<lambda>v. RD (ucast v))))"

definition LHU_Step :: "unit step" where
  "LHU_Step =
     bindS RS1 (\<lambda>x. bindS (SIGN_EXTEND_IMM 12) (\<lambda>i.
     bindS (MEMORY_READ (ucast x + i) 2) (\<lambda>v. RD (ucast v))))"

definition SB_Step :: "unit step" where
  "SB_Step =
     bindS RS1 (\<lambda>x. bindS (SIGN_EXTEND_IMM 12) (\<lambda>i.
     bindS RS2 (\<lambda>y. MEMORY_WRITE (ucast x + i) 1 (ucast y))))"

definition SH_Step :: "unit step" where
  "SH_Step =
     bindS RS1 (\<lambda>x. bindS (SIGN_EXTEND_IMM 12) (\<lambda>i.
     bindS RS2 (\<lambda>y. MEMORY_WRITE (ucast x + i) 2 (ucast y))))"

definition SW_Step :: "unit step" where
  "SW_Step =
     bindS RS1 (\<lambda>x. bindS (SIGN_EXTEND_IMM 12) (\<lambda>i.
     bindS RS2 (\<lambda>y. MEMORY_WRITE (ucast x + i) 4 (ucast y))))"

definition FENCE_Step :: "unit step" where
  "FENCE_Step =
     returnS ()"

definition FENCE_I_Step :: "unit step" where
  "FENCE_I_Step =
     returnS ()"

definition SFENCE_Step :: "unit step" where
  "SFENCE_Step =
     returnS ()"

definition CSRRW_Step :: "unit step" where
  "CSRRW_Step =
     bindS RS1 (\<lambda>tmp. bindS IMM (\<lambda>c. thenS (bindS (instr_CSR c) (\<lambda>v. RD (ucast v)))
     (instr_SetCSR c (ucast tmp))))"

definition CSRRS_Step :: "unit step" where
  "CSRRS_Step =
     bindS RS1 (\<lambda>tmp. bindS IMM (\<lambda>c. thenS (bindS (instr_CSR c) (\<lambda>v. RD (ucast v)))
     (bindS rs1_field (\<lambda>r. if r \<noteq> 0 then bindS (instr_CSR c) (\<lambda>v. instr_SetCSR c (v OR ucast tmp)) else returnS ()))))"

definition CSRRC_Step :: "unit step" where
  "CSRRC_Step =
     bindS RS1 (\<lambda>tmp. bindS IMM (\<lambda>c. thenS (bindS (instr_CSR c) (\<lambda>v. RD (ucast v)))
     (bindS rs1_field (\<lambda>r. if r \<noteq> 0 then bindS (instr_CSR c) (\<lambda>v. instr_SetCSR c (v AND ucast (NOT tmp))) else returnS ()))))"

definition CSRRWI_Step :: "unit step" where
  "CSRRWI_Step =
     bindS IMM (\<lambda>c. thenS (bindS (instr_CSR c) (\<lambda>v. RD (ucast v)))
     (bindS rs1_field (\<lambda>r. instr_SetCSR c (ucast r))))"

definition CSRRSI_Step :: "unit step" where
  "CSRRSI_Step =
     bindS IMM (\<lambda>c. thenS (bindS (instr_CSR c) (\<lambda>v. RD (ucast v)))
     (bindS rs1_field (\<lambda>r. if r \<noteq> 0 then bindS (instr_CSR c) (\<lambda>v. instr_SetCSR c (v + ucast r)) else returnS ())))"

definition CSRRCI_Step :: "unit step" where
  "CSRRCI_Step =
     bindS IMM (\<lambda>c. thenS (bindS (instr_CSR c) (\<lambda>v. RD (ucast v)))
     (bindS rs1_field (\<lambda>r. if r \<noteq> 0 then bindS (instr_CSR c) (\<lambda>v. instr_SetCSR c (v - ucast r)) else returnS ())))"

definition ECALL_Step :: "unit step" where
  "ECALL_Step =
     bindS UserMode (\<lambda>u. if u then throwS (SimExc ENV_CALL_UMODE) else throwS (SimExc ENV_CALL_MMODE))"

definition EBREAK_Step :: "unit step" where
  "EBREAK_Step =
     returnS ()"

definition URET_Step :: "unit step" where
  "URET_Step =
     throwS (SimExc ILLEGAL_INSTRUCTION_UNIMPL_INSTR)"

definition SRET_Step :: "unit step" where
  "SRET_Step =
     throwS (SimExc ILLEGAL_INSTRUCTION_UNIMPL_INSTR)"

definition HRET_Step :: "unit step" where
  "HRET_Step =
     throwS (SimExc ILLEGAL_INSTRUCTION_UNIMPL_INSTR)"

definition MRET_Step :: "unit step" where
  "MRET_Step =
     bindS MachineMode (\<lambda>m. if m then throwS (SimExc PROCESS_MRET)
     else throwS (SimExc ILLEGAL_INSTRUCTION_PRIVILEGED_INSTR))"

definition WFI_Step :: "unit step" where
  "WFI_Step =
     bindS UserMode (\<lambda>u. if u then throwS (SimExc ILLEGAL_INSTRUCTION_PRIVILEGED_INSTR)
     else bindS (getS (\<lambda>i. WFIEnabled (i_state i))) (\<lambda>w. if w then throwS (SimExc PROCESS_WFI)
       else throwS (SimExc ILLEGAL_INSTRUCTION_UNIMPL_INSTR)))"

definition MUL_Step :: "unit step" where
  "MUL_Step =
     bindS RS1 (\<lambda>x. bindS RS2 (\<lambda>y. RD (x * y)))"

definition MULHU_Step :: "unit step" where
  "MULHU_Step =
     bindS RS1 (\<lambda>x. bindS RS2 (\<lambda>y. RD (ucast (drop_bit 32 ((ucast x :: u64) * ucast y)))))"

definition MULH_Step :: "unit step" where
  "MULH_Step =
     bindS RS1 (\<lambda>x. bindS RS2 (\<lambda>y. RD (ucast (drop_bit 32 (SignExtend (ucast x) 32 * SignExtend (ucast y) 32)))))"

definition MULHSU_Step :: "unit step" where
  "MULHSU_Step =
     bindS RS1 (\<lambda>x. bindS RS2 (\<lambda>y. RD (ucast (drop_bit 32 (SignExtend (ucast x) 32 * ucast y)))))"

definition DIV_Step :: "unit step" where
  "DIV_Step =
     bindS RS2 (\<lambda>y. if y = 0 then RD (- 1)
     else bindS RS1 (\<lambda>x. if x = 0x80000000 \<and> y = - 1 then RD 0x80000000
       else RD (word_of_int (sint x sdiv sint y))))"

definition DIVU_Step :: "unit step" where
  "DIVU_Step =
     bindS RS2 (\<lambda>y. if y = 0 then RD (- 1) else bindS RS1 (\<lambda>x. RD (x div y)))"

definition REM_Step :: "unit step" where
  "REM_Step =
     bindS RS2 (\<lambda>y. bindS RS1 (\<lambda>x. if y = 0 then RD x
     else if x = 0x80000000 \<and> y = - 1 then RD 0
     else let rdq = sint x sdiv sint y; rem = sint x - rdq * sint y in RD (word_of_int rem)))"

definition REMU_Step :: "unit step" where
  "REMU_Step =
     bindS RS1 (\<lambda>x. bindS RS2 (\<lambda>y. if y = 0 then throwS UB
     else let rdq = (ucast x :: u64) div ucast y; rem = ucast (rdq * ucast y - ucast y) in RD rem))"

definition C_LWSP_Step :: "unit step" where
  "C_LWSP_Step =
     bindS (instr_X 2) (\<lambda>x. bindS IMM (\<lambda>i. bindS (MEMORY_READ (ucast (x + i * 4)) 4) (\<lambda>v. RD (ucast v))))"

definition C_SWSP_Step :: "unit step" where
  "C_SWSP_Step =
     bindS (instr_X 2) (\<lambda>x. bindS IMM (\<lambda>i. bindS RS2 (\<lambda>y. MEMORY_WRITE (ucast (x + i * 4)) 4 (ucast y))))"

definition C_LW_Step :: "unit step" where
  "C_LW_Step =
     bindS RS1 (\<lambda>x. bindS IMM (\<lambda>i. bindS (MEMORY_READ (ucast (x + i * 4)) 4) (\<lambda>v. RD (ucast v))))"

definition C_SW_Step :: "unit step" where
  "C_SW_Step =
     bindS RS1 (\<lambda>x. bindS IMM (\<lambda>i. bindS RS2 (\<lambda>y. MEMORY_WRITE (ucast (x + i * 4)) 4 (ucast y))))"

definition C_J_Step :: "unit step" where
  "C_J_Step =
     bindS instr_PC (\<lambda>pc. bindS (SIGN_EXTEND_IMM 11) (\<lambda>i. instr_SetPC (ucast pc + i) 2))"

definition C_JAL_Step :: "unit step" where
  "C_JAL_Step =
     bindS instr_PC (\<lambda>pc. bindS (SIGN_EXTEND_IMM 11) (\<lambda>i.
     thenS (instr_SetPC (ucast pc + i) 2) (RD (pc + 2))))"

definition C_JR_Step :: "unit step" where
  "C_JR_Step =
     bindS RS1 (\<lambda>x. instr_SetPC (ucast x) 2)"

definition C_JALR_Step :: "unit step" where
  "C_JALR_Step =
     bindS RS1 (\<lambda>x. thenS (instr_SetPC (ucast x) 2) (bindS instr_PC (\<lambda>pc. RD (pc + 2))))"

definition C_BEQZ_Step :: "unit step" where
  "C_BEQZ_Step =
     bindS instr_PC (\<lambda>pc. bindS RS1 (\<lambda>x. bindS (SIGN_EXTEND_IMM 8) (\<lambda>i.
     instr_SetPC (ucast pc + (if x = 0 then i else 2)) 2)))"

definition C_BNEZ_Step :: "unit step" where
  "C_BNEZ_Step =
     bindS instr_PC (\<lambda>pc. bindS RS1 (\<lambda>x. bindS (SIGN_EXTEND_IMM 8) (\<lambda>i.
     instr_SetPC (ucast pc + (if x \<noteq> 0 then i else 2)) 2)))"

definition C_LI_Step :: "unit step" where
  "C_LI_Step =
     bindS rd_field (\<lambda>r. if r = 0 then throwS (SimExc ILLEGAL_INSTRUCTION_UNIMPL_INSTR)
     else bindS (SIGN_EXTEND_IMM 6) (\<lambda>i. RD (ucast i)))"

definition C_LUI_Step :: "unit step" where
  "C_LUI_Step =
     bindS rd_field (\<lambda>r. if r = 0 \<or> r = 2 then throwS (SimExc ILLEGAL_INSTRUCTION_UNIMPL_INSTR)
     else bindS IMM (\<lambda>i. RD (ucast (SignExtend (ucast (push_bit 12 i)) 17))))"

definition C_ADDI_Step :: "unit step" where
  "C_ADDI_Step =
     bindS IMM (\<lambda>c. if c = 0 then throwS (SimExc ILLEGAL_INSTRUCTION_UNIMPL_INSTR)
     else bindS RS1 (\<lambda>x. bindS (SIGN_EXTEND_IMM 6) (\<lambda>i. RD (ucast ((ucast x :: u64) + i)))))"

definition C_ADDI16SP_Step :: "unit step" where
  "C_ADDI16SP_Step =
     bindS IMM (\<lambda>c. if c = 0 then throwS (SimExc ILLEGAL_INSTRUCTION_UNIMPL_INSTR)
     else bindS (instr_X 2) (\<lambda>x. bindS (SIGN_EXTEND_IMM 6) (\<lambda>i. instr_SetSP (push_bit 4 (ucast x + i)))))"

definition C_ADDI4SPN_Step :: "unit step" where
  "C_ADDI4SPN_Step =
     bindS IMM (\<lambda>c. if c = 0 then throwS (SimExc ILLEGAL_INSTRUCTION_UNIMPL_INSTR)
     else bindS (instr_X 2) (\<lambda>x. RD (push_bit 4 (x + c))))"

definition C_SLLI_Step :: "unit step" where
  "C_SLLI_Step =
     bindS IMM (\<lambda>c. if c AND 0x20 \<noteq> 0 then throwS (SimExc ILLEGAL_INSTRUCTION_UNIMPL_INSTR) else SLLI_Step)"

definition C_SRLI_Step :: "unit step" where
  "C_SRLI_Step =
     bindS IMM (\<lambda>c. if c AND 0x20 \<noteq> 0 then throwS (SimExc ILLEGAL_INSTRUCTION_UNIMPL_INSTR) else SRLI_Step)"

definition C_SRAI_Step :: "unit step" where
  "C_SRAI_Step =
     bindS IMM (\<lambda>c. if c AND 0x20 \<noteq> 0 then throwS (SimExc ILLEGAL_INSTRUCTION_UNIMPL_INSTR) else SRAI_Step)"

definition C_ANDI_Step :: "unit step" where
  "C_ANDI_Step =
     bindS RD_value (\<lambda>x. bindS (SIGN_EXTEND_IMM 6) (\<lambda>i. RD (x AND ucast i)))"

definition C_MV_Step :: "unit step" where
  "C_MV_Step =
     bindS RS2 RD"

definition C_ADD_Step :: "unit step" where
  "C_ADD_Step =
     bindS RD_value (\<lambda>x. bindS RS2 (\<lambda>y. RD (x + y)))"

definition C_AND_Step :: "unit step" where
  "C_AND_Step =
     bindS RD_value (\<lambda>x. bindS RS2 (\<lambda>y. RD (x AND y)))"

definition C_OR_Step :: "unit step" where
  "C_OR_Step =
     bindS RD_value (\<lambda>x. bindS RS2 (\<lambda>y. RD (x OR y)))"

definition C_XOR_Step :: "unit step" where
  "C_XOR_Step =
     bindS RD_value (\<lambda>x. bindS RS2 (\<lambda>y. RD (x XOR y)))"

definition C_SUB_Step :: "unit step" where
  "C_SUB_Step =
     bindS RD_value (\<lambda>x. bindS RS2 (\<lambda>y. RD (x - y)))"

definition C_NOP_Step :: "unit step" where
  "C_NOP_Step =
     returnS ()"

definition C_EBREAK_Step :: "unit step" where
  "C_EBREAK_Step =
     returnS ()"

text \<open>The virtual call.\<close>

fun Step_R :: "R_class \<Rightarrow> unit step" where
  "Step_R ADD = ADD_Step"
| "Step_R SLT = SLT_Step"
| "Step_R SLTU = SLTU_Step"
| "Step_R ANDr = ANDr_Step"
| "Step_R ORr = ORr_Step"
| "Step_R XORr = XORr_Step"
| "Step_R SLL = SLL_Step"
| "Step_R SRL = SRL_Step"
| "Step_R SUB = SUB_Step"
| "Step_R SRA = SRA_Step"
| "Step_R MUL = MUL_Step"
| "Step_R MULH = MULH_Step"
| "Step_R MULHSU = MULHSU_Step"
| "Step_R MULHU = MULHU_Step"
| "Step_R DIV = DIV_Step"
| "Step_R DIVU = DIVU_Step"
| "Step_R REM = REM_Step"
| "Step_R REMU = REMU_Step"

fun Step_I :: "I_class \<Rightarrow> unit step" where
  "Step_I ADDI = ADDI_Step"
| "Step_I SLTI = SLTI_Step"
| "Step_I XORI = XORI_Step"
| "Step_I ORI = ORI_Step"
| "Step_I ANDI = ANDI_Step"
| "Step_I SLTIU = SLTIU_Step"
| "Step_I SLLI = SLLI_Step"
| "Step_I SRLI = SRLI_Step"
| "Step_I SRAI = SRAI_Step"
| "Step_I JALR = JALR_Step"
| "Step_I LB = LB_Step"
| "Step_I LH = LH_Step"
| "Step_I LW = LW_Step"
| "Step_I LBU = LBU_Step"
| "Step_I LHU = LHU_Step"
| "Step_I CSRRW = CSRRW_Step"
| "Step_I CSRRC = CSRRC_Step"
| "Step_I CSRRS = CSRRS_Step"
| "Step_I CSRRWI = CSRRWI_Step"
| "Step_I CSRRSI = CSRRSI_Step"
| "Step_I CSRRCI = CSRRCI_Step"
| "Step_I URET = URET_Step"
| "Step_I SRET = SRET_Step"
| "Step_I HRET = HRET_Step"
| "Step_I MRET = MRET_Step"
| "Step_I WFI = WFI_Step"
| "Step_I SFENCE = SFENCE_Step"

fun Step_S :: "S_class \<Rightarrow> unit step" where
  "Step_S SB = SB_Step"
| "Step_S SH = SH_Step"
| "Step_S SW = SW_Step"

fun Step_B :: "B_class \<Rightarrow> unit step" where
  "Step_B BEQ = BEQ_Step"
| "Step_B BNE = BNE_Step"
| "Step_B BLT = BLT_Step"
| "Step_B BGE = BGE_Step"
| "Step_B BLTU = BLTU_Step"
| "Step_B BGEU = BGEU_Step"

fun Step_U :: "U_class \<Rightarrow> unit step" where
  "Step_U LUI = LUI_Step"
| "Step_U FENCE = FENCE_Step"
| "Step_U FENCE_I = FENCE_I_Step"
| "Step_U ECALL = ECALL_Step"
| "Step_U EBREAK = EBREAK_Step"
| "Step_U AUIPC = AUIPC_Step"

fun Step_J :: "J_class \<Rightarrow> unit step" where
  "Step_J JAL = JAL_Step"

fun Step_CR :: "CR_class \<Rightarrow> unit step" where
  "Step_CR C_MV = C_MV_Step"
| "Step_CR C_ADD = C_ADD_Step"
| "Step_CR C_EBREAK = C_EBREAK_Step"
| "Step_CR C_JR = C_JR_Step"
| "Step_CR C_JALR = C_JALR_Step"

fun Step_CI :: "CI_class \<Rightarrow> unit step" where
  "Step_CI C_LWSP = C_LWSP_Step"
| "Step_CI C_LI = C_LI_Step"
| "Step_CI C_LUI = C_LUI_Step"
| "Step_CI C_ADDI = C_ADDI_Step"
| "Step_CI C_ADDI16SP = C_ADDI16SP_Step"
| "Step_CI C_SLLI = C_SLLI_Step"
| "Step_CI C_NOP = C_NOP_Step"

fun Step_CSS :: "CSS_class \<Rightarrow> unit step" where
  "Step_CSS C_SWSP = C_SWSP_Step"

fun Step_CIW :: "CIW_class \<Rightarrow> unit step" where
  "Step_CIW C_ADDI4SPN = C_ADDI4SPN_Step"

fun Step_CL :: "CL_class \<Rightarrow> unit step" where
  "Step_CL C_LW = C_LW_Step"

fun Step_CS :: "CS_class \<Rightarrow> unit step" where
  "Step_CS C_SW = C_SW_Step"
| "Step_CS C_AND = C_AND_Step"
| "Step_CS C_OR = C_OR_Step"
| "Step_CS C_XOR = C_XOR_Step"
| "Step_CS C_SUB = C_SUB_Step"

fun Step_CB :: "CB_class \<Rightarrow> unit step" where
  "Step_CB C_BEQZ = C_BEQZ_Step"
| "Step_CB C_BNEZ = C_BNEZ_Step"
| "Step_CB C_SRLI = C_SRLI_Step"
| "Step_CB C_SRAI = C_SRAI_Step"
| "Step_CB C_ANDI = C_ANDI_Step"

fun Step_CJ :: "CJ_class \<Rightarrow> unit step" where
  "Step_CJ C_J = C_J_Step"
| "Step_CJ C_JAL = C_JAL_Step"

fun Step :: "instr_class \<Rightarrow> unit step" where
  "Step (Rtype c) = Step_R c"
| "Step (Itype c) = Step_I c"
| "Step (Stype c) = Step_S c"
| "Step (Btype c) = Step_B c"
| "Step (Utype c) = Step_U c"
| "Step (Jtype c) = Step_J c"
| "Step (CRtype c) = Step_CR c"
| "Step (CItype c) = Step_CI c"
| "Step (CSStype c) = Step_CSS c"
| "Step (CIWtype c) = Step_CIW c"
| "Step (CLtype c) = Step_CL c"
| "Step (CStype c) = Step_CS c"
| "Step (CBtype c) = Step_CB c"
| "Step (CJtype c) = Step_CJ c"
| "Step UnknownInstruction = throwS (SimExc ILLEGAL_INSTRUCTION_UNKNOWN_INSTR)"

section \<open>Execution\<close>

definition AdvancePC :: "RiscvInstruction \<Rightarrow> RiscvInstruction" where
  "AdvancePC i = upd_state (RiscvState_SetPC (ucast (next_pc i))) i"

text \<open>Only simulator exceptions are caught; what the handler throws goes on.\<close>

definition Execute :: "unit step" where
  "Execute i =
     (let i = Decode i
      in case Step (iclass i) i of
           (Inr _, i1) \<Rightarrow> (Inr (), AdvancePC i1)
         | (Inl (SimExc e), i1) \<Rightarrow>
             (case ProcessException e (i_state i1) of
                Inl e' \<Rightarrow> (Inl e', i1)
              | Inr s \<Rightarrow> (Inr (), i1\<lparr>i_state := s\<rparr>))
         | (Inl e, i1) \<Rightarrow> (Inl e, i1))"

text \<open>The core takes over the copied state, then the queued writes are done in order.\<close>

fun write_mops :: "RiscvState \<Rightarrow> MemoryAccess list \<Rightarrow> platform \<Rightarrow> (sim_throw + unit) \<times> platform" where
  "write_mops s [] p = (Inr (), p)"
| "write_mops s (a # as) p =
     (if ma_IsWrite a
      then case WriteMemory s (ma_address a) (ma_IsData a) (ma_privileged a) (ma_size a) (ma_Aligned a)
                  (membuffer a) False p of
             (Inl e, p1) \<Rightarrow> (Inl e, p1)
           | (Inr _, p1) \<Rightarrow> write_mops s as p1
      else write_mops s as p)"

definition Writeback :: "RiscvInstruction \<Rightarrow> RiscvState \<Rightarrow> (sim_throw + unit) \<times> RiscvState \<times> platform" where
  "Writeback i core =
     (let core' = RiscvState_Update (i_state i) core
      in case write_mops (i_state i) (mOpsMemory i) (i_memory i) of (r, p) \<Rightarrow> (r, core', p))"


section \<open>Reading and writing fields\<close>

lemma upd_state_fields [simp]:
  "i_state (upd_state f i) = f (i_state i)" "i_memory (upd_state f i) = i_memory i" "next_pc (upd_state f i) = next_pc i"
  "mOpsMemory (upd_state f i) = mOpsMemory i" "rd (upd_state f i) = rd i" "rs1 (upd_state f i) = rs1 i"
  "rs2 (upd_state f i) = rs2 i" "imm (upd_state f i) = imm i" "iclass (upd_state f i) = iclass i" "mbuf (upd_state f i) = mbuf i"
  by (simp_all add: upd_state_def)

lemma rs1_field_Some [simp]: "rs1 i = Some r \<Longrightarrow> rs1_field i = (Inr r, i)"
  by (simp add: rs1_field_def)

lemma RS1_Some [simp]: "rs1 i = Some r \<Longrightarrow> RS1 i = (Inr (ucast (GP r (i_state i))), i)"
  by (simp add: RS1_def instr_X_def)

lemma RS2_Some [simp]: "rs2 i = Some r \<Longrightarrow> RS2 i = (Inr (ucast (GP r (i_state i))), i)"
  by (simp add: RS2_def instr_X_def)

lemma RD_Some [simp]: "rd i = Some r \<Longrightarrow> RD v i = (Inr (), upd_state (SetGP r (ucast v)) i)"
  by (simp add: RD_def rd_field_def)

lemma IMM_Some [simp]: "imm i = Some v \<Longrightarrow> IMM i = (Inr v, i)"
  by (simp add: IMM_def)

lemma SIGN_EXTEND_IMM_Some [simp]:
  "imm i = Some v \<Longrightarrow> SIGN_EXTEND_IMM n i = (Inr (SignExtend (ucast v) n), i)"
  "imm i = Some v \<Longrightarrow> UNSIGNED_SIGN_EXTEND_IMM n i = (Inr (SignExtend (ucast v) n), i)"
  by (simp_all add: SIGN_EXTEND_IMM_def UNSIGNED_SIGN_EXTEND_IMM_def)

lemma IMM_FOR_SHIFT_Some [simp]: "imm i = Some v \<Longrightarrow> IMM_FOR_SHIFT i = (Inr (v AND 0x1f), i)"
  by (simp add: IMM_FOR_SHIFT_def)

lemma instr_PC_apply [simp]: "instr_PC i = (Inr (ucast (PC (i_state i))), i)"
  by (simp add: instr_PC_def)

lemma shift_amount_ok [simp]: "y < 32 \<Longrightarrow> shift_amount y i = (Inr (unat y), i)"
  by (simp add: shift_amount_def)

section \<open>Sign extension\<close>

lemma bit_foldl_or:
  "bit (foldl (\<lambda>w i. w OR 2 ^ i) (v :: u64) ks) k \<longleftrightarrow> bit v k \<or> k \<in> set ks \<and> k < 64"
proof (induction ks arbitrary: v)
  case (Cons j ks)
  have "bit (v OR 2 ^ j) k \<longleftrightarrow> bit v k \<or> k = j \<and> k < 64" by (auto simp: bit_or_iff bit_exp_iff)
  then show ?case by (auto simp: Cons.IH)
qed simp

lemma bit_SignExtend:
  "bit (SignExtend v n) k \<longleftrightarrow> k < 64 \<and> (bit v k \<or> n - 1 \<le> k \<and> bit v (n - 1))"
proof -
  have "drop_bit (n - 1) v AND 1 = 1 \<longleftrightarrow> bit v (n - 1)"
    using drop_bit_and_1 [of "n - 1" v] by (auto simp: and_one_eq)
  moreover have "bit v k \<Longrightarrow> k < 64" by (auto dest: bit_imp_le_length)
  ultimately show ?thesis
    by (auto simp: SignExtend_def Let_def bit_foldl_or)
qed

text \<open>The loop is the sign extension of a value that fits the field.\<close>

lemma SignExtend_eq:
  assumes "0 < n"
  shows "SignExtend (take_bit n v) n = signed_take_bit (n - 1) v"
proof (rule bit_word_eqI)
  fix k assume "k < LENGTH(64)"
  with assms show "bit (SignExtend (take_bit n v) n) k = bit (signed_take_bit (n - 1) v) k"
    by (cases "k = n - 1") (auto simp: bit_SignExtend bit_take_bit_iff bit_signed_take_bit_iff min_def)
qed

lemma SignExtend_32: "SignExtend (ucast (x :: u32)) 32 = scast x"
proof (rule bit_word_eqI)
  fix k assume k: "k < LENGTH(64)"
  show "bit (SignExtend (ucast x) 32) k = bit (scast x :: u64) k"
    using k by (cases "k < 31"; cases "k = 31") (auto simp: bit_SignExtend bit_ucast_iff bit_signed_iff not_less min_def
      dest: bit_imp_le_length)
qed
end
