(* ===== verification/Instr_Alu.thy ===== *)
theory Instr_Alu
  imports Instr
begin

text \<open>
  Arithmetic, branches and jumps of the instruction set simulator against the architecture's
  definitions, for instructions fetched from their encodings; the deviations found are at the end.
\<close>

unbundle bit_operations_syntax

section \<open>Arithmetic against the architecture\<close>

text \<open>The results the architecture manual defines, by integer arithmetic.\<close>

fun alu_ref :: "R_class \<Rightarrow> u32 \<Rightarrow> u32 \<Rightarrow> u32" where
  "alu_ref ADD x y = word_of_int (uint x + uint y)"
| "alu_ref SUB x y = word_of_int (uint x - uint y)"
| "alu_ref SLL x y = word_of_int (uint x * 2 ^ (unat y mod 32))"
| "alu_ref SRL x y = word_of_int (uint x div 2 ^ (unat y mod 32))"
| "alu_ref SRA x y = word_of_int (sint x div 2 ^ (unat y mod 32))"
| "alu_ref SLT x y = (if sint x < sint y then 1 else 0)"
| "alu_ref SLTU x y = (if uint x < uint y then 1 else 0)"
| "alu_ref ANDr x y = x AND y"
| "alu_ref ORr x y = x OR y"
| "alu_ref XORr x y = x XOR y"
| "alu_ref MUL x y = word_of_int (uint x * uint y)"
| "alu_ref MULH x y = word_of_int (sint x * sint y div 2 ^ 32)"
| "alu_ref MULHSU x y = word_of_int (sint x * uint y div 2 ^ 32)"
| "alu_ref MULHU x y = word_of_int (uint x * uint y div 2 ^ 32)"
| "alu_ref DIV x y = (if y = 0 then - 1 else word_of_int (sint x sdiv sint y))"
| "alu_ref DIVU x y = (if y = 0 then - 1 else word_of_int (uint x div uint y))"
| "alu_ref REM x y = (if y = 0 then x else word_of_int (sint x smod sint y))"
| "alu_ref REMU x y = (if y = 0 then x else word_of_int (uint x mod uint y))"

text \<open>The upper half of a 64-bit product.\<close>

lemma upper_half: "ucast (drop_bit 32 (word_of_int z :: u64)) = (word_of_int (z div 2 ^ 32) :: u32)"
proof (rule bit_word_eqI)
  fix k assume "k < LENGTH(32)"
  then show "bit (ucast (drop_bit 32 (word_of_int z :: u64)) :: u32) k = bit (word_of_int (z div 2 ^ 32) :: u32) k"
    unfolding drop_bit_eq_div [symmetric] by (simp add: bit_ucast_iff bit_drop_bit_eq bit_of_int_iff)
qed

lemma word_of_int_sint_64: "(scast (x :: u32) :: u64) = word_of_int (sint x)"
  by simp

lemma word_of_int_uint_64: "(ucast (x :: u32) :: u64) = word_of_int (uint x)"
  by simp

lemma mulh_ok:
  "ucast (drop_bit 32 ((scast x :: u64) * scast y)) = (word_of_int (sint x * sint y div 2 ^ 32) :: u32)"
  "ucast (drop_bit 32 ((scast x :: u64) * ucast y)) = (word_of_int (sint x * uint y div 2 ^ 32) :: u32)"
  "ucast (drop_bit 32 ((ucast x :: u64) * ucast y)) = (word_of_int (uint x * uint y div 2 ^ 32) :: u32)"
  for x y :: u32
  unfolding word_of_int_sint_64 word_of_int_uint_64 of_int_mult [symmetric] by (rule upper_half)+

lemma sra_ok:
  fixes x :: u32
  assumes "n < 32"
  shows "ucast (SignExtend (ucast (drop_bit n x)) (32 - n)) = (word_of_int (sint x div 2 ^ n) :: u32)"
proof (rule bit_word_eqI)
  fix k assume k: "k < LENGTH(32)"
  have "word_of_int (sint x div 2 ^ n) = signed_drop_bit n x"
    unfolding drop_bit_eq_div [symmetric] sint_signed_drop_bit_eq [symmetric] by simp
  then show "bit (ucast (SignExtend (ucast (drop_bit n x)) (32 - n)) :: u32) k = bit (word_of_int (sint x div 2 ^ n) :: u32) k"
    using k assms
    by (cases "n + k = 31") (auto simp: bit_signed_drop_bit_iff bit_ucast_iff bit_SignExtend bit_drop_bit_eq min_def not_less dest: bit_imp_le_length)
qed

lemma srl_ok: "drop_bit n x = (word_of_int (uint x div 2 ^ n) :: u32)" for x :: u32
  by (rule bit_word_eqI)
    (auto simp: bit_drop_bit_eq bit_of_int_iff bit_uint_iff simp flip: drop_bit_eq_div dest: bit_imp_le_length)

lemma sll_ok: "push_bit n x = (word_of_int (uint x * 2 ^ n) :: u32)" for x :: u32
  by (simp add: push_bit_eq_mult)

lemma divu_ok: "word_of_int (uint x div uint y) = x div y" for x y :: u32
  by (simp add: uint_div [symmetric])

text \<open>Signed division: the overflow case the code treats apart is the wrap-around of the quotient.\<close>

lemma sdiv_overflow: "sint (0x80000000 :: u32) sdiv sint (- 1 :: u32) = 0x80000000" "sint (0x80000000 :: u32) smod sint (- 1 :: u32) = 0"
  by (simp_all add: signed_divide_int_def signed_modulo_int_def)

text \<open>A register-register instruction writes the architectural result, nothing else.\<close>

definition alu_defined :: "R_class \<Rightarrow> u32 \<Rightarrow> bool" where
  "alu_defined c y \<longleftrightarrow> (c \<in> {SLL, SRL, SRA} \<longrightarrow> y < 32) \<and> c \<noteq> REMU"

lemma Step_R_ok:
  assumes f: "rs1 i = Some a" "rs2 i = Some b" "rd i = Some r"
    and xy: "x = ucast (GP a (i_state i))" "y = ucast (GP b (i_state i))"
    and ok: "alu_defined c y"
  shows "Step_R c i = (Inr (), upd_state (SetGP r (ucast (alu_ref c x y))) i)"
proof -
  have sh: "c \<in> {SLL, SRL, SRA} \<Longrightarrow> y < 32" "c \<noteq> REMU" using ok by (simp_all add: alu_defined_def)
  have n: "unat y mod 32 = unat y" "unat (y AND 0x1f) = unat y" if "y < 32"
  proof -
    have "unat y < 32" using that by (simp add: word_less_nat_alt)
    then show "unat y mod 32 = unat y" by simp
    have "y AND 0x1f = take_bit 5 y" by (simp add: take_bit_eq_mask mask_numeral)
    then show "unat (y AND 0x1f) = unat y" using \<open>unat y < 32\<close> by (simp add: unsigned_take_bit_eq take_bit_nat_eq_self)
  qed
  show ?thesis
  proof (cases c)
    case DIV
    then show ?thesis using f xy sdiv_overflow by (auto simp: DIV_Step_def)
  next
    case REM
    then show ?thesis
      using f xy sdiv_overflow unfolding REM Step_R.simps alu_ref.simps REM_Step_def Let_def minus_sdiv_mult_eq_smod by auto
  next
    case SRA
    then have "y < 32" using sh by simp
    then show ?thesis using f xy n SRA sra_ok [of "unat y" x] by (simp add: SRA_Step_def word_less_nat_alt)
  qed (use f xy sh n in \<open>simp_all add: ADD_Step_def SUB_Step_def SLL_Step_def SRL_Step_def SLT_Step_def SLTU_Step_def
      ANDr_Step_def ORr_Step_def XORr_Step_def MUL_Step_def MULH_Step_def MULHSU_Step_def MULHU_Step_def DIVU_Step_def
      mulh_ok SignExtend_32 srl_ok sll_ok word_less_def divu_ok\<close>)
qed


section \<open>Executing assembled instructions\<close>

abbreviation fetched :: "RiscvState \<Rightarrow> platform \<Rightarrow> asm \<Rightarrow> buffer \<Rightarrow> RiscvInstruction" where
  "fetched s p a buf \<equiv> NewInstruction s p (assemble a) False buf"

lemma Decode_same [simp]:
  "iclass (Decode i) = iclass i" "i_state (Decode i) = i_state i" "i_memory (Decode i) = i_memory i"
  "next_pc (Decode i) = next_pc i" "mOpsMemory (Decode i) = mOpsMemory i" "mbuf (Decode i) = mbuf i"
  by (simp_all add: Decode_def Rtype_Decode_def Itype_Decode_def Stype_Decode_def Btype_Decode_def Utype_Decode_def
      Jtype_Decode_def CRtype_Decode_def CItype_Decode_def CSStype_Decode_def CIWtype_Decode_def CLtype_Decode_def
      CStype_Decode_def CBtype_Decode_def CJtype_Decode_def split: instr_class.splits)

lemma class_size_asm: "class_size (asm_class a) = 4"
  by (cases a) simp_all

lemma fetched_fields [simp]:
  "iclass (fetched s p a buf) = asm_class a" "i_state (fetched s p a buf) = s" "i_memory (fetched s p a buf) = p"
  "next_pc (fetched s p a buf) = ucast (PC s) + 4" "mOpsMemory (fetched s p a buf) = []" "mbuf (fetched s p a buf) = buf"
  by (simp_all add: NewInstruction_def RiscvInstruction_new_def Let_def class_of_assemble class_size_asm)

lemmas fetched_decode = decode_assemble_fields [unfolded Let_def, THEN conjunct2]

lemma AdvancePC_fields [simp]:
  "i_state (AdvancePC i) = RiscvState_SetPC (ucast (next_pc i)) (i_state i)" "i_memory (AdvancePC i) = i_memory i"
  "mOpsMemory (AdvancePC i) = mOpsMemory i"
  by (simp_all add: AdvancePC_def)

lemma Execute_return: "Step (iclass i) (Decode i) = (Inr (), i1) \<Longrightarrow> Execute i = (Inr (), AdvancePC i1)"
  by (simp add: Execute_def Let_def)

lemma Execute_trap:
  "Step (iclass i) (Decode i) = (Inl (SimExc e), i1) \<Longrightarrow> ProcessException e (i_state i1) = Inr s \<Longrightarrow>
   Execute i = (Inr (), i1\<lparr>i_state := s\<rparr>)"
  by (simp add: Execute_def Let_def)

text \<open>
  What a register-writing instruction without memory access leaves: one register set, the program
  counter at the next word, memory and queued accesses untouched.
\<close>

definition writes_rd :: "(sim_throw + unit) \<times> RiscvInstruction \<Rightarrow> RiscvState \<Rightarrow> platform \<Rightarrow> u32 \<Rightarrow> u32 \<Rightarrow> bool" where
  "writes_rd res s p r v \<longleftrightarrow> fst res = Inr () \<and> mOpsMemory (snd res) = [] \<and> i_memory (snd res) = p \<and>
     i_state (snd res) = RiscvState_SetPC (ucast (ucast (PC s) + 4 :: u32)) (SetGP r (ucast v) s)"

lemma writes_rd_I:
  assumes "Step (asm_class a) (Decode (fetched s p a buf)) = (Inr (), upd_state (SetGP r (ucast v)) (Decode (fetched s p a buf)))"
  shows "writes_rd (Execute (fetched s p a buf)) s p r v"
  using Execute_return [of "fetched s p a buf"] assms by (simp add: writes_rd_def)

text \<open>Immediate operations.\<close>

fun imm_ref :: "I_class \<Rightarrow> u32 \<Rightarrow> u32 \<Rightarrow> u32" where
  "imm_ref ADDI x i = alu_ref ADD x (signed_take_bit 11 i)"
| "imm_ref SLTI x i = alu_ref SLT x (signed_take_bit 11 i)"
| "imm_ref SLTIU x i = alu_ref SLTU x (signed_take_bit 11 i)"
| "imm_ref XORI x i = alu_ref XORr x (signed_take_bit 11 i)"
| "imm_ref ORI x i = alu_ref ORr x (signed_take_bit 11 i)"
| "imm_ref ANDI x i = alu_ref ANDr x (signed_take_bit 11 i)"
| "imm_ref SLLI x i = alu_ref SLL x (take_bit 5 i)"
| "imm_ref SRLI x i = alu_ref SRL x (take_bit 5 i)"
| "imm_ref SRAI x i = alu_ref SRA x (take_bit 5 i)"
| "imm_ref _ x i = 0"

lemma sx12: "ucast (SignExtend (ucast (take_bit 12 i :: u32)) 12) = (signed_take_bit 11 i :: u32)"
proof (rule bit_word_eqI)
  fix k assume "k < LENGTH(32)"
  then show "bit (ucast (SignExtend (ucast (take_bit 12 i)) 12) :: u32) k = bit (signed_take_bit 11 i) k"
    by (cases "k = 11") (auto simp: bit_ucast_iff bit_SignExtend bit_take_bit_iff bit_signed_take_bit_iff min_def)
qed

lemma ucast_plus: "ucast (a + b :: u64) = (ucast a + ucast b :: u32)"
proof -
  have "take_bit 32 (take_bit 64 (uint a + uint b)) = take_bit 32 (take_bit 32 (uint a) + take_bit 32 (uint b))"
    by (simp add: take_bit_add)
  then show ?thesis
    by (simp add: word_uint_eq_iff unsigned_ucast_eq uint_word_arith_bintrs)
qed

lemma ucast_u32_u64_u32 [simp]: "ucast (ucast (x :: u32) :: u64) = x"
  by (rule bit_word_eqI) (simp add: bit_ucast_iff)

lemma ucast_add_64: "ucast ((ucast x :: u64) + i) = x + ucast i" for x :: u32 and i :: u64
  by (simp add: ucast_plus)

lemma Step_I_ok:
  assumes f: "rs1 j = Some a" "imm j = Some (I_imm c i)" "rd j = Some r" and x: "x = ucast (GP a (i_state j))"
    and c: "c \<in> {ADDI, SLTI, SLTIU, XORI, ORI, ANDI, SLLI, SRLI, SRAI}"
  shows "Step_I c j = (Inr (), upd_state (SetGP r (ucast (imm_ref c x i))) j)"
proof -
  have n: "unat (take_bit 5 i) mod 32 = unat (take_bit 5 i)" "unat (take_bit 5 i) < 32"
    using take_bit_nat_less_exp [of 5 "unat i"] by (simp_all add: unsigned_take_bit_eq)
  have m: "take_bit 5 i AND 0x1f = take_bit 5 i" "(0x400 OR take_bit 5 i) AND 0x1f = take_bit 5 i"
    by (simp_all add: take_bit_eq_mask mask_numeral and.assoc bit.conj_disj_distrib2)
  show ?thesis
    using c
  proof (elim insertE emptyE)
    assume "c = SRAI"
    then show ?thesis using f x n m sra_ok [of "unat (take_bit 5 i)" x] by (simp add: SRAI_Step_def)
  qed (use f x n m in \<open>simp_all add: ADDI_Step_def SLTI_Step_def SLTIU_Step_def XORI_Step_def ORI_Step_def ANDI_Step_def
      SLLI_Step_def SRLI_Step_def ucast_add_64 sx12 srl_ok sll_ok word_less_def\<close>)
qed

section \<open>Branches and jumps\<close>

fun branch_taken :: "B_class \<Rightarrow> u32 \<Rightarrow> u32 \<Rightarrow> bool" where
  "branch_taken BEQ x y = (x = y)"
| "branch_taken BNE x y = (x \<noteq> y)"
| "branch_taken BLT x y = (sint x < sint y)"
| "branch_taken BGE x y = (sint y \<le> sint x)"
| "branch_taken BLTU x y = (uint x < uint y)"
| "branch_taken BGEU x y = (uint y \<le> uint x)"

lemma Step_B_eq: "Step_B c = branch (branch_taken c)"
  by (cases c; simp only: Step_B.simps BEQ_Step_def BNE_Step_def BLT_Step_def BGE_Step_def BLTU_Step_def BGEU_Step_def;
      rule arg_cong [where f = branch]; simp add: fun_eq_iff word_less_def word_le_def)

text \<open>Transfer of control to a target: taken if aligned, else a trap with the target in MTVAL.\<close>

definition aligned_target :: "RiscvState \<Rightarrow> u64 \<Rightarrow> bool" where
  "aligned_target s t \<longleftrightarrow> t AND (if CompressedExtensionEnabled s then 1 else 3) = 0"

lemma instr_SetPC_ok:
  "instr_SetPC t 4 j = (if aligned_target (i_state j) t then (Inr (), j\<lparr>next_pc := ucast t\<rparr>)
     else (Inl (SimExc INSTRUCTION_ADDRESS_MISALIGNED), upd_state (RecordMisalignedAddress t) j))"
  by (simp add: instr_SetPC_def aligned_target_def Let_def)

lemma branch_ok:
  assumes "rs1 j = Some a" "rs2 j = Some b" "imm j = Some i"
    and "x = ucast (GP a (i_state j))" "y = ucast (GP b (i_state j))"
  shows "branch cond j =
    instr_SetPC (ucast (ucast (PC (i_state j)) :: u32) + (if cond x y then SignExtend (ucast i) 13 else 4)) 4 j"
  using assms by (simp add: branch_def)

text \<open>Offsets are sign extended; only the low half of the sum becomes the program counter.\<close>

lemma sx13: "ucast (SignExtend (ucast (take_bit 13 i AND NOT 1 :: u32)) 13) = (signed_take_bit 12 (i AND NOT 1) :: u32)"
proof (rule bit_word_eqI)
  fix k assume "k < LENGTH(32)"
  then show "bit (ucast (SignExtend (ucast (take_bit 13 i AND NOT 1)) 13) :: u32) k = bit (signed_take_bit 12 (i AND NOT 1)) k"
    by (cases "k = 12") (auto simp: bit_ucast_iff bit_SignExtend bit_take_bit_iff bit_signed_take_bit_iff min_def bit_and_iff
        bit_not_iff bit_1_iff)
qed

lemma sx20: "ucast (SignExtend (ucast (take_bit 20 i AND NOT 1 :: u32)) 20) = (signed_take_bit 19 (i AND NOT 1) :: u32)"
proof (rule bit_word_eqI)
  fix k assume "k < LENGTH(32)"
  then show "bit (ucast (SignExtend (ucast (take_bit 20 i AND NOT 1)) 20) :: u32) k = bit (signed_take_bit 19 (i AND NOT 1)) k"
    by (cases "k = 19") (auto simp: bit_ucast_iff bit_SignExtend bit_take_bit_iff bit_signed_take_bit_iff min_def bit_and_iff
        bit_not_iff bit_1_iff)
qed

text \<open>Alignment only depends on the low half.\<close>

lemma aligned_target_low: "aligned_target s t \<longleftrightarrow> (ucast t :: u32) AND (if CompressedExtensionEnabled s then 1 else 3) = 0"
proof -
  have "t AND 1 = 0 \<longleftrightarrow> (ucast t :: u32) AND 1 = 0" "t AND 3 = 0 \<longleftrightarrow> (ucast t :: u32) AND 3 = 0"
    using drop_bit_and_1 [of 0 t] drop_bit_and_1 [of 0 "ucast t :: u32"]
    by (auto simp: two_bits bit_ucast_iff split: if_splits)
  then show ?thesis by (simp add: aligned_target_def)
qed

text \<open>
  The outcome of a control transfer to the 32-bit address \<open>t\<close> from state \<open>s\<close>: \<open>s1\<close> is what the instruction
  makes of the registers if it completes, a misaligned target traps with the target in MTVAL.
\<close>

definition transfers_to ::
    "(sim_throw + unit) \<times> RiscvInstruction \<Rightarrow> RiscvState \<Rightarrow> RiscvState \<Rightarrow> platform \<Rightarrow> u32 \<Rightarrow> bool" where
  "transfers_to res s s1 p t \<longleftrightarrow> fst res = Inr () \<and> mOpsMemory (snd res) = [] \<and> i_memory (snd res) = p \<and>
     (if t AND (if CompressedExtensionEnabled s then 1 else 3) = 0
      then i_state (snd res) = RiscvState_SetPC (ucast t) s1
      else \<exists>v. ucast v = t \<and> trap_entered INSTRUCTION_ADDRESS_MISALIGNED (set_reg MTVAL v s) (i_state (snd res)))"

lemma transfers_to_I:
  assumes wf: "wf_core s"
    and step: "Step (asm_class a) (Decode (fetched s p a buf)) = thenS (instr_SetPC v 4) k (Decode (fetched s p a buf))"
    and k: "\<And>j. rd j = rd (Decode (fetched s p a buf)) \<Longrightarrow> i_state j = s \<Longrightarrow> k j = (Inr (), upd_state (\<lambda>_. s1) j)"
    and t: "t = ucast v"
  shows "transfers_to (Execute (fetched s p a buf)) s s1 p t"
proof (cases "aligned_target s v")
  case True
  let ?j = "Decode (fetched s p a buf)"
  have "Step (asm_class a) ?j = (Inr (), upd_state (\<lambda>_. s1) (?j\<lparr>next_pc := ucast v\<rparr>))"
    using step True k [of "?j\<lparr>next_pc := ucast v\<rparr>"] instr_SetPC_ok [of v ?j] by simp
  then show ?thesis
    using Execute_return [of "fetched s p a buf"] True t by (simp add: transfers_to_def aligned_target_low)
next
  case False
  let ?j = "Decode (fetched s p a buf)"
  let ?s = "set_reg MTVAL v s"
  have st: "Step (asm_class a) ?j = (Inl (SimExc INSTRUCTION_ADDRESS_MISALIGNED), upd_state (RecordMisalignedAddress v) ?j)"
    using step False instr_SetPC_ok [of v ?j] by simp
  have "sync_trap INSTRUCTION_ADDRESS_MISALIGNED" by (simp add: sync_trap_def)
  from trap_entry_ok [OF wf_core_set_reg [OF wf] this] obtain s' where
    s': "ProcessException INSTRUCTION_ADDRESS_MISALIGNED ?s = Inr s'" "trap_entered INSTRUCTION_ADDRESS_MISALIGNED ?s s'" by blast
  then show ?thesis
    using Execute_trap [of "fetched s p a buf"] st False t
    by (auto simp: transfers_to_def aligned_target_low RecordMisalignedAddress_def)
qed

lemma thenS_return: "thenS m (returnS ()) = (m :: unit step)"
  by (auto simp: fun_eq_iff thenS_def bindS_def split: prod.splits sum.splits)

lemma SetGP_const: "upd_state (SetGP r v) j = upd_state (\<lambda>_. SetGP r v s) j" if "i_state j = s"
  using that by (simp add: upd_state_def)

section \<open>Properties of arithmetic and control transfer\<close>

lemma alu_register_step:
  assumes "alu_defined c (ucast (GP (take_bit 5 b) s))"
  shows "writes_rd (Execute (fetched s p (AsmR c r a b) buf)) s p (take_bit 5 r)
    (alu_ref c (ucast (GP (take_bit 5 a) s)) (ucast (GP (take_bit 5 b) s)))"
proof (rule writes_rd_I)
  let ?j = "Decode (fetched s p (AsmR c r a b) buf)"
  have "rd ?j = Some (take_bit 5 r)" "rs1 ?j = Some (take_bit 5 a)" "rs2 ?j = Some (take_bit 5 b)"
    using fetched_decode [where a = "AsmR c r a b" and s = s and p = p and buf = buf] by (simp_all only: asm.case)
  then show "Step (asm_class (AsmR c r a b)) ?j = (Inr (), upd_state (SetGP (take_bit 5 r)
      (ucast (alu_ref c (ucast (GP (take_bit 5 a) s)) (ucast (GP (take_bit 5 b) s))))) ?j)"
    using Step_R_ok [of ?j "take_bit 5 a" "take_bit 5 b" "take_bit 5 r"] assms
    by (simp del: assemble.simps alu_ref.simps)
qed

text \<open>
  C14. Every register-register instruction of RV32IM, fetched from its encoding and executed, writes
  the result the architecture defines (division by zero and overflow included) to its destination,
  leaves x0 zero, and advances the program counter by four. Excepted are what the code leaves
  undefined or gets wrong: register shifts by 32 or more, and REMU.
\<close>

theorem alu_register_correct:
  assumes "alu_defined c (ucast (GP (take_bit 5 b) s))"
  shows "writes_rd (Execute (fetched s p (AsmR c r a b) buf)) s p (take_bit 5 r)
    (alu_ref c (ucast (GP (take_bit 5 a) s)) (ucast (GP (take_bit 5 b) s)))"
  by (rule alu_register_step [OF assms])

theorem alu_register_correct_witness:
  "alu_defined DIV (ucast (GP (take_bit 5 6) demo_core)) \<and>
   writes_rd (Execute (fetched demo_core demo_platform (AsmR DIV 5 6 6) [])) demo_core demo_platform 5 (- 1)"
proof -
  have g: "GP 6 demo_core = 0"
    by (simp add: GP_def demo_core_def RiscvState_new_def SetMISA_def Let_def State.defs nth_Cons')
  have d: "alu_defined DIV (ucast (GP (take_bit 5 6) demo_core))" by (simp add: alu_defined_def)
  from alu_register_correct [OF d, of demo_platform 5 6 "[]"] d show ?thesis by (simp add: g)
qed

text \<open>
  C15. Every immediate operation, LUI and AUIPC writes the architecture's result: the 12-bit
  immediate sign extended, shifts by its low five bits, the upper immediate alone or added to the
  program counter.
\<close>

theorem alu_immediate_correct:
  "(c \<in> {ADDI, SLTI, SLTIU, XORI, ORI, ANDI, SLLI, SRLI, SRAI} \<longrightarrow>
     writes_rd (Execute (fetched s p (AsmI c r a i) buf)) s p (take_bit 5 r) (imm_ref c (ucast (GP (take_bit 5 a) s)) i)) \<and>
   writes_rd (Execute (fetched s p (AsmLUI r i) buf)) s p (take_bit 5 r) (i AND 0xfffff000) \<and>
   writes_rd (Execute (fetched s p (AsmAUIPC r i) buf)) s p (take_bit 5 r) (ucast (PC s) + (i AND 0xfffff000))"
proof (intro conjI impI)
  assume c: "c \<in> {ADDI, SLTI, SLTIU, XORI, ORI, ANDI, SLLI, SRLI, SRAI}"
  let ?j = "Decode (fetched s p (AsmI c r a i) buf)"
  have "\<not> I_system c" using c by (auto simp: I_system_def)
  then have f: "rd ?j = Some (take_bit 5 r)" "rs1 ?j = Some (take_bit 5 a)" "imm ?j = Some (I_imm c i)"
    using fetched_decode [where a = "AsmI c r a i" and s = s and p = p and buf = buf] by (simp_all only: asm.case if_False)
  show "writes_rd (Execute (fetched s p (AsmI c r a i) buf)) s p (take_bit 5 r) (imm_ref c (ucast (GP (take_bit 5 a) s)) i)"
    by (rule writes_rd_I)
      (use Step_I_ok [OF f(2,3,1) refl c] in \<open>simp del: assemble.simps imm_ref.simps\<close>)
next
  show "writes_rd (Execute (fetched s p (AsmLUI r i) buf)) s p (take_bit 5 r) (i AND 0xfffff000)"
    by (rule writes_rd_I) (use fetched_decode [where a = "AsmLUI r i" and s = s and p = p and buf = buf] in \<open>simp add: LUI_Step_def AUIPC_Step_def del: assemble.simps\<close>)
  show "writes_rd (Execute (fetched s p (AsmAUIPC r i) buf)) s p (take_bit 5 r) (ucast (PC s) + (i AND 0xfffff000))"
    by (rule writes_rd_I) (use fetched_decode [where a = "AsmAUIPC r i" and s = s and p = p and buf = buf] in \<open>simp add: LUI_Step_def AUIPC_Step_def del: assemble.simps\<close>)
qed

theorem alu_immediate_correct_witness:
  "writes_rd (Execute (fetched demo_core demo_platform (AsmI ADDI 5 0 0xfff) [])) demo_core demo_platform 5 (- 1)"
proof -
  have "imm_ref ADDI (ucast (GP (take_bit 5 0) demo_core)) 0xfff = - 1" by (simp add: GP_def)
  with alu_immediate_correct [of ADDI demo_core demo_platform 5 0 "0xfff" "[]"] show ?thesis by simp
qed

text \<open>
  C17. A conditional branch goes to the program counter plus its sign-extended even offset exactly
  when the architecture's condition holds, and to the next word otherwise; a target that is not
  aligned (to two bytes with compressed instructions on, else to four) traps instead, with the
  target in MTVAL. Registers and memory are left alone.
\<close>

theorem branch_correct:
  assumes "wf_core s"
  shows "transfers_to (Execute (fetched s p (AsmB c a b i) buf)) s s p
    (if branch_taken c (ucast (GP (take_bit 5 a) s)) (ucast (GP (take_bit 5 b) s))
     then ucast (PC s) + signed_take_bit 12 (i AND NOT 1) else ucast (PC s) + 4)"
proof (rule transfers_to_I [OF assms, where k = "returnS ()" and
      v = "ucast (ucast (PC s) :: u32) + (if branch_taken c (ucast (GP (take_bit 5 a) s)) (ucast (GP (take_bit 5 b) s))
        then SignExtend (ucast (take_bit 13 i AND NOT 1)) 13 else 4)"])
  let ?j = "Decode (fetched s p (AsmB c a b i) buf)"
  have "rs1 ?j = Some (take_bit 5 a)" "rs2 ?j = Some (take_bit 5 b)" "imm ?j = Some (take_bit 13 i AND NOT 1)"
    using fetched_decode [where a = "AsmB c a b i" and s = s and p = p and buf = buf] by (simp_all only: asm.case)
  from branch_ok [OF this refl refl, of "branch_taken c"]
  show "Step (asm_class (AsmB c a b i)) ?j = thenS (instr_SetPC (ucast (ucast (PC s) :: u32) +
      (if branch_taken c (ucast (GP (take_bit 5 a) s)) (ucast (GP (take_bit 5 b) s))
       then SignExtend (ucast (take_bit 13 i AND NOT 1)) 13 else 4)) 4) (returnS ()) ?j"
    unfolding thenS_return by (simp only: asm_class.simps Step.simps Step_B_eq Decode_same fetched_fields)
  show "returnS () j = (Inr (), upd_state (\<lambda>_. s) j)" if "i_state j = s" for j :: RiscvInstruction
    using that by (simp add: upd_state_def)
qed (use sx13 [of i] in \<open>simp add: ucast_add_64\<close>)

theorem branch_correct_witness:
  "wf_core demo_core \<and> transfers_to (Execute (fetched demo_core demo_platform (AsmB BEQ 0 0 0x20) [])) demo_core demo_core
     demo_platform 0x1020"
proof -
  have "(ucast (PC demo_core) :: u32) + signed_take_bit 12 (0x20 AND NOT 1) = 0x1020" by (simp add: demo_regs)
  with branch_correct [OF demo_wf, of demo_platform BEQ 0 0 "0x20" "[]"] demo_wf show ?thesis by simp
qed

lemma jal_step:
  assumes "wf_core s" "signed_take_bit 19 i = signed_take_bit 20 i"
  shows "transfers_to (Execute (fetched s p (AsmJAL r i) buf)) s
      (SetGP (take_bit 5 r) (ucast (ucast (PC s) + 4 :: u32)) s) p (ucast (PC s) + signed_take_bit 20 (i AND NOT 1))"
proof -
  let ?j = "Decode (fetched s p (AsmJAL r i) buf)"
  have b: "bit i 19 = bit i 20"
    using arg_cong [OF assms(2), of "\<lambda>w. bit w 20"] by (simp add: bit_signed_take_bit_iff)
  have off: "signed_take_bit 19 (i AND NOT 1) = signed_take_bit 20 (i AND NOT 1)"
  proof (rule bit_word_eqI)
    fix k show "bit (signed_take_bit 19 (i AND NOT 1)) k = bit (signed_take_bit 20 (i AND NOT 1)) k"
      using b by (cases "k = 19"; cases "k = 20")
        (auto simp: bit_signed_take_bit_iff bit_and_iff bit_not_iff bit_1_iff min_def simp del: not_one_eq)
  qed
  have f: "rd ?j = Some (take_bit 5 r)" "imm ?j = Some (take_bit 20 i AND NOT 1)"
    using fetched_decode [where a = "AsmJAL r i" and s = s and p = p and buf = buf] by (simp_all only: asm.case)
  show ?thesis
  proof (rule transfers_to_I [OF assms(1), where k = "RD (ucast (PC s) + 4)" and
        v = "ucast (ucast (PC s) :: u32) + SignExtend (ucast (take_bit 20 i AND NOT 1)) 20"])
    show "Step (asm_class (AsmJAL r i)) ?j =
        thenS (instr_SetPC (ucast (ucast (PC s) :: u32) + SignExtend (ucast (take_bit 20 i AND NOT 1)) 20) 4)
          (RD (ucast (PC s) + 4)) ?j"
      using f by (simp add: JAL_Step_def del: assemble.simps not_one_eq)
    show "RD (ucast (PC s) + 4) j = (Inr (), upd_state (\<lambda>_. SetGP (take_bit 5 r) (ucast (ucast (PC s) + 4 :: u32)) s) j)"
      if "rd j = rd ?j" "i_state j = s" for j
      using that f(1) SetGP_const [OF that(2)] by simp
  qed (use sx20 [of i] off in \<open>simp add: ucast_add_64\<close>)
qed

text \<open>
  C19. Jumps: JAL goes to the program counter plus its offset, for every offset within 512 KiB either
  way (where bits 19 and 20 agree), JALR to the sum of register and sign-extended immediate with
  bit 0 cleared; both store the address of the next word in the destination if the target is
  aligned, and trap with all registers unchanged if not.
\<close>

theorem jump_correct:
  assumes "wf_core s" "signed_take_bit 19 i = signed_take_bit 20 i"
  shows "transfers_to (Execute (fetched s p (AsmJAL r i) buf)) s
      (SetGP (take_bit 5 r) (ucast (ucast (PC s) + 4 :: u32)) s) p (ucast (PC s) + signed_take_bit 20 (i AND NOT 1)) \<and>
    transfers_to (Execute (fetched s p (AsmI JALR r a k) buf)) s
      (SetGP (take_bit 5 r) (ucast (ucast (PC s) + 4 :: u32)) s) p
      ((ucast (GP (take_bit 5 a) s) + signed_take_bit 11 k) AND NOT 1)"
proof
  show "transfers_to (Execute (fetched s p (AsmJAL r i) buf)) s
      (SetGP (take_bit 5 r) (ucast (ucast (PC s) + 4 :: u32)) s) p (ucast (PC s) + signed_take_bit 20 (i AND NOT 1))"
    by (rule jal_step [OF assms])
next
  let ?j = "Decode (fetched s p (AsmI JALR r a k) buf)"
  let ?x = "ucast (GP (take_bit 5 a) s) :: u32"
  have f: "rd ?j = Some (take_bit 5 r)" "rs1 ?j = Some (take_bit 5 a)" "imm ?j = Some (take_bit 12 k)"
    using fetched_decode [where a = "AsmI JALR r a k" and s = s and p = p and buf = buf]
    by (simp_all add: I_system_def del: assemble.simps)
  have low: "ucast ((w :: u64) AND 0xfffffffe) = (ucast w AND NOT 1 :: u32)" for w
    by (rule word32_eqI) (simp add: bit_ucast_iff bit_and_iff)
  show "transfers_to (Execute (fetched s p (AsmI JALR r a k) buf)) s
      (SetGP (take_bit 5 r) (ucast (ucast (PC s) + 4 :: u32)) s) p ((?x + signed_take_bit 11 k) AND NOT 1)"
  proof (rule transfers_to_I [OF assms(1), where k = "bindS instr_PC (\<lambda>pc. RD (pc + 4))" and
        v = "(ucast ?x + SignExtend (ucast (take_bit 12 k)) 12) AND 0xfffffffe"])
    show "Step (asm_class (AsmI JALR r a k)) ?j =
        thenS (instr_SetPC ((ucast ?x + SignExtend (ucast (take_bit 12 k)) 12) AND 0xfffffffe) 4)
          (bindS instr_PC (\<lambda>pc. RD (pc + 4))) ?j"
      using f by (simp add: JALR_Step_def del: assemble.simps)
    show "bindS instr_PC (\<lambda>pc. RD (pc + 4)) j =
        (Inr (), upd_state (\<lambda>_. SetGP (take_bit 5 r) (ucast (ucast (PC s) + 4 :: u32)) s) j)"
      if "rd j = rd ?j" "i_state j = s" for j
      using that f(1) SetGP_const [OF that(2)] by simp
  qed (simp only: low ucast_add_64 sx12)
qed

theorem jump_correct_witness:
  "wf_core demo_core \<and> signed_take_bit 19 (0x100 :: u32) = signed_take_bit 20 0x100 \<and>
   transfers_to (Execute (fetched demo_core demo_platform (AsmJAL 1 0x100) [])) demo_core
     (SetGP 1 0x1004 demo_core) demo_platform 0x1100"
proof -
  have o: "signed_take_bit 19 (0x100 :: u32) = signed_take_bit 20 0x100" by simp
  have "(ucast (PC demo_core) :: u32) + signed_take_bit 20 (0x100 AND NOT 1) = 0x1100"
    "ucast (ucast (PC demo_core) + 4 :: u32) = (0x1004 :: u64)" "take_bit 5 (1 :: u32) = 1" by (simp_all add: demo_regs)
  with jump_correct [OF demo_wf o, of demo_platform 1 "[]" 0 0] demo_wf o show ?thesis by simp
qed

section \<open>Deviations from the architecture\<close>

text \<open>REMU computes the rounded dividend minus the divisor, and divides by zero.\<close>

lemma REMU_result:
  fixes x y :: u32
  assumes "rs1 j = Some a" "rs2 j = Some b" "rd j = Some r" "x = ucast (GP a (i_state j))" "y = ucast (GP b (i_state j))"
  shows "Step_R REMU j =
    (if y = 0 then (Inl UB, j)
     else (Inr (), upd_state (SetGP r (ucast (ucast ((ucast x div ucast y :: u64) * ucast y - ucast y) :: u32))) j))"
  using assms by (simp add: REMU_Step_def Let_def)

lemma REMU_wrong: "ucast ((ucast (7 :: u32) div ucast (2 :: u32) :: u64) * ucast (2 :: u32) - ucast (2 :: u32)) \<noteq> alu_ref REMU 7 2"
  by simp

text \<open>A register shift by 32 or more is undefined in C++; the architecture shifts by the low five bits.\<close>

lemma shift_by_32_undefined:
  fixes y :: u32
  assumes "rs1 j = Some a" "rs2 j = Some b" "y = ucast (GP b (i_state j))" "32 \<le> y" "c \<in> {SLL, SRL, SRA}"
  shows "Step_R c j = (Inl UB, j)"
  using assms by (auto simp: SLL_Step_def SRL_Step_def SRA_Step_def shift_amount_def)

text \<open>A jump forward by 512 KiB goes back by 512 KiB: bit 20 of the offset is not decoded.\<close>

lemma JAL_far_goes_back:
  assumes "wf_core s"
  shows "transfers_to (Execute (fetched s p (AsmJAL r 0x80000) buf)) s
    (SetGP (take_bit 5 r) (ucast (ucast (PC s) + 4 :: u32)) s) p (ucast (PC s) - 0x80000)"
proof -
  let ?j = "Decode (fetched s p (AsmJAL r 0x80000) buf)"
  have f: "rd ?j = Some (take_bit 5 r)" "imm ?j = Some 0x80000"
    using fetched_decode [where a = "AsmJAL r 0x80000" and s = s and p = p and buf = buf] by (simp_all del: assemble.simps)
  have o: "SignExtend 0x80000 20 = - 0x80000" by code_simp
  show ?thesis
  proof (rule transfers_to_I [OF assms, where k = "RD (ucast (PC s) + 4)" and v = "ucast (ucast (PC s) :: u32) - 0x80000"])
    show "Step (asm_class (AsmJAL r 0x80000)) ?j =
        thenS (instr_SetPC (ucast (ucast (PC s) :: u32) - 0x80000) 4) (RD (ucast (PC s) + 4)) ?j"
      using f o by (simp add: JAL_Step_def del: assemble.simps)
    show "RD (ucast (PC s) + 4) j = (Inr (), upd_state (\<lambda>_. SetGP (take_bit 5 r) (ucast (ucast (PC s) + 4 :: u32)) s) j)"
      if "rd j = rd ?j" "i_state j = s" for j
      using that f(1) SetGP_const [OF that(2)] by simp
  next
    have "(ucast (- 0x80000 :: u64) :: u32) = - 0x80000" by code_simp
    then show "(ucast (PC s) - 0x80000 :: u32) = ucast (ucast (ucast (PC s) :: u32) - 0x80000 :: u64)"
      using ucast_add_64 [of "ucast (PC s)" "- 0x80000"] by simp
  qed
qed

text \<open>The compressed register operations use a destination field that their decoding never sets.\<close>

lemma C_ALU_undefined:
  assumes "iclass i = CStype c" "c \<noteq> C_SW" "rd i = None"
  shows "Execute i = (Inl UB, Decode i)"
proof -
  have "rd (Decode i) = None" using assms by (simp add: Decode_def CStype_Decode_def)
  then have "RD_value (Decode i) = (Inl UB, Decode i)" by (simp add: RD_value_def rd_field_def)
  then have "Step (iclass i) (Decode i) = (Inl UB, Decode i)"
    using assms by (cases c) (simp_all add: C_AND_Step_def C_OR_Step_def C_XOR_Step_def C_SUB_Step_def)
  then show ?thesis by (simp add: Execute_def Let_def)
qed

text \<open>The immediate of C.LUI is extended from bit 16, its sign is bit 17.\<close>

lemma C_LUI_sign_wrong: "ucast (SignExtend (ucast (push_bit 12 (0x20 :: u32))) 17) \<noteq> (signed_take_bit 17 (push_bit 12 0x20) :: u32)"
  by code_simp

end
