(* ===== verification/Instr_Mem.thy ===== *)
theory Instr_Mem
  imports Instr_Alu
begin

text \<open>
  Loads and stores: the byte loops of the instruction object against words in host byte order, and the
  effect of executed and written back accesses on the platform's memory.
\<close>

unbundle bit_operations_syntax

section \<open>Loads and stores\<close>

lemma store_mbuf_part:
  fixes big :: bool
  assumes "n \<le> length buf" "k \<le> n"
  defines "pos \<equiv> \<lambda>m. if big then n - 1 - m else m"
  shows "length (foldl (\<lambda>b k. b[pos k := f k]) buf [0..<k]) = length buf \<and>
    (\<forall>m<n. foldl (\<lambda>b k. b[pos k := f k]) buf [0..<k] ! pos m = (if m < k then f m else buf ! pos m))"
  using assms(2)
proof (induction k)
  case (Suc k)
  have inj: "pos m = pos k \<longleftrightarrow> m = k" if "m < n" for m using that Suc.prems by (auto simp: pos_def)
  have lt: "pos k < length buf" using Suc.prems assms(1) by (auto simp: pos_def)
  let ?b = "foldl (\<lambda>b k. b[pos k := f k]) buf [0..<k]"
  have IH: "length ?b = length buf" "m < n \<Longrightarrow> ?b ! pos m = (if m < k then f m else buf ! pos m)" for m
    using Suc by simp_all
  have "?b[pos k := f k] ! pos m = (if m < Suc k then f m else buf ! pos m)" if "m < n" for m
    using inj [OF that] IH(1) IH(2) [of m] that lt by (cases "m = k") (simp_all add: nth_list_update)
  then show ?case using IH(1) by simp
qed simp

lemma store_mbuf_bytes:
  assumes "n \<le> length buf"
  shows "take n (store_mbuf big n v buf) = host_bytes big n v" "length (store_mbuf big n v buf) = length buf"
proof -
  let ?r = "store_mbuf big n v buf"
  have r: "length ?r = length buf" "m < n \<Longrightarrow> ?r ! (if big then n - 1 - m else m) = ucast (drop_bit (8 * m) v)" for m
    using store_mbuf_part [OF assms order.refl, of big "\<lambda>k. ucast (drop_bit (8 * k) v)"] by (simp_all add: store_mbuf_def)
  show "length ?r = length buf" by (rule r(1))
  show "take n ?r = host_bytes big n v"
  proof (rule nth_equalityI)
    show "length (take n ?r) = length (host_bytes big n v)" using r(1) assms by simp
    fix m assume "m < length (take n ?r)"
    then have m: "m < n" using r(1) assms by simp
    show "take n ?r ! m = host_bytes big n v ! m"
      using m r(2) [of m] r(2) [of "n - 1 - m"] by (auto simp: host_bytes_def nth_word_bytes rev_nth)
  qed
qed

lemma bit_foldl_OR: "bit (foldl (\<lambda>r k. r OR f k) (v :: u64) ks) j \<longleftrightarrow> bit v j \<or> (\<exists>k\<in>set ks. bit (f k) j)"
  by (induction ks arbitrary: v) (auto simp: bit_or_iff)

lemma byte_of_bit: "8 * k \<le> j \<and> j - 8 * k < 8 \<longleftrightarrow> k = j div 8" for j k :: nat
  by auto

text \<open>The byte the loop adds at position \<open>k\<close>, below bit 32.\<close>

lemma bit_load_mbuf:
  assumes "n \<le> 4" "j < 32"
  shows "bit (load_mbuf big n buf) j \<longleftrightarrow>
    j div 8 < n \<and> bit (buf ! (if big then n - 1 - j div 8 else j div 8)) (j mod 8)"
proof -
  have b: "bit (b :: u8) m \<Longrightarrow> m < 8" for b m using bit_imp_le_length [of b m] by simp
  have mn: "min 31 j = j" using assms(2) by simp
  have m: "j - 8 * (j div 8) = j mod 8" by (simp add: minus_mult_div_eq_mod)
  have big: "bit (push_bit (8 * k) (ucast (b :: u8)) :: u64) j \<longleftrightarrow> k = j div 8 \<and> bit b (j mod 8)" for k b
    using assms(2) b [of b "j - 8 * k"] byte_of_bit [of k j] m by (auto simp: bit_push_bit_iff bit_ucast_iff)
  have lit: "bit (scast (push_bit (8 * k) (ucast (b :: u8)) :: u32) :: u64) j \<longleftrightarrow> k = j div 8 \<and> bit b (j mod 8)" for k b
    using assms(2) b [of b "j - 8 * k"] byte_of_bit [of k j] m
    by (auto simp: bit_signed_iff mn bit_push_bit_iff bit_ucast_iff)
  show ?thesis
    by (cases big) (auto simp: load_mbuf_def bit_foldl_OR big lit)
qed

lemma load_mbuf_word:
  assumes "n \<le> 4" "n \<le> length buf"
  shows "ucast (load_mbuf big n buf) = (host_word big (take n buf) :: u32)"
proof (rule bit_word_eqI)
  fix j assume "j < LENGTH(32)"
  then show "bit (ucast (load_mbuf big n buf) :: u32) j = bit (host_word big (take n buf) :: u32) j"
    using assms by (auto simp: bit_ucast_iff bit_load_mbuf host_word_def bit_bytes_word rev_nth)
qed

lemma load_mbuf_small:
  assumes "n \<le> 2" "n \<le> length buf"
  shows "load_mbuf big n buf = ucast (host_word big (take n buf) :: u32)"
proof (rule bit_word_eqI)
  fix j assume j: "j < LENGTH(64)"
  show "bit (load_mbuf big n buf) j = bit (ucast (host_word big (take n buf) :: u32) :: u64) j"
  proof (cases "j < 32")
    case True
    then show ?thesis
      using assms by (auto simp: bit_ucast_iff bit_load_mbuf host_word_def bit_bytes_word rev_nth)
  next
    case False
    have b: "bit (b :: u8) m \<Longrightarrow> m < 8" for b m using bit_imp_le_length [of b m] by simp
    have "\<not> bit (if big then push_bit (8 * k) (ucast (x :: u8)) else scast (push_bit (8 * k) (ucast (y :: u8)) :: u32) :: u64) j"
      if "k < n" for k x y
      using False that assms(1) b [of x "j - 8 * k"] b [of y "31 - 8 * k"]
      by (auto simp: bit_signed_iff bit_push_bit_iff bit_ucast_iff min_def)
    then have "\<not> bit (load_mbuf big n buf) j" by (auto simp: load_mbuf_def bit_foldl_OR)
    with False show ?thesis by (auto simp: bit_ucast_iff dest: bit_imp_le_length)
  qed
qed


text \<open>The address an instruction accesses: register plus sign-extended immediate, in 64 bits.\<close>

definition access_address :: "u32 \<Rightarrow> u32 \<Rightarrow> u64" where
  "access_address x i = ucast x + SignExtend (ucast (take_bit 12 i)) 12"

lemma access_address_low: "ucast (access_address x i) = x + signed_take_bit 11 i"
  by (simp add: access_address_def ucast_add_64 sx12)

fun S_size :: "S_class \<Rightarrow> nat" where "S_size SB = 1" | "S_size SH = 2" | "S_size SW = 4"

fun L_size :: "I_class \<Rightarrow> nat" where
  "L_size LB = 1" | "L_size LH = 2" | "L_size LW = 4" | "L_size LBU = 1" | "L_size LHU = 2" | "L_size _ = 0"

text \<open>What a load makes of the word its bytes form.\<close>

fun load_ref :: "I_class \<Rightarrow> u32 \<Rightarrow> u32" where
  "load_ref LB v = signed_take_bit 7 v" | "load_ref LH v = signed_take_bit 15 v" | "load_ref _ v = v"

lemma Step_S_ok:
  fixes x y :: u32
  assumes "rs1 j = Some a" "rs2 j = Some b" "imm j = Some (take_bit 12 i)" "4 \<le> length (mbuf j)"
    and "x = ucast (GP a (i_state j))" "y = ucast (GP b (i_state j))"
  shows "\<exists>j' acc. Step_S c j = (Inr (), j') \<and> i_state j' = i_state j \<and> i_memory j' = i_memory j \<and> next_pc j' = next_pc j \<and>
    mOpsMemory j' = mOpsMemory j @ [acc] \<and> ma_IsWrite acc \<and> ma_IsData acc \<and> \<not> ma_privileged acc \<and>
    ma_address acc = access_address x i \<and> ma_size acc = int (S_size c) \<and>
    membuffer acc = host_bytes (host_endianness (memory (i_memory j))) (S_size c) (ucast y :: u64)"
  using assms store_mbuf_bytes [of "S_size c" "mbuf j" "host_endianness (memory (i_memory j))" "ucast y"]
  by (cases c) (simp_all add: SB_Step_def SH_Step_def SW_Step_def MEMORY_WRITE_def valid_access_size_def Let_def
      MemoryAccess_new_def ma_IsWrite_def ma_IsData_def access_address_def)

text \<open>Bytes of a 64-bit value whose upper half is zero.\<close>

lemma word_bytes_ucast: "n \<le> 4 \<Longrightarrow> word_bytes n (ucast (y :: u32) :: u64) = word_bytes n y"
  by (rule nth_equalityI) (auto simp: nth_word_bytes intro!: bit_word_eqI simp: bit_ucast_iff bit_drop_bit_eq dest: bit_imp_le_length)

lemma host_bytes_ucast: "n \<le> 4 \<Longrightarrow> host_bytes big n (ucast (y :: u32) :: u64) = host_bytes big n y"
  by (simp add: host_bytes_def word_bytes_ucast)

text \<open>
  C20. A store, executed and written back, changes exactly the bytes at its address to the low bytes
  of the source register, in the byte order of the host that later loads use, and otherwise only
  advances the program counter.
\<close>

theorem store_correct:
  assumes "wf_mem p" "length buf = 80" "ram_span p (access_address (ucast (GP (take_bit 5 a) s)) i) (S_size c)"
  shows "\<exists>j p'. Execute (fetched s p (AsmS c a b i) buf) = (Inr (), j) \<and>
    i_state j = RiscvState_SetPC (ucast (ucast (PC s) + 4 :: u32)) s \<and>
    Writeback j core = (Inr (), RiscvState_Update (i_state j) core, p') \<and> same_setup p p' \<and> wf_mem p' \<and>
    mem_byte p' = upd_span (mem_byte p) (access_address (ucast (GP (take_bit 5 a) s)) i)
      (host_bytes (host_endianness (memory p)) (S_size c) (ucast (GP (take_bit 5 b) s) :: u32))"
proof -
  let ?i = "fetched s p (AsmS c a b i) buf"
  let ?j = "Decode ?i"
  let ?x = "ucast (GP (take_bit 5 a) s) :: u32" and ?y = "ucast (GP (take_bit 5 b) s) :: u32"
  let ?A = "access_address ?x i"
  have f: "rs1 ?j = Some (take_bit 5 a)" "rs2 ?j = Some (take_bit 5 b)" "imm ?j = Some (take_bit 12 i)"
    using fetched_decode [where a = "AsmS c a b i" and s = s and p = p and buf = buf] by (simp_all only: asm.case)
  obtain j' acc where st: "Step_S c ?j = (Inr (), j')" "i_state j' = s" "i_memory j' = p" "next_pc j' = ucast (PC s) + 4"
    "mOpsMemory j' = [acc]" and acc: "ma_IsWrite acc" "ma_IsData acc" "\<not> ma_privileged acc" "ma_address acc = ?A"
    "ma_size acc = int (S_size c)" "membuffer acc = host_bytes (host_endianness (memory p)) (S_size c) (ucast ?y :: u64)"
    using Step_S_ok [OF f, of ?x ?y c] assms(2) by (auto simp del: assemble.simps)
  have "Execute ?i = (Inr (), AdvancePC j')"
    by (rule Execute_return) (use st(1) in \<open>simp del: assemble.simps\<close>)
  moreover obtain p' where "WriteMemory (i_state (AdvancePC j')) ?A (ma_IsData acc) (ma_privileged acc) (int (S_size c))
      (ma_Aligned acc) (membuffer acc) False p = (Inr 0, p')" "same_setup p p'" "wf_mem p'"
    "mem_byte p' = upd_span (mem_byte p) ?A (take (S_size c) (membuffer acc))"
    using WriteMemory_ram [OF assms(1,3), of "membuffer acc" "ma_IsData acc" "ma_Aligned acc" "i_state (AdvancePC j')"
        "ma_privileged acc" False] acc by auto
  moreover have "take (S_size c) (membuffer acc) = host_bytes (host_endianness (memory p)) (S_size c) ?y"
    unfolding acc(6) by (cases c) (simp_all add: host_bytes_ucast)
  ultimately show ?thesis
    using st acc by (intro exI [of _ "AdvancePC j'"] exI [of _ p']) (simp add: Writeback_def Let_def)
qed

theorem store_correct_witness:
  "\<exists>j p'. Execute (fetched demo_core demo_platform (AsmS SW 0 0 0x100) (replicate 80 0)) = (Inr (), j) \<and>
     Writeback j demo_core = (Inr (), RiscvState_Update (i_state j) demo_core, p') \<and> mem_byte p' 0x100 = Some 0"
proof -
  have a: "access_address (ucast (GP (take_bit 5 0) demo_core)) 0x100 = 0x100"
    by (simp add: access_address_def GP_def SignExtend_def)
  have r: "ram_span demo_platform (access_address (ucast (GP (take_bit 5 0) demo_core)) 0x100) (S_size SW)"
    unfolding a by simp
  from store_correct [OF demo_platform_ok(1) _ r, of "replicate 80 0" 0 demo_core] show ?thesis
    unfolding a by (auto simp: upd_span_def GP_def host_bytes_def numeral_eq_Suc)
qed


lemma sx_field:
  assumes "take_bit n v = v" "0 < n"
  shows "ucast (SignExtend (ucast (v :: u32)) n) = (signed_take_bit (n - 1) v :: u32)"
proof (rule bit_word_eqI)
  have v: "bit v k \<Longrightarrow> k < n" for k using arg_cong [OF assms(1), of "\<lambda>w. bit w k"] by (simp add: bit_take_bit_iff)
  fix k assume "k < LENGTH(32)"
  then show "bit (ucast (SignExtend (ucast v) n) :: u32) k = bit (signed_take_bit (n - 1) v) k"
    using v [of k] assms(2) by (cases "k = n - 1")
      (auto simp: bit_ucast_iff bit_SignExtend bit_signed_take_bit_iff min_def not_less dest: bit_imp_le_length)
qed

lemma host_word_take_bit: "take_bit (8 * length bs) (host_word big bs :: u32) = host_word big bs"
  by (rule bit_word_eqI)
    (auto simp: bit_take_bit_iff host_word_def bit_bytes_word div_less_iff_less_mult mult.commute)

lemma load_value:
  fixes big :: bool
  assumes "c \<in> {LB, LH, LW, LBU, LHU}" "length bs = L_size c" "L_size c \<le> length buf"
  defines "v \<equiv> load_mbuf big (L_size c) (put_bytes 0 bs buf)"
  shows "(if c = LB then ucast (SignExtend v 8) else if c = LH then ucast (SignExtend v 16) else ucast v)
    = load_ref c (host_word big bs)"
proof -
  have t: "take (L_size c) (put_bytes 0 bs buf) = bs" "L_size c \<le> length (put_bytes 0 bs buf)"
    using assms(2,3) take_put_bytes_0 [of bs buf] by simp_all
  have w: "ucast v = (host_word big bs :: u32)"
    unfolding v_def using load_mbuf_word [OF _ t(2), of big] assms(1) t(1) by auto
  have "v = ucast (host_word big bs :: u32)" if "c = LB \<or> c = LH"
    unfolding v_def using load_mbuf_small [OF _ t(2), of big] that t(1) by auto
  moreover have "c = LB \<Longrightarrow> take_bit 8 (host_word big bs :: u32) = host_word big bs"
    "c = LH \<Longrightarrow> take_bit 16 (host_word big bs :: u32) = host_word big bs"
    using host_word_take_bit [of bs big] assms(2) by simp_all
  ultimately show ?thesis
    using assms(1) w sx_field [of 8 "host_word big bs"] sx_field [of 16 "host_word big bs"] by auto
qed

text \<open>
  C21. A load from ordinary memory whose bytes are defined puts the word they form, sign or zero
  extended as the instruction says, into the destination, advances the program counter and leaves
  the bytes of memory unchanged; writing it back writes nothing.
\<close>

theorem load_correct:
  assumes "wf_mem p" "length buf = 80" "c \<in> {LB, LH, LW, LBU, LHU}"
    and "ram_span p (access_address (ucast (GP (take_bit 5 a) s)) i) (L_size c)"
    and "span_of (mem_byte p) (access_address (ucast (GP (take_bit 5 a) s)) i) (L_size c) = map Some bs"
  shows "\<exists>j p'. Execute (fetched s p (AsmI c r a i) buf) = (Inr (), j) \<and>
    i_state j = RiscvState_SetPC (ucast (ucast (PC s) + 4 :: u32))
      (SetGP (take_bit 5 r) (ucast (load_ref c (host_word (host_endianness (memory p)) bs))) s) \<and>
    Writeback j core = (Inr (), RiscvState_Update (i_state j) core, p') \<and> same_setup p p' \<and> wf_mem p' \<and>
    mem_byte p' = mem_byte p"
proof -
  let ?i = "fetched s p (AsmI c r a i) buf"
  let ?j = "Decode ?i"
  let ?x = "ucast (GP (take_bit 5 a) s) :: u32"
  let ?A = "access_address ?x i" and ?big = "host_endianness (memory p)"
  have sys: "\<not> I_system c" "I_imm c i = take_bit 12 i" using assms(3) by (auto simp: I_system_def)
  then have f: "rd ?j = Some (take_bit 5 r)" "rs1 ?j = Some (take_bit 5 a)" "imm ?j = Some (take_bit 12 i)"
    using fetched_decode [where a = "AsmI c r a i" and s = s and p = p and buf = buf] by (simp_all only: asm.case if_False)
  have n: "L_size c \<le> length buf" "length bs = L_size c"
    using assms(2,3) arg_cong [OF assms(5), of length] by auto
  from ReadMemory_defined [OF assms(1,4) n(1) _ assms(5), of True True s False False True] obtain p' where
    rd: "ReadMemory s ?A True False (int (L_size c)) True buf False True p = (Inr (0, put_bytes 0 bs buf), p')"
    and p': "same_setup p p'" "wf_mem p'" "mem_byte p' = mem_byte p" by auto
  let ?m = "put_bytes 0 bs buf"
  let ?j1 = "?j\<lparr>i_memory := p', mbuf := ?m,
      mOpsMemory := [MemoryAccess_new ?A (int (L_size c)) DATA 0 (int (L_size c)) False ?m]\<rparr>"
  have mr: "MEMORY_READ ?A (int (L_size c)) ?j = (Inr (load_mbuf ?big (L_size c) ?m), ?j1)"
    using rd assms(3) same_setup_fields(6) [OF p'(1)]
    by (auto simp: MEMORY_READ_def valid_access_size_def simp del: assemble.simps)
  have "Step_I c ?j = (Inr (), upd_state (SetGP (take_bit 5 r) (ucast (load_ref c (host_word ?big bs)))) ?j1)"
    using assms(3) f mr load_value [OF assms(3) n(2,1), of ?big]
    by (elim insertE emptyE)
      (simp_all add: LB_Step_def LH_Step_def LW_Step_def LBU_Step_def LHU_Step_def access_address_def del: assemble.simps)
  then have "Execute ?i = (Inr (), AdvancePC (upd_state (SetGP (take_bit 5 r) (ucast (load_ref c (host_word ?big bs)))) ?j1))"
    by (intro Execute_return) (simp del: assemble.simps)
  then show ?thesis
    using p' by (auto simp: Writeback_def Let_def MemoryAccess_new_def ma_IsWrite_def simp del: assemble.simps)
qed

theorem load_correct_witness:
  "\<exists>p j. mem_byte p 0x100 = Some 0x85 \<and> Execute (fetched demo_core p (AsmI LB 5 0 0x100) (replicate 80 0)) = (Inr (), j) \<and>
     GP 5 (i_state j) = 0xffffff85"
proof -
  obtain p where p: "wf_mem p" "same_setup demo_platform p" "mem_byte p = upd_span (mem_byte demo_platform) 0x100 [0x85]"
    using WriteMemory_ram [of demo_platform "0x100" 1 "[0x85]" True True State_new False False] by auto
  have a: "access_address (ucast (GP (take_bit 5 0) demo_core)) 0x100 = 0x100"
    by (simp add: access_address_def GP_def SignExtend_def)
  have r: "ram_span p (access_address (ucast (GP (take_bit 5 0) demo_core)) 0x100) (L_size LB)"
    unfolding a ram_span_setup [OF p(2)] by simp
  have m: "mem_byte p 0x100 = Some 0x85" by (simp add: p(3) upd_span_def)
  have b: "span_of (mem_byte p) (access_address (ucast (GP (take_bit 5 0) demo_core)) 0x100) (L_size LB) = map Some [0x85]"
    unfolding a using m by (simp add: span_of_def)
  have g: "length (X demo_core) = 32" using demo_wf by (simp add: wf_core_def)
  have v: "(signed_take_bit 7 (host_word (host_endianness (memory p)) [0x85]) :: u32) = 0xffffff85"
    by (simp add: host_word_def)
  from load_correct [OF p(1) _ _ r b, of "replicate 80 0" 5 demo_core] g v m show ?thesis
    by (auto simp: GP_def SetGP_def RiscvState_SetPC_def)
qed

end
