(* ===== verification/Instr_Sys.thy ===== *)
theory Instr_Sys
  imports Instr_Alu
begin

text \<open>
  Control register and system instructions, and the invariant of a core under every instruction.
\<close>

unbundle bit_operations_syntax

section \<open>Control register instructions\<close>

definition csr_class :: "I_class \<Rightarrow> bool" where
  "csr_class c \<longleftrightarrow> c \<in> {CSRRW, CSRRS, CSRRC, CSRRWI, CSRRSI, CSRRCI}"

text \<open>
  The value written, from the old value \<open>v\<close>, the source register's value \<open>x\<close> and the source field \<open>f\<close>;
  none when a set or clear has a zero field.
\<close>

fun csr_new :: "I_class \<Rightarrow> u64 \<Rightarrow> u32 \<Rightarrow> u32 \<Rightarrow> u64 option" where
  "csr_new CSRRW v x f = Some (ucast x)"
| "csr_new CSRRS v x f = (if f \<noteq> 0 then Some (v OR ucast x) else None)"
| "csr_new CSRRC v x f = (if f \<noteq> 0 then Some (v AND ucast (NOT x)) else None)"
| "csr_new CSRRWI v x f = Some (ucast f)"
| "csr_new CSRRSI v x f = (if f \<noteq> 0 then Some (v + ucast f) else None)"
| "csr_new CSRRCI v x f = (if f \<noteq> 0 then Some (v - ucast f) else None)"
| "csr_new _ v x f = None"

lemma reg_value_SetGP [simp]: "reg_value q (SetGP r v s) = reg_value q s"
  by (simp add: SetGP_def)

lemma CSR_SetGP [simp]: "CSR c l (SetGP r v s) = CSR c l s"
proof -
  have "csr_read_only c (SetGP r v s) = csr_read_only c s" by (simp add: csr_read_only_def SetGP_def)
  then show ?thesis unfolding CSR_def by (auto split: sum.splits option.splits)
qed

lemma Step_csr:
  assumes "rs1 j = Some f" "imm j = Some k" "rd j = Some r" "x = ucast (GP f (i_state j))" "csr_class c"
  shows "Step_I c j =
    (case CSR k 3 (i_state j) of
       Inl e \<Rightarrow> (Inl e, j)
     | Inr v \<Rightarrow>
         let j1 = upd_state (SetGP r (ucast (ucast v :: u32))) j
         in case csr_new c v x f of None \<Rightarrow> (Inr (), j1) | Some w \<Rightarrow> instr_SetCSR k w j1)"
proof (cases "CSR k 3 (i_state j)")
  case (Inl e)
  then have "bindS (instr_CSR k) g j = (Inl e, j)" for g :: "u64 \<Rightarrow> unit step"
    by (simp add: bindS_def instr_CSR_def PrivilegeLevel_def)
  then show ?thesis
    using assms Inl unfolding csr_class_def
    by (elim insertE emptyE) (simp_all add: CSRRW_Step_def CSRRS_Step_def CSRRC_Step_def CSRRWI_Step_def CSRRSI_Step_def
        CSRRCI_Step_def)
next
  case (Inr v)
  then have "instr_CSR k j = (Inr v, j)" "instr_CSR k (upd_state (SetGP r w) j) = (Inr v, upd_state (SetGP r w) j)" for w
    by (simp_all add: instr_CSR_def PrivilegeLevel_def)
  then show ?thesis
    using assms Inr unfolding csr_class_def
    by (elim insertE emptyE) (simp_all add: CSRRW_Step_def CSRRS_Step_def CSRRC_Step_def CSRRWI_Step_def CSRRSI_Step_def
        CSRRCI_Step_def Let_def)
qed

text \<open>Control registers with a 12-bit address only throw illegal instruction exceptions.\<close>

lemma CSR_throws:
  assumes "c \<le> 0xfff"
  shows "CSR c 3 s = Inl e \<Longrightarrow> \<exists>x. e = SimExc x \<and> sync_trap x" "SetCSR c 3 w s = Inl e \<Longrightarrow> \<exists>x. e = SimExc x \<and> sync_trap x"
  using assms by (auto simp: CSR_def SetCSR_def ValidateCSRAccess_spec sync_trap_def split: sum.splits option.splits if_splits)

lemma Execute_sync_trap:
  assumes "Step (iclass i) (Decode i) = (Inl (SimExc e), i1)" "sync_trap e" "wf_core (i_state i1)"
  shows "\<exists>i'. Execute i = (Inr (), i') \<and> trap_entered e (i_state i1) (i_state i') \<and> mOpsMemory i' = mOpsMemory i1 \<and>
    i_memory i' = i_memory i1"
proof -
  from trap_entry_ok [OF assms(3,2)] obtain s' where s': "ProcessException e (i_state i1) = Inr s'" "trap_entered e (i_state i1) s'"
    by blast
  with Execute_trap [OF assms(1) s'(1)] show ?thesis by simp
qed

text \<open>
  C26. A control register instruction reads the register into its destination and then writes the
  new value: the source (CSRRW), the old value with the source's bits set or cleared (CSRRS,
  CSRRC), the immediate (CSRRWI), and, where the architecture asks for bits set or cleared, the sum
  or difference with the immediate (CSRRSI, CSRRCI); a zero source field writes nothing. A
  read that is refused traps as illegal instruction with nothing changed; a write that is refused
  traps too, but after the destination has been written.
\<close>

theorem csr_instruction:
  assumes "wf_core s" "csr_class c"
  shows "\<exists>j. Execute (fetched s p (AsmI c r a k) buf) = (Inr (), j) \<and> i_memory j = p \<and> mOpsMemory j = [] \<and>
    (case CSR (take_bit 12 k) 3 s of
       Inl e \<Rightarrow> (\<exists>x. e = SimExc x \<and> trap_entered x s (i_state j))
     | Inr v \<Rightarrow>
         let s1 = SetGP (take_bit 5 r) (ucast (ucast v :: u32)) s; next = RiscvState_SetPC (ucast (ucast (PC s) + 4 :: u32))
         in case csr_new c v (ucast (GP (take_bit 5 a) s)) (take_bit 5 a) of
              None \<Rightarrow> i_state j = next s1
            | Some w \<Rightarrow>
                (case SetCSR (take_bit 12 k) 3 w s1 of
                   Inr s2 \<Rightarrow> i_state j = next s2
                 | Inl e \<Rightarrow> (\<exists>x. e = SimExc x \<and> trap_entered x s1 (i_state j))))"
proof -
  let ?i = "fetched s p (AsmI c r a k) buf"
  let ?j = "Decode ?i"
  let ?k = "take_bit 12 k" and ?f = "take_bit 5 a"
  have sys: "\<not> I_system c" "I_imm c k = ?k" using assms(2) by (auto simp: I_system_def csr_class_def)
  then have f: "rs1 ?j = Some ?f" "imm ?j = Some ?k" "rd ?j = Some (take_bit 5 r)"
    using fetched_decode [where a = "AsmI c r a k" and s = s and p = p and buf = buf] by (simp_all only: asm.case if_False)
  have k: "?k \<le> 0xfff"
    using word_and_le1 [of k "0xfff"] by (simp add: take_bit_eq_mask mask_numeral)
  note st = Step_csr [OF f refl assms(2)]
  show ?thesis
  proof (cases "CSR ?k 3 s")
    case (Inl e)
    then obtain x where x: "e = SimExc x" "sync_trap x" using CSR_throws(1) [OF k] by blast
    then have "Step (iclass ?i) ?j = (Inl (SimExc x), ?j)" using st Inl by (simp del: assemble.simps)
    from Execute_sync_trap [OF this x(2)] assms(1) x Inl show ?thesis by (auto simp del: assemble.simps)
  next
    case (Inr v)
    let ?s1 = "SetGP (take_bit 5 r) (ucast (ucast v :: u32)) s"
    let ?j1 = "upd_state (SetGP (take_bit 5 r) (ucast (ucast v :: u32))) ?j"
    have w1: "wf_core ?s1" by (rule wf_core_SetGP [OF assms(1)])
    show ?thesis
    proof (cases "csr_new c v (ucast (GP ?f s)) ?f")
      case None
      then have "Step (iclass ?i) ?j = (Inr (), ?j1)" using st Inr by (simp add: Let_def del: assemble.simps)
      from Execute_return [OF this] Inr None show ?thesis by (simp add: Let_def del: assemble.simps)
    next
      case (Some w)
      show ?thesis
      proof (cases "SetCSR ?k 3 w ?s1")
        case (Inl e)
        then obtain x where x: "e = SimExc x" "sync_trap x" using CSR_throws(2) [OF k] by blast
        then have "Step (iclass ?i) ?j = (Inl (SimExc x), ?j1)"
          using st Inr Some Inl by (simp add: Let_def instr_SetCSR_def PrivilegeLevel_def del: assemble.simps)
        from Execute_sync_trap [OF this x(2)] w1 x Inl Inr Some show ?thesis by (auto simp: Let_def simp del: assemble.simps)
      next
        case s2: (Inr s2)
        then have "Step (iclass ?i) ?j = (Inr (), ?j1\<lparr>i_state := s2\<rparr>)"
          using st Inr Some by (simp add: Let_def instr_SetCSR_def PrivilegeLevel_def del: assemble.simps)
        from Execute_return [OF this] Inr Some s2 show ?thesis by (simp add: Let_def del: assemble.simps)
      qed
    qed
  qed
qed

theorem csr_instruction_witness:
  "wf_core demo_core \<and> csr_class CSRRWI \<and>
   (\<exists>j. Execute (fetched demo_core demo_platform (AsmI CSRRWI 0 5 0x340) []) = (Inr (), j) \<and> reg_value MSCRATCH (i_state j) = 5)"
proof -
  have c: "csr_class CSRRWI" by (simp add: csr_class_def)
  have v: "ValidateCSRAccess 0x340 3 w = Inr ()" for w by (simp add: ValidateCSRAccess_def)
  have r: "map_of csr_table 0x340 = Some MSCRATCH" by (simp add: csr_table_def)
  have s: "CSR 0x340 3 demo_core = Inr (reg_value MSCRATCH demo_core)" "SetCSR 0x340 3 5 t = Inr (set_reg MSCRATCH 5 t)" for t
    by (simp_all add: CSR_def SetCSR_def v r)
  have "reg_value MSCRATCH (set_reg MSCRATCH 5 t) = 5" for t by (simp add: reg_value_set_reg legal_value_def)
  with csr_instruction [OF demo_wf c, of demo_platform 0 5 "0x340" "[]"] s c demo_wf show ?thesis
    by (auto simp: Let_def)
qed


section \<open>The core invariant under execution\<close>

definition wf_instr :: "RiscvInstruction \<Rightarrow> bool" where
  "wf_instr i \<longleftrightarrow> wf_core (i_state i)"

lemma keeps_helpers [keeps_intros]:
  "keepsS wf_instr (instr_X r)" "keepsS wf_instr IMM" "keepsS wf_instr rs1_field" "keepsS wf_instr rd_field"
  "keepsS wf_instr instr_PC" "keepsS wf_instr UserMode" "keepsS wf_instr MachineMode" "keepsS wf_instr (instr_CSR c)"
  "keepsS wf_instr (shift_amount y)"
  by (simp_all add: keepsS_def instr_X_def IMM_def rs1_field_def rd_field_def instr_PC_def UserMode_def MachineMode_def
      instr_CSR_def needS_def shift_amount_def split: option.splits)

lemma keeps_composed [keeps_intros]:
  "keepsS wf_instr RS1" "keepsS wf_instr RS2" "keepsS wf_instr RD_value" "keepsS wf_instr (SIGN_EXTEND_IMM n)"
  "keepsS wf_instr (UNSIGNED_SIGN_EXTEND_IMM n)" "keepsS wf_instr IMM_FOR_SHIFT"
  by (auto simp: RS1_def RS2_def RD_value_def SIGN_EXTEND_IMM_def UNSIGNED_SIGN_EXTEND_IMM_def IMM_FOR_SHIFT_def
      intro!: keeps_intros)

lemma keeps_writes [keeps_intros]:
  "keepsS wf_instr (RD v)" "keepsS wf_instr (instr_SetSP w)" "keepsS wf_instr (instr_SetPC t al)"
  "keepsS wf_instr (instr_SetCSR c w)"
  by (auto simp: RD_def instr_SetSP_def wf_instr_def wf_core_SetGP intro!: keeps_intros keepsS_modify)
    (auto simp: keepsS_def instr_SetPC_def instr_SetCSR_def wf_instr_def RecordMisalignedAddress_def wf_core_set_reg Let_def
      dest: wf_core_SetCSR split: sum.splits)

lemma keeps_memory [keeps_intros]:
  "keepsS wf_instr (MEMORY_READ a n)" "keepsS wf_instr (MEMORY_WRITE a n v)"
  by (auto simp: keepsS_def MEMORY_READ_def MEMORY_WRITE_def wf_instr_def Let_def split: prod.splits sum.splits)

lemma keeps_branch [keeps_intros]: "keepsS wf_instr (branch cond)"
  unfolding branch_def by (intro keeps_intros)

text \<open>Every step keeps the invariant, returning or throwing.\<close>

lemmas R_Step_defs = ADD_Step_def SLT_Step_def SLTU_Step_def ANDr_Step_def ORr_Step_def XORr_Step_def SLL_Step_def SRL_Step_def
  SUB_Step_def SRA_Step_def MUL_Step_def MULH_Step_def MULHSU_Step_def MULHU_Step_def DIV_Step_def DIVU_Step_def REM_Step_def
  REMU_Step_def

lemmas I_Step_defs = ADDI_Step_def SLTI_Step_def XORI_Step_def ORI_Step_def ANDI_Step_def SLTIU_Step_def SLLI_Step_def SRLI_Step_def
  SRAI_Step_def JALR_Step_def LB_Step_def LH_Step_def LW_Step_def LBU_Step_def LHU_Step_def CSRRW_Step_def CSRRC_Step_def
  CSRRS_Step_def CSRRWI_Step_def CSRRSI_Step_def CSRRCI_Step_def URET_Step_def SRET_Step_def HRET_Step_def MRET_Step_def
  WFI_Step_def SFENCE_Step_def

lemmas SBUJ_Step_defs = SB_Step_def SH_Step_def SW_Step_def BEQ_Step_def BNE_Step_def BLT_Step_def BGE_Step_def BLTU_Step_def
  BGEU_Step_def LUI_Step_def FENCE_Step_def FENCE_I_Step_def ECALL_Step_def EBREAK_Step_def AUIPC_Step_def JAL_Step_def

lemmas C_Step_defs = C_MV_Step_def C_ADD_Step_def C_EBREAK_Step_def C_JR_Step_def C_JALR_Step_def C_LWSP_Step_def C_LI_Step_def
  C_LUI_Step_def C_ADDI_Step_def C_ADDI16SP_Step_def C_SLLI_Step_def C_NOP_Step_def C_SWSP_Step_def C_ADDI4SPN_Step_def
  C_LW_Step_def C_SW_Step_def C_AND_Step_def C_OR_Step_def C_XOR_Step_def C_SUB_Step_def C_BEQZ_Step_def C_BNEZ_Step_def
  C_SRLI_Step_def C_SRAI_Step_def C_ANDI_Step_def C_J_Step_def C_JAL_Step_def

lemma keeps_Step_R: "keepsS wf_instr (Step_R c)"
  by (cases c; simp only: Step_R.simps R_Step_defs Let_def; intro keeps_intros)

lemma keeps_Step_I: "keepsS wf_instr (Step_I c)"
  by (cases c; simp only: Step_I.simps I_Step_defs; intro keeps_intros)

lemma keeps_Step_S: "keepsS wf_instr (Step_S c)"
  by (cases c; simp only: Step_S.simps SBUJ_Step_defs; intro keeps_intros)

lemma keeps_Step_B: "keepsS wf_instr (Step_B c)"
  by (cases c; simp only: Step_B.simps SBUJ_Step_defs; intro keeps_intros)

lemma keeps_Step_U: "keepsS wf_instr (Step_U c)"
  by (cases c; simp only: Step_U.simps SBUJ_Step_defs; intro keeps_intros)

lemma keeps_Step_J: "keepsS wf_instr (Step_J c)"
  by (cases c; simp only: Step_J.simps SBUJ_Step_defs; intro keeps_intros)

lemma keeps_Step_C:
  "keepsS wf_instr (Step_CR c1)" "keepsS wf_instr (Step_CI c2)" "keepsS wf_instr (Step_CSS c3)" "keepsS wf_instr (Step_CIW c4)"
  "keepsS wf_instr (Step_CL c5)" "keepsS wf_instr (Step_CS c6)" "keepsS wf_instr (Step_CB c7)" "keepsS wf_instr (Step_CJ c8)"
         apply (cases c1; simp only: Step_CR.simps C_Step_defs; intro keeps_intros)
        apply (cases c2; simp only: Step_CI.simps C_Step_defs I_Step_defs; intro keeps_intros)
       apply (cases c3; simp only: Step_CSS.simps C_Step_defs; intro keeps_intros)
      apply (cases c4; simp only: Step_CIW.simps C_Step_defs; intro keeps_intros)
     apply (cases c5; simp only: Step_CL.simps C_Step_defs; intro keeps_intros)
    apply (cases c6; simp only: Step_CS.simps C_Step_defs; intro keeps_intros)
   apply (cases c7; simp only: Step_CB.simps C_Step_defs I_Step_defs; intro keeps_intros)
  apply (cases c8; simp only: Step_CJ.simps C_Step_defs; intro keeps_intros)
  done

lemma keeps_Step: "keepsS wf_instr (Step c)"
  by (cases c) (simp_all add: keeps_Step_R keeps_Step_I keeps_Step_S keeps_Step_B keeps_Step_U keeps_Step_J keeps_Step_C
      keepsS_throw)

lemma Execute_wf:
  assumes "wf_core (i_state i)" "Execute i = (Inr (), i')"
  shows "wf_core (i_state i')"
proof -
  obtain r i1 where st: "Step (iclass i) (Decode i) = (r, i1)" by fastforce
  have w: "wf_core (i_state i1)"
    using keepsS_D [OF keeps_Step _ st] assms(1) by (simp add: wf_instr_def)
  show ?thesis
  proof (cases r)
    case (Inr u)
    then show ?thesis using st assms(2) w by (auto simp: Execute_def Let_def wf_core_SetPC)
  next
    case (Inl e)
    then show ?thesis
      using st assms(2) w
      by (cases e) (auto simp: Execute_def Let_def dest: wf_core_ProcessException split: sum.splits)
  qed
qed

text \<open>
  C11. Executing any instruction whatsoever, known or not, on a core that satisfies the invariant
  (x0 zero, supported status bits, user or machine privilege) leaves one that does, through every
  trap it may take.
\<close>

theorem execute_keeps_core:
  assumes "wf_core s" "Execute (NewInstruction s p enc compressed buf) = (Inr (), i')"
  shows "wf_core (i_state i')"
  using Execute_wf [of "NewInstruction s p enc compressed buf"] assms
  by (simp add: NewInstruction_def NewInstruction16_def RiscvInstruction_new_def Let_def)

theorem execute_keeps_core_witness:
  "\<exists>i'. Execute (NewInstruction demo_core demo_platform 0x13 False []) = (Inr (), i') \<and> wf_core (i_state i')"
proof -
  let ?i = "NewInstruction demo_core demo_platform 0x13 False []"
  have c: "class_of_encoding 0x13 = Itype ADDI" by code_simp
  have "rd (Decode ?i) = Some 0" "rs1 (Decode ?i) = Some 0" "imm (Decode ?i) = Some 0" "iclass ?i = Itype ADDI"
    by (simp_all add: NewInstruction_def RiscvInstruction_new_def Let_def c Decode_def Itype_Decode_def dec_RD_def dec_RS1_def
        dec_ITYPE_IMM_def)
  then obtain j where j: "Step (iclass ?i) (Decode ?i) = (Inr (), j)" by (simp add: ADDI_Step_def)
  from execute_keeps_core [OF demo_wf Execute_return [OF j]] Execute_return [OF j] show ?thesis by blast
qed

text \<open>The exceptions the calls and returns of the system instructions raise at the current privilege.\<close>

definition system_trap :: "RiscvState \<Rightarrow> asm \<Rightarrow> SIM_EXCEPTIONS option" where
  "system_trap s a =
     (case a of
        AsmECALL \<Rightarrow> Some (if CurrentPrivilegeLevel s = 0 then ENV_CALL_UMODE else ENV_CALL_MMODE)
      | AsmI c _ _ _ \<Rightarrow>
          (if c \<in> {URET, SRET, HRET} then Some ILLEGAL_INSTRUCTION_UNIMPL_INSTR
           else if c = MRET \<and> CurrentPrivilegeLevel s = 0 then Some ILLEGAL_INSTRUCTION_PRIVILEGED_INSTR
           else None)
      | _ \<Rightarrow> None)"

lemma Execute_sync_trap_taken:
  assumes "Step (iclass i) (Decode i) = (Inl (SimExc e), i1)" "sync_trap e" "wf_core (i_state i1)"
  shows "\<exists>i'. Execute i = (Inr (), i') \<and> trap_taken e (i_state i1) (i_state i') \<and> mOpsMemory i' = mOpsMemory i1 \<and>
    i_memory i' = i_memory i1"
proof -
  from trap_taken_ok [OF assms(3,2)] obtain s' where s': "ProcessException e (i_state i1) = Inr s'" "trap_taken e (i_state i1) s'"
    by blast
  with Execute_trap [OF assms(1) s'(1)] show ?thesis by simp
qed

text \<open>
  C27. Calls and returns between privileges: ECALL traps with the cause of its mode, MRET from user
  mode traps as a privileged instruction, and the returns of the modes this core does not have (URET,
  SRET, HRET) trap as unimplemented ones at every level. The trap is the one of \<open>trap_taken\<close>: machine
  mode at the trap vector with program counter, cause and interrupt enable saved, registers and
  memory unchanged.
\<close>

theorem privileged_instructions_trap:
  assumes "wf_core s" "system_trap s a = Some e"
  shows "\<exists>j. Execute (fetched s p a buf) = (Inr (), j) \<and> trap_taken e s (i_state j) \<and> i_memory j = p \<and> mOpsMemory j = []"
proof -
  let ?i = "fetched s p a buf"
  have "Step (iclass ?i) (Decode ?i) = (Inl (SimExc e), Decode ?i)" "sync_trap e"
    using assms(2) by (auto simp: system_trap_def ECALL_Step_def URET_Step_def SRET_Step_def HRET_Step_def MRET_Step_def
        UserMode_def MachineMode_def USER_MODE_def MACHINE_MODE_def sync_trap_def bindS_def simp del: assemble.simps
        split: asm.splits if_splits)
  from Execute_sync_trap_taken [OF this] assms show ?thesis by (auto simp del: assemble.simps)
qed

theorem privileged_instructions_trap_witness:
  "wf_core demo_user_core \<and> (\<exists>j. Execute (fetched demo_user_core demo_platform (AsmI MRET 0 0 0) []) = (Inr (), j) \<and>
     trap_taken ILLEGAL_INSTRUCTION_PRIVILEGED_INSTR demo_user_core (i_state j))"
proof -
  have l: "CurrentPrivilegeLevel demo_user_core = 0" by (simp add: demo_user_core_def USER_MODE_def)
  have w: "wf_core demo_user_core"
    unfolding demo_user_core_def
    by (rule wf_core_level) (use demo_wf in \<open>simp_all add: wf_core_def wf_mstatus_def CurrentPrivilegeLevel_def USER_MODE_def reg_value_def\<close>)
  have t: "system_trap demo_user_core (AsmI MRET 0 0 0) = Some ILLEGAL_INSTRUCTION_PRIVILEGED_INSTR"
    by (simp add: system_trap_def l)
  from privileged_instructions_trap [OF w t, of demo_platform "[]"] w show ?thesis by blast
qed

text \<open>
  WFI in user mode traps whatever MSTATUS.TW, the bit the class documents as its enable outside
  machine mode, is set to; the test of that bit after the test for user mode is never reached with
  effect, as the only other level is machine mode.
\<close>

lemma user_wfi_traps:
  assumes "wf_core s" "CurrentPrivilegeLevel s = 0"
  shows "\<exists>j. Execute (fetched s p (AsmI WFI r a k) buf) = (Inr (), j) \<and>
    trap_taken ILLEGAL_INSTRUCTION_PRIVILEGED_INSTR s (i_state j)"
proof -
  let ?i = "fetched s p (AsmI WFI r a k) buf"
  have "Step (iclass ?i) (Decode ?i) = (Inl (SimExc ILLEGAL_INSTRUCTION_PRIVILEGED_INSTR), Decode ?i)"
    "sync_trap ILLEGAL_INSTRUCTION_PRIVILEGED_INSTR"
    using assms(2) by (simp_all add: WFI_Step_def UserMode_def USER_MODE_def sync_trap_def bindS_def del: assemble.simps)
  from Execute_sync_trap_taken [OF this] assms show ?thesis by (auto simp del: assemble.simps)
qed

end
