(* ===== verification/Scan.thy ===== *)
theory Scan
  imports Prelude "HOL-Library.Sublist"
begin

text \<open>
  What the debug server uses of the C library on strings: character classes, the \<open>sscanf\<close>
  conversions \<open>%x\<close>, \<open>%2x\<close>, \<open>%llx\<close> and \<open>%d\<close>, the \<open>sprintf\<close> conversion \<open>%02x\<close>, and the two search
  functions of \<open>std::string\<close>. A conversion that fails is \<open>None\<close>; a number that does not fit the
  target type, which C leaves undefined, is reported by the functions \<open>as_u32\<close>, \<open>as_u64\<close> and \<open>as_int\<close>.
\<close>

unbundle bit_operations_syntax

section \<open>Characters\<close>

definition isspace :: "char \<Rightarrow> bool" where
  "isspace c \<longleftrightarrow> (let n = (of_char c :: nat) in n = 32 \<or> 9 \<le> n \<and> n \<le> 13)"

definition isprint :: "char \<Rightarrow> bool" where
  "isprint c \<longleftrightarrow> (let n = (of_char c :: nat) in 32 \<le> n \<and> n \<le> 126)"

definition isdigit :: "char \<Rightarrow> bool" where
  "isdigit c \<longleftrightarrow> (let n = (of_char c :: nat) in 48 \<le> n \<and> n \<le> 57)"

definition dec_digit :: "char \<Rightarrow> nat option" where
  "dec_digit c = (if isdigit c then Some (of_char c - 48) else None)"

definition hex_digit :: "char \<Rightarrow> nat option" where
  "hex_digit c =
     (let n = (of_char c :: nat)
      in if isdigit c then Some (n - 48)
         else if 97 \<le> n \<and> n \<le> 102 then Some (n - 87)
         else if 65 \<le> n \<and> n \<le> 70 then Some (n - 55)
         else None)"

section \<open>Conversions\<close>

text \<open>
  One number: leading white space is skipped, at most \<open>w\<close> characters are used, an optional sign and
  (for hexadecimal) an optional prefix come before the digits, and there is at least one digit. The
  result is the sign, the magnitude and the rest of the input.
\<close>

definition scan_sign :: "string \<Rightarrow> bool \<times> nat" where
  "scan_sign s = (if take 1 s = ''-'' then (True, 1) else (False, if take 1 s = ''+'' then 1 else 0))"

definition scan_prefix :: "bool \<Rightarrow> string \<Rightarrow> nat" where
  "scan_prefix hex s = (if hex \<and> (take 2 s = ''0x'' \<or> take 2 s = ''0X'') then 2 else 0)"

definition digits_value :: "nat \<Rightarrow> nat list \<Rightarrow> nat" where
  "digits_value base ds = foldl (\<lambda>n d. n * base + d) 0 ds"

definition scan_number :: "bool \<Rightarrow> nat option \<Rightarrow> string \<Rightarrow> (bool \<times> nat \<times> string) option" where
  "scan_number hex w s =
     (let s1 = dropWhile isspace s;
          field = (case w of None \<Rightarrow> s1 | Some n \<Rightarrow> take n s1);
          (neg, k) = scan_sign field;
          p = k + scan_prefix hex (drop k field);
          digit = (if hex then hex_digit else dec_digit);
          ds = takeWhile (\<lambda>c. digit c \<noteq> None) (drop p field)
      in if ds = [] then None
         else Some (neg, digits_value (if hex then 16 else 10) (map (the \<circ> digit) ds),
                    drop (p + length ds) s1))"

definition as_u32 :: "bool \<Rightarrow> nat \<Rightarrow> u32 option" where
  "as_u32 neg n = (if n < 2 ^ 32 then Some (if neg then - of_nat n else of_nat n) else None)"

definition as_u64 :: "bool \<Rightarrow> nat \<Rightarrow> u64 option" where
  "as_u64 neg n = (if n < 2 ^ 64 then Some (if neg then - of_nat n else of_nat n) else None)"

definition as_int :: "bool \<Rightarrow> nat \<Rightarrow> int option" where
  "as_int neg n =
     (let v = (if neg then - int n else int n) in if - (2 ^ 31) \<le> v \<and> v < 2 ^ 31 then Some v else None)"

text \<open>
  The formats \<open>%x\<close>, \<open>%llx,%d\<close> and \<open>%d,%llx,%d\<close>. The outcome is undefined when a number does not fit,
  and failure when \<open>sscanf\<close> returns less than the number of conversions.
\<close>

datatype 'a scanned = Overflow | Failed | Scanned 'a

definition scan_as :: "(bool \<Rightarrow> nat \<Rightarrow> 'a option) \<Rightarrow> bool \<Rightarrow> string \<Rightarrow> ('a \<times> string) scanned" where
  "scan_as conv hex s =
     (case scan_number hex None s of
        None \<Rightarrow> Failed
      | Some (neg, n, r) \<Rightarrow> (case conv neg n of None \<Rightarrow> Overflow | Some v \<Rightarrow> Scanned (v, r)))"

definition scan_comma :: "string \<Rightarrow> (string \<Rightarrow> 'a scanned) \<Rightarrow> 'a scanned" where
  "scan_comma s k = (case s of c # r \<Rightarrow> if c = CHR '','' then k r else Failed | [] \<Rightarrow> Failed)"

definition scan_x :: "string \<Rightarrow> u32 scanned" where
  "scan_x s = (case scan_as as_u32 True s of Scanned (v, r) \<Rightarrow> Scanned v | Failed \<Rightarrow> Failed | Overflow \<Rightarrow> Overflow)"

definition scan_llx_d :: "string \<Rightarrow> (u64 \<times> int) scanned" where
  "scan_llx_d s =
     (case scan_as as_u64 True s of
        Scanned (a, r) \<Rightarrow>
          scan_comma r (\<lambda>r. case scan_as as_int False r of
                             Scanned (v, _) \<Rightarrow> Scanned (a, v) | Failed \<Rightarrow> Failed | Overflow \<Rightarrow> Overflow)
      | Failed \<Rightarrow> Failed | Overflow \<Rightarrow> Overflow)"

definition scan_d_llx_d :: "string \<Rightarrow> (int \<times> u64 \<times> int) scanned" where
  "scan_d_llx_d s =
     (case scan_as as_int False s of
        Scanned (t, r) \<Rightarrow>
          scan_comma r (\<lambda>r. case scan_llx_d r of
                             Scanned v \<Rightarrow> Scanned (t, v) | Failed \<Rightarrow> Failed | Overflow \<Rightarrow> Overflow)
      | Failed \<Rightarrow> Failed | Overflow \<Rightarrow> Overflow)"

text \<open>The format \<open>%02x\<close> of a byte.\<close>

definition hex_char :: "nat \<Rightarrow> char" where
  "hex_char d = ''0123456789abcdef'' ! d"

definition hex2 :: "u8 \<Rightarrow> string" where
  "hex2 b = [hex_char (unat b div 16), hex_char (unat b mod 16)]"

section \<open>Searching\<close>

text \<open>\<open>find\<close> of \<open>std::string\<close>, for presence and for the position of one character.\<close>

fun contains :: "string \<Rightarrow> string \<Rightarrow> bool" where
  "contains pat [] = (pat = [])"
| "contains pat (c # s) = (take (length pat) (c # s) = pat \<or> contains pat s)"

fun find_char :: "char \<Rightarrow> string \<Rightarrow> nat option" where
  "find_char c [] = None"
| "find_char c (d # s) = (if d = c then Some 0 else map_option Suc (find_char c s))"

section \<open>Lemmas\<close>

lemma hex_cases: "d < 16 \<Longrightarrow> d \<in> {0, 1, 2, 3, 4, 5, 6, 7, 8, 9, 10, 11, 12, 13, 14, 15 :: nat}"
  by simp presburger

lemma hex_char_digit [simp]: "d < 16 \<Longrightarrow> hex_digit (hex_char d) = Some d"
  by (drule hex_cases) (auto simp: hex_char_def hex_digit_def isdigit_def)

lemma hex_char_class [simp]:
  "d < 16 \<Longrightarrow> isprint (hex_char d)" "d < 16 \<Longrightarrow> \<not> isspace (hex_char d)" "d < 16 \<Longrightarrow> hex_char d \<noteq> CHR ''+''"
  "d < 16 \<Longrightarrow> hex_char d \<noteq> CHR ''-''" "d < 16 \<Longrightarrow> hex_char d \<noteq> CHR ''x''" "d < 16 \<Longrightarrow> hex_char d \<noteq> CHR ''X''"
  "d < 16 \<Longrightarrow> hex_char d \<noteq> CHR ''#''" "d < 16 \<Longrightarrow> hex_char d \<noteq> CHR 0x7D"
  by (drule hex_cases; auto simp: hex_char_def isprint_def isspace_def)+

lemma byte_nibbles [simp]: "unat (b :: u8) div 16 < 16" "unat b mod 16 < 16"
  using unsigned_less [of b] by (simp_all add: div_less_iff_less_mult)

lemma length_hex2 [simp]: "length (hex2 b) = 2"
  by (simp add: hex2_def)

text \<open>Two digits written by \<open>%02x\<close> are read back by \<open>%2x\<close>, whatever follows them.\<close>

lemma scan_hex2: "scan_number True (Some 2) (hex2 b @ s) = Some (False, unat b, s)"
  by (simp add: scan_number_def hex2_def scan_sign_def scan_prefix_def digits_value_def numeral_2_eq_2 Let_def
      div_mult_mod_eq)

lemma of_nat_unat_u8 [simp]: "(of_nat (unat (b :: u8)) :: u32) = ucast b"
  by (simp add: unsigned_ucast_eq)

lemma contains_iff: "contains pat s \<longleftrightarrow> sublist pat s"
proof -
  have "take (length pat) t = pat \<longleftrightarrow> prefix pat t" for t :: string
    by (metis append_eq_conv_conj prefixE take_is_prefix)
  then show ?thesis by (induction s) (auto simp: sublist_Cons_right)
qed

lemma find_char_Some: "find_char c s = Some k \<longleftrightarrow> k < length s \<and> s ! k = c \<and> c \<notin> set (take k s)"
proof (induction s arbitrary: k)
  case (Cons d s)
  then show ?case by (cases k) auto
qed simp

lemma find_char_None: "find_char c s = None \<longleftrightarrow> c \<notin> set s"
  by (induction s) auto

lemma find_char_append: "c \<notin> set s \<Longrightarrow> find_char c (s @ c # t) = Some (length s)"
  by (simp add: find_char_Some nth_append)

text \<open>Numbers written as digits, with no prefix: they are read back up to the first other character.\<close>

definition digit_text :: "nat list \<Rightarrow> string" where
  "digit_text ds = map hex_char ds"

definition text_of :: "bool \<Rightarrow> nat list \<Rightarrow> nat \<Rightarrow> bool" where
  "text_of hex ds n \<longleftrightarrow> ds \<noteq> [] \<and> list_all (\<lambda>d. d < (if hex then 16 else 10)) ds \<and>
     digits_value (if hex then 16 else 10) ds = n"

definition stops :: "string \<Rightarrow> bool" where
  "stops r \<longleftrightarrow> (case r of [] \<Rightarrow> True | c # _ \<Rightarrow> hex_digit c = None \<and> c \<noteq> CHR ''x'' \<and> c \<noteq> CHR ''X'')"

lemma hex_char_dec [simp]: "d < 10 \<Longrightarrow> dec_digit (hex_char d) = Some d"
  using hex_cases [of d] by (auto simp: hex_char_def dec_digit_def isdigit_def)

lemma dec_hex_digit: "hex_digit c = None \<Longrightarrow> dec_digit c = None"
  by (auto simp: hex_digit_def dec_digit_def Let_def split: if_splits)

lemma takeWhile_digits:
  assumes "list_all (\<lambda>d. f (hex_char d) = Some d) ds" "case r of [] \<Rightarrow> True | c # _ \<Rightarrow> f c = None"
  shows "takeWhile (\<lambda>c. f c \<noteq> None) (digit_text ds @ r) = digit_text ds" "map (the \<circ> f) (digit_text ds) = ds"
  using assms by (induction ds) (auto simp: digit_text_def takeWhile_eq_Nil_iff split: list.splits)

lemma digit_text_Cons [simp]: "digit_text (d # ds) = hex_char d # digit_text ds"
  by (simp add: digit_text_def)

lemma length_digit_text [simp]: "length (digit_text ds) = length ds"
  by (simp add: digit_text_def)

lemma no_prefix: "list_all (\<lambda>d. d < 16) ds \<Longrightarrow> ds \<noteq> [] \<Longrightarrow> stops r \<Longrightarrow> scan_prefix hex (digit_text ds @ r) = 0"
  by (cases ds; cases "tl ds"; cases r) (auto simp: scan_prefix_def stops_def numeral_2_eq_2 digit_text_def)

lemma scan_digits:
  assumes t: "text_of hex ds n" and r: "stops r"
  shows "scan_number hex None (digit_text ds @ r) = Some (False, n, r)"
proof -
  have ds: "ds \<noteq> []" "list_all (\<lambda>d. d < 16) ds"
    using t by (auto simp: text_of_def list_all_iff split: if_splits)
  obtain d ds' where d: "ds = d # ds'" "d < 16" using ds by (cases ds) auto
  let ?f = "if hex then hex_digit else dec_digit"
  have digits: "takeWhile (\<lambda>c. ?f c \<noteq> None) (digit_text ds @ r) = digit_text ds" "map (the \<circ> ?f) (digit_text ds) = ds"
    using takeWhile_digits [of ?f ds r] t r
    by (auto simp: text_of_def list_all_iff stops_def dec_hex_digit split: list.splits if_splits)
  have start: "dropWhile isspace (digit_text ds @ r) = digit_text ds @ r" "scan_sign (digit_text ds @ r) = (False, 0)"
    using d by (simp_all add: scan_sign_def)
  show ?thesis
    unfolding scan_number_def Let_def start option.case prod.case drop_0 no_prefix [OF ds(2,1) r] add_0 digits
    using t d(1) by (simp add: text_of_def)
qed

lemma scan_x_digits: "text_of True ds n \<Longrightarrow> n < 2 ^ 32 \<Longrightarrow> stops r \<Longrightarrow> scan_x (digit_text ds @ r) = Scanned (of_nat n)"
  by (simp add: scan_x_def scan_as_def scan_digits as_u32_def)

lemma stops_chars [simp]: "stops (CHR '','' # r)" "stops (CHR '':'' # r)" "stops (CHR ''='' # r)" "stops []"
  by (simp_all add: stops_def hex_digit_def isdigit_def)

lemma scan_llx_d_digits:
  assumes "text_of True ds a" "a < 2 ^ 64" "text_of False es n" "n < 2 ^ 31" "stops r"
  shows "scan_llx_d (digit_text ds @ CHR '','' # digit_text es @ r) = Scanned (of_nat a, int n)"
  using assms by (simp add: scan_llx_d_def scan_as_def scan_digits as_u64_def scan_comma_def as_int_def)

lemma digit_text_not: "list_all (\<lambda>d. d < 16) ds \<Longrightarrow> \<not> isdigit c \<Longrightarrow> hex_digit c = None \<Longrightarrow> c \<notin> set (digit_text ds)"
  by (auto simp: digit_text_def list_all_iff)

lemma text_of_hex: "text_of hex ds n \<Longrightarrow> list_all (\<lambda>d. d < 16) ds"
  by (auto simp: text_of_def list_all_iff split: if_splits)

end
