(* ===== verification/RSP.thy ===== *)
theory RSP
  imports Scan Exceptions
begin

text \<open>
  The remote serial protocol of gdb: \<open>src/rsp.C\<close> and \<open>include/rsp.h\<close>. Packets are framed and
  checked by \<open>RSP_Decode\<close> and \<open>RSP_Encode\<close>, and \<open>RSP_Dispatch\<close> chooses the handler of a request. The
  handlers are virtual, so \<open>RSP_Dispatch\<close> has them as a parameter; the ones of the base class are
  \<open>RSP_handler\<close>.
\<close>

unbundle bit_operations_syntax

section \<open>Packets\<close>

datatype rsp_error = ShortPacket | NoDollar | NoHash | Unprintable | BadChecksumDigits
  | UnescapedControl | ChecksumMismatch

text \<open>The loop over the data: an escape character makes the next one be read with bit 5 flipped.\<close>

definition flip_case :: "char \<Rightarrow> char" where
  "flip_case c = char_of (of_char c XOR 0x20 :: int)"

fun decode_data :: "bool \<Rightarrow> string \<Rightarrow> rsp_error + string" where
  "decode_data do_escape [] = Inr []"
| "decode_data do_escape (dc # s) =
     (if do_escape then map_sum id (Cons (flip_case dc)) (decode_data False s)
      else if dc = CHR 0x7D then decode_data True s
      else if dc = CHR ''#'' then Inl UnescapedControl
      else map_sum id (Cons dc) (decode_data False s))"

definition rsp_checksum :: "string \<Rightarrow> u8" where
  "rsp_checksum s = foldl (\<lambda>n dc. n + of_char dc) 0 s"

text \<open>
  \<open>packet\<close> is what was received; in the buffer it is followed by zeros. The two digits are read from
  the buffer, so white space in their place makes the scan go on behind them. Two characters always
  give a number that fits.
\<close>

definition RSP_Decode :: "string \<Rightarrow> rsp_error + string" where
  "RSP_Decode packet =
     (if packet = [] then Inl ShortPacket
      else
        let packet = (if hd packet = CHR ''+'' then tl packet else packet);
            size = length packet;
            size = (if size > 0 \<and> packet ! (size - 1) = CHR ''+'' then size - 1 else size)
        in if size = 0 then Inr []
           else if size < 4 then Inl ShortPacket
           else if packet ! 0 \<noteq> CHR ''$'' then Inl NoDollar
           else if packet ! (size - 3) \<noteq> CHR ''#'' then Inl NoHash
           else if \<not> list_all isprint (take size packet) then Inl Unprintable
           else
             case scan_number True (Some 2) (drop (size - 2) packet) of
               None \<Rightarrow> Inl BadChecksumDigits
             | Some (neg, n, _) \<Rightarrow>
                 let expected_checksum = (if neg then - of_nat n else of_nat n :: u32)
                 in case decode_data False (take (size - 4) (drop 1 packet)) of
                      Inl e \<Rightarrow> Inl e
                    | Inr pdata \<Rightarrow>
                        if ucast (rsp_checksum pdata) \<noteq> expected_checksum then Inl ChecksumMismatch
                        else Inr pdata)"

definition RSP_Acknowledge :: "string \<Rightarrow> string" where
  "RSP_Acknowledge packet_decoded = (if length packet_decoded > 0 then ''+'' else [])"

definition RSP_Encode :: "string \<Rightarrow> string" where
  "RSP_Encode src = ''$'' @ src @ ''#'' @ hex2 (rsp_checksum src)"

section \<open>Requests\<close>

datatype GDB_SERVER_ACTIONS =
    ACK_BAD_RESPONSE | CLEAR_BREAKPOINT | CONTINUE | CONTINUE_THREAD | CONTINUE_WITH_SIGNAL
  | DETACH | END_ACTIVE_THREADS_REPORT | END_TRACE_VARIABLES_REPORT | FILE_OPERATION | INTERRUPT
  | KILL_TARGET | LOAD_BINARY_DATA | READ_GP_REGISTERS | READ_MEMORY | READ_REGISTER
  | REPLY_EMPTY | REPORT_CURRENT_THREAD | REPORT_FEATURES | REPORT_OFFSETS | REPORT_PROCESS
  | REPORT_TRACE_RUNNING | REQUEST_SYMBOL_INFO | SEND_HALT_REPORT | SET_BREAKPOINT | SET_THREAD
  | START_ACTIVE_THREADS_REPORT | START_TRACE_VARIABLES_REPORT | STEP | STEP_THREAD
  | STEP_WITH_SIGNAL | USE_PREVIOUS_THREAD | WRITE_GP_REGISTERS | WRITE_MEMORY | WRITE_REGISTER
  | REQUEST_SUPPORTED_ACTIONS

text \<open>The names printed in verbose mode; \<open>STEP_THREAD\<close> has none.\<close>

fun commandName :: "GDB_SERVER_ACTIONS \<Rightarrow> string" where
  "commandName ACK_BAD_RESPONSE = ''ACK_BAD_RESPONSE''"
| "commandName REPLY_EMPTY = ''REPLY_EMPTY''"
| "commandName CLEAR_BREAKPOINT = ''CLEAR_BREAKPOINT''"
| "commandName SET_BREAKPOINT = ''SET_BREAKPOINT''"
| "commandName CONTINUE = ''CONTINUE''"
| "commandName STEP = ''STEP''"
| "commandName DETACH = ''DETACH''"
| "commandName START_ACTIVE_THREADS_REPORT = ''START_ACTIVE_THREADS_REPORT''"
| "commandName END_ACTIVE_THREADS_REPORT = ''END_ACTIVE_THREADS_REPORT''"
| "commandName START_TRACE_VARIABLES_REPORT = ''START_TRACE_VARIABLES_REPORT''"
| "commandName END_TRACE_VARIABLES_REPORT = ''END_TRACE_VARIABLES_REPORT''"
| "commandName FILE_OPERATION = ''FILE_OPERATION''"
| "commandName INTERRUPT = ''INTERRUPT''"
| "commandName KILL_TARGET = ''KILL_TARGET''"
| "commandName LOAD_BINARY_DATA = ''LOAD_BINARY_DATA''"
| "commandName READ_GP_REGISTERS = ''READ_GP_REGISTERS''"
| "commandName WRITE_GP_REGISTERS = ''WRITE_GP_REGISTERS''"
| "commandName READ_REGISTER = ''READ_REGISTER''"
| "commandName WRITE_REGISTER = ''WRITE_REGISTER''"
| "commandName READ_MEMORY = ''READ_MEMORY''"
| "commandName WRITE_MEMORY = ''WRITE_MEMORY''"
| "commandName REPORT_FEATURES = ''REPORT_FEATURES''"
| "commandName REPORT_OFFSETS = ''REPORT_OFFSETS''"
| "commandName REPORT_PROCESS = ''REPORT_PROCESS''"
| "commandName REPORT_TRACE_RUNNING = ''REPORT_TRACE_RUNNING''"
| "commandName REQUEST_SYMBOL_INFO = ''REQUEST_SYMBOL_INFO''"
| "commandName SEND_HALT_REPORT = ''SEND_HALT_REPORT''"
| "commandName REPORT_CURRENT_THREAD = ''REPORT_CURRENT_THREAD''"
| "commandName SET_THREAD = ''SET_THREAD''"
| "commandName USE_PREVIOUS_THREAD = ''USE_PREVIOUS_THREAD''"
| "commandName CONTINUE_THREAD = ''CONTINUE_THREAD''"
| "commandName CONTINUE_WITH_SIGNAL = ''CONTINUE_WITH_SIGNAL''"
| "commandName STEP_WITH_SIGNAL = ''STEP_WITH_SIGNAL''"
| "commandName REQUEST_SUPPORTED_ACTIONS = ''REQUEST_SUPPORTED_ACTIONS''"
| "commandName STEP_THREAD = []"

text \<open>
  The choice of a request. Indexing a string at its length gives the null character; beyond it the
  behaviour is undefined.
\<close>

definition string_at :: "string \<Rightarrow> nat \<Rightarrow> char option" where
  "string_at s k = (if k < length s then Some (s ! k) else if k = length s then Some (CHR 0x00) else None)"

definition digit_at :: "string \<Rightarrow> nat \<Rightarrow> sim_throw + bool" where
  "digit_at s k = (case string_at s k of None \<Rightarrow> Inl UB | Some c \<Rightarrow> Inr (isdigit c))"

definition cmd_case_rest :: "string \<Rightarrow> GDB_SERVER_ACTIONS option" where
  "cmd_case_rest pdata =
     (let has = (\<lambda>pat. contains pat pdata); first = (\<lambda>c. hd pdata = c)
      in
         if has ''qTStatus'' then Some REPORT_TRACE_RUNNING
         else if has ''qTf'' then Some START_TRACE_VARIABLES_REPORT
         else if has ''qTs'' then Some END_TRACE_VARIABLES_REPORT
         else if has ''qfThreadInfo'' then Some START_ACTIVE_THREADS_REPORT
         else if has ''qsThreadInfo'' then Some END_ACTIVE_THREADS_REPORT
         else if take 2 pdata = ''qC'' then Some USE_PREVIOUS_THREAD
         else if has ''qAttached'' then Some REPORT_PROCESS
         else if has ''qOffsets'' then Some REPORT_OFFSETS
         else if pdata = ''?'' then Some ACK_BAD_RESPONSE
         else if pdata = ''g'' then Some READ_GP_REGISTERS
         else if first (CHR ''m'') then Some READ_MEMORY
         else if has ''vFile'' then Some FILE_OPERATION
         else if has ''qSymbol::'' then Some REQUEST_SYMBOL_INFO
         else if first (CHR ''Z'') then Some SET_BREAKPOINT
         else if has ''vCont?'' then Some REQUEST_SUPPORTED_ACTIONS
         else if has ''vCont'' then Some CONTINUE_THREAD
         else if has ''vStep'' then Some STEP_THREAD
         else if has ''vKill'' then Some KILL_TARGET
         else if first (CHR ''D'') then Some DETACH
         else if first (CHR ''G'') then Some WRITE_GP_REGISTERS
         else if first (CHR ''k'') then Some KILL_TARGET
         else if first (CHR ''M'') then Some WRITE_MEMORY
         else if first (CHR ''p'') then Some READ_REGISTER
         else if first (CHR ''P'') then Some WRITE_REGISTER
         else if first (CHR ''X'') then Some LOAD_BINARY_DATA
         else if first (CHR ''z'') then Some CLEAR_BREAKPOINT
         else if first (CHR ''c'') then Some CONTINUE
         else if first (CHR ''s'') then Some STEP
         else if first (CHR ''C'') then Some CONTINUE_WITH_SIGNAL
         else if first (CHR ''S'') then Some STEP_WITH_SIGNAL
         else None)"

definition cmd_case :: "string \<Rightarrow> sim_throw + GDB_SERVER_ACTIONS option" where
  "cmd_case pdata =
     (if contains ''qSupported'' pdata then Inr (Some REPORT_FEATURES)
      else if contains ''vMustReplyEmpty'' pdata then Inr (Some REPLY_EMPTY)
      else
        case (if take 2 pdata = ''Hg'' then digit_at pdata 2 else Inr False) of
          Inl e \<Rightarrow> Inl e
        | Inr True \<Rightarrow> Inr (Some SET_THREAD)
        | Inr False \<Rightarrow>
            (case (if take 3 pdata = ''Hc-'' then digit_at pdata 4 else Inr False) of
               Inl e \<Rightarrow> Inl e
             | Inr True \<Rightarrow> Inr (Some SET_THREAD)
             | Inr False \<Rightarrow> Inr (cmd_case_rest pdata)))"

section \<open>The handlers of the base class\<close>

definition RSP_AckBadResponse :: string where "RSP_AckBadResponse = ''S05''"
definition RSP_ReplyEmpty :: string where "RSP_ReplyEmpty = []"
definition RSP_ClearBreakpoints :: string where "RSP_ClearBreakpoints = []"
definition RSP_SetBreakpoints :: string where "RSP_SetBreakpoints = []"
definition RSP_Continue :: string where "RSP_Continue = []"
definition RSP_Step :: string where "RSP_Step = []"
definition RSP_ContinueThread :: string where "RSP_ContinueThread = []"
definition RSP_ContinueWithSignal :: string where "RSP_ContinueWithSignal = []"
definition RSP_StepWithSignal :: string where "RSP_StepWithSignal = []"
definition RSP_Detach :: string where "RSP_Detach = []"
definition RSP_StartActiveThreadsReport :: string where "RSP_StartActiveThreadsReport = ''m0''"
definition RSP_EndActiveThreadsReport :: string where "RSP_EndActiveThreadsReport = ''l''"
definition RSP_StartTraceVariablesReport :: string where "RSP_StartTraceVariablesReport = []"
definition RSP_EndTraceVariablesReport :: string where "RSP_EndTraceVariablesReport = []"
definition RSP_FileOperation :: string where "RSP_FileOperation = []"
definition RSP_Interrupt :: string where "RSP_Interrupt = []"
definition RSP_KillTarget :: string where "RSP_KillTarget = []"
definition RSP_LoadBinaryData :: string where "RSP_LoadBinaryData = []"
definition RSP_WriteGPRegisters :: string where "RSP_WriteGPRegisters = []"
definition RSP_ReportFeatures :: string where "RSP_ReportFeatures = []"
definition RSP_ReportOffsets :: string where "RSP_ReportOffsets = ''Text=0;Data=0;Bss=0''"
definition RSP_ReportProcess :: string where "RSP_ReportProcess = ''l''"
definition RSP_ReportTraceRunning :: string where "RSP_ReportTraceRunning = ''T0''"
definition RSP_RequestSymbolInfo :: string where "RSP_RequestSymbolInfo = ''OK''"
definition RSP_HaltReport :: string where "RSP_HaltReport = []"
definition RSP_ReportCurrentThread :: string where "RSP_ReportCurrentThread = ''OK''"
definition RSP_SetThread :: string where "RSP_SetThread = []"
definition RSP_UsePreviousThread :: string where "RSP_UsePreviousThread = []"
definition RSP_RequestSupportedActions :: string where "RSP_RequestSupportedActions = []"

definition RSP_ReadGPRegisters :: string where
  "RSP_ReadGPRegisters = concat (replicate 36 ''0000000000000000'')"

definition RSP_ReadRegister :: "string \<Rightarrow> sim_throw + string" where
  "RSP_ReadRegister pdata =
     (case scan_x (drop 1 pdata) of Overflow \<Rightarrow> Inl UB | Failed \<Rightarrow> Inr ''E 1'' | Scanned rindex \<Rightarrow> Inr [])"

text \<open>The four scans of the value read the same two characters.\<close>

definition RSP_WriteRegister :: "string \<Rightarrow> sim_throw + string" where
  "RSP_WriteRegister pdata =
     (case scan_x (drop 1 pdata) of
        Overflow \<Rightarrow> Inl UB
      | Failed \<Rightarrow> Inr ''E 1''
      | Scanned rindex \<Rightarrow>
          (case find_char (CHR ''='') pdata of
             None \<Rightarrow> Inr ''E1''
           | Some pos \<Rightarrow>
               if scan_number True (Some 2) (drop (pos + 1) pdata) = None then Inr ''E2'' else Inr ''OK''))"

definition RSP_ReadMemory :: "string \<Rightarrow> sim_throw + string" where
  "RSP_ReadMemory pdata =
     (case scan_llx_d (drop 1 pdata) of
        Overflow \<Rightarrow> Inl UB
      | Failed \<Rightarrow> Inr ''E1''
      | Scanned (maddr, msize) \<Rightarrow> Inr (concat (replicate (nat msize) ''00'')))"

text \<open>An array of negative length is undefined; the scans read the same two characters.\<close>

definition RSP_WriteMemory :: "string \<Rightarrow> sim_throw + string" where
  "RSP_WriteMemory pdata =
     (case scan_llx_d (drop 1 pdata) of
        Overflow \<Rightarrow> Inl UB
      | Failed \<Rightarrow> Inr ''E1''
      | Scanned (maddr, msize) \<Rightarrow>
          (case find_char (CHR '':'') pdata of
             None \<Rightarrow> Inr ''E1''
           | Some pos \<Rightarrow>
               if msize < 0 then Inl UB
               else if msize > 0 \<and> scan_number True (Some 2) (drop (pos + 1) pdata) = None then Inr ''E2''
               else Inr ''OK''))"

text \<open>The switch; \<open>STEP_THREAD\<close> has no case and leaves the preset response.\<close>

fun RSP_handler :: "GDB_SERVER_ACTIONS \<Rightarrow> string \<Rightarrow> sim_throw + string" where
  "RSP_handler ACK_BAD_RESPONSE pdata = Inr RSP_AckBadResponse"
| "RSP_handler CLEAR_BREAKPOINT pdata = Inr RSP_ClearBreakpoints"
| "RSP_handler CONTINUE pdata = Inr RSP_Continue"
| "RSP_handler CONTINUE_THREAD pdata = Inr RSP_ContinueThread"
| "RSP_handler CONTINUE_WITH_SIGNAL pdata = Inr RSP_ContinueWithSignal"
| "RSP_handler DETACH pdata = Inr RSP_Detach"
| "RSP_handler END_ACTIVE_THREADS_REPORT pdata = Inr RSP_EndActiveThreadsReport"
| "RSP_handler END_TRACE_VARIABLES_REPORT pdata = Inr RSP_EndTraceVariablesReport"
| "RSP_handler FILE_OPERATION pdata = Inr RSP_FileOperation"
| "RSP_handler INTERRUPT pdata = Inr RSP_Interrupt"
| "RSP_handler KILL_TARGET pdata = Inr RSP_KillTarget"
| "RSP_handler LOAD_BINARY_DATA pdata = Inr RSP_LoadBinaryData"
| "RSP_handler READ_GP_REGISTERS pdata = Inr RSP_ReadGPRegisters"
| "RSP_handler READ_MEMORY pdata = RSP_ReadMemory pdata"
| "RSP_handler READ_REGISTER pdata = RSP_ReadRegister pdata"
| "RSP_handler REPLY_EMPTY pdata = Inr RSP_ReplyEmpty"
| "RSP_handler REPORT_CURRENT_THREAD pdata = Inr RSP_ReportCurrentThread"
| "RSP_handler REPORT_FEATURES pdata = Inr RSP_ReportFeatures"
| "RSP_handler REPORT_OFFSETS pdata = Inr RSP_ReportOffsets"
| "RSP_handler REPORT_PROCESS pdata = Inr RSP_ReportProcess"
| "RSP_handler REPORT_TRACE_RUNNING pdata = Inr RSP_ReportTraceRunning"
| "RSP_handler REQUEST_SYMBOL_INFO pdata = Inr RSP_RequestSymbolInfo"
| "RSP_handler SEND_HALT_REPORT pdata = Inr RSP_HaltReport"
| "RSP_handler SET_BREAKPOINT pdata = Inr RSP_SetBreakpoints"
| "RSP_handler SET_THREAD pdata = Inr RSP_SetThread"
| "RSP_handler START_ACTIVE_THREADS_REPORT pdata = Inr RSP_StartActiveThreadsReport"
| "RSP_handler START_TRACE_VARIABLES_REPORT pdata = Inr RSP_StartTraceVariablesReport"
| "RSP_handler STEP pdata = Inr RSP_Step"
| "RSP_handler STEP_THREAD pdata = Inr ''+''"
| "RSP_handler STEP_WITH_SIGNAL pdata = Inr RSP_StepWithSignal"
| "RSP_handler USE_PREVIOUS_THREAD pdata = Inr RSP_UsePreviousThread"
| "RSP_handler WRITE_GP_REGISTERS pdata = Inr RSP_WriteGPRegisters"
| "RSP_handler WRITE_MEMORY pdata = RSP_WriteMemory pdata"
| "RSP_handler WRITE_REGISTER pdata = RSP_WriteRegister pdata"
| "RSP_handler REQUEST_SUPPORTED_ACTIONS pdata = Inr RSP_RequestSupportedActions"

text \<open>What a request leads to, for the handlers \<open>h\<close> of the object.\<close>

definition RSP_Dispatch ::
    "(GDB_SERVER_ACTIONS \<Rightarrow> string \<Rightarrow> ('s, sim_throw, string) smx) \<Rightarrow> string \<Rightarrow> ('s, sim_throw, string) smx" where
  "RSP_Dispatch h pdata =
     (if pdata = [] then returnS []
      else case cmd_case pdata of
             Inl e \<Rightarrow> throwS e
           | Inr None \<Rightarrow> returnS (RSP_Encode ''+'')
           | Inr (Some cmd) \<Rightarrow> bindS (h cmd pdata) (\<lambda>response. returnS (RSP_Encode response)))"

section \<open>Framing\<close>

text \<open>A character that needs no escape in a packet.\<close>

definition plain_char :: "char \<Rightarrow> bool" where
  "plain_char c \<longleftrightarrow> isprint c \<and> c \<noteq> CHR ''#'' \<and> c \<noteq> CHR 0x7D"

definition ack_opt :: "string \<Rightarrow> bool" where
  "ack_opt a \<longleftrightarrow> a = [] \<or> a = ''+''"

definition frame :: "string \<Rightarrow> string \<Rightarrow> string" where
  "frame body digits = ''$'' @ body @ ''#'' @ digits"

lemma rsp_checksum_sum: "rsp_checksum s = sum_list (map of_char s)"
proof -
  have "foldl (\<lambda>n dc. n + of_char dc) (a :: u8) s = a + sum_list (map of_char s)" for a
    by (induction s arbitrary: a) (simp_all add: add.assoc)
  then show ?thesis by (simp add: rsp_checksum_def)
qed

lemma of_char_u8: "(of_char c :: u8) = of_char d \<longleftrightarrow> c = d"
proof -
  have "unat (of_char c :: u8) = of_char c" for c
    using unat_of_nat [of "of_char c", where ?'a = 8] by (simp add: of_nat_of_char)
  then show ?thesis by (metis of_char_eq_iff)
qed

lemma decode_data_plain: "list_all plain_char s \<Longrightarrow> decode_data False s = Inr s"
  by (induction s) (simp_all add: plain_char_def)

lemma isprint_frame_chars [simp]: "isprint (CHR ''$'')" "isprint (CHR ''#'')" "isprint (CHR ''+'')"
  by (simp_all add: isprint_def)

lemma list_all_hex2 [simp]: "list_all isprint (hex2 b)"
  by (simp add: hex2_def)

lemma Decode_inner:
  assumes p: "packet = frame body [x, y] @ a" and y: "y \<noteq> CHR ''+''" and a: "ack_opt a"
  shows "(if size packet > 0 \<and> packet ! (size packet - 1) = CHR ''+'' then size packet - 1 else size packet) = length body + 4"
    "packet ! 0 = CHR ''$''" "packet ! (length body + 1) = CHR ''#''"
    "take (length body + 4) packet = frame body [x, y]" "drop (length body + 2) packet = x # y # a"
    "take (length body) (drop 1 packet) = body"
  using a y by (auto simp: p frame_def ack_opt_def nth_append numeral_eq_Suc)

text \<open>What \<open>RSP_Decode\<close> does with a framed packet, with or without acknowledgements around it.\<close>

lemma Decode_frame:
  assumes y: "y \<noteq> CHR ''+''" and a1: "ack_opt a1" and a2: "ack_opt a2"
  shows "RSP_Decode (a1 @ frame body [x, y] @ a2) =
    (if \<not> list_all isprint (frame body [x, y]) then Inl Unprintable
     else case scan_number True (Some 2) (x # y # a2) of
            None \<Rightarrow> Inl BadChecksumDigits
          | Some (neg, n, _) \<Rightarrow>
              (case decode_data False body of
                 Inl e \<Rightarrow> Inl e
               | Inr pdata \<Rightarrow>
                   if ucast (rsp_checksum pdata) \<noteq> (if neg then - of_nat n else of_nat n :: u32)
                   then Inl ChecksumMismatch else Inr pdata))"
proof -
  define packet where "packet = frame body [x, y] @ a2"
  note inner = Decode_inner [OF packet_def y a2]
  have strip: "(if hd (a1 @ packet) = CHR ''+'' then tl (a1 @ packet) else a1 @ packet) = packet"
    using a1 by (auto simp: packet_def frame_def ack_opt_def)
  have ne: "packet \<noteq> []" by (simp add: packet_def frame_def)
  have n: "length body + 4 - 3 = length body + 1" "length body + 4 - 2 = length body + 2"
    "length body + 4 - 4 = length body" by simp_all
  show ?thesis
    unfolding RSP_Decode_def packet_def [symmetric] strip Let_def inner(1) n inner(2-6)
    using ne by simp
qed

lemma Decode_data_frame:
  assumes a1: "ack_opt a1" and a2: "ack_opt a2" and body: "list_all isprint body"
  shows "RSP_Decode (a1 @ frame body (hex2 ck) @ a2) =
    (case decode_data False body of
       Inl e \<Rightarrow> Inl e
     | Inr pdata \<Rightarrow> if rsp_checksum pdata \<noteq> ck then Inl ChecksumMismatch else Inr pdata)"
proof -
  obtain x y where xy: "hex2 ck = [x, y]" and y: "y \<noteq> CHR ''+''" by (simp add: hex2_def)
  have inj: "ucast (c :: u8) = (ucast d :: u32) \<longleftrightarrow> c = d" for c d :: u8
    by (metis ucast_u8_u32_u8)
  have "list_all isprint (frame body (hex2 ck))" using body by (simp add: frame_def)
  then show ?thesis
    using Decode_frame [OF y a1 a2, of body x] scan_hex2 [of ck a2]
    by (auto simp: xy inj split: sum.splits)
qed

lemma Encode_frame: "RSP_Encode src = frame src (hex2 (rsp_checksum src))"
  by (simp add: RSP_Encode_def frame_def)

lemma plain_isprint: "list_all plain_char s \<Longrightarrow> list_all isprint s"
  by (auto simp: list_all_iff plain_char_def)

text \<open>
  C30. A string without control characters survives encoding and decoding, with or without an
  acknowledgement before and behind the packet, and the decoder's answer to it is an acknowledgement
  exactly when it is not empty.
\<close>

theorem rsp_roundtrip:
  assumes "list_all plain_char src" and "ack_opt a1" and "ack_opt a2"
  shows "RSP_Decode (a1 @ RSP_Encode src @ a2) = Inr src \<and> (RSP_Acknowledge src = ''+'' \<longleftrightarrow> src \<noteq> [])"
  using assms by (simp_all add: Encode_frame Decode_data_frame decode_data_plain plain_isprint RSP_Acknowledge_def)

theorem rsp_roundtrip_witness:
  "list_all plain_char ''m80000000,4'' \<and> RSP_Decode (''+'' @ RSP_Encode ''m80000000,4'' @ []) = Inr ''m80000000,4''"
proof -
  have "list_all plain_char ''m80000000,4''" by (simp add: plain_char_def isprint_def)
  then show ?thesis using rsp_roundtrip [of "''m80000000,4''" "''+''" "[]"] by (simp add: ack_opt_def)
qed

lemma rsp_detects_corruption_parts:
  assumes src: "list_all plain_char src" and a: "ack_opt a1" "ack_opt a2"
  shows "i < length src \<Longrightarrow> plain_char c \<Longrightarrow> c \<noteq> src ! i \<Longrightarrow>
           RSP_Decode (a1 @ frame (src[i := c]) (hex2 (rsp_checksum src)) @ a2) = Inl ChecksumMismatch"
    and "ck \<noteq> rsp_checksum src \<Longrightarrow> RSP_Decode (a1 @ frame src (hex2 ck) @ a2) = Inl ChecksumMismatch"
proof -
  assume i: "i < length src" and c: "plain_char c" and new: "c \<noteq> src ! i"
  have plain: "list_all plain_char (src[i := c])"
    using src c by (auto simp: list_all_iff dest: set_update_subset_insert [THEN subsetD])
  have "rsp_checksum (src[i := c]) = rsp_checksum src + of_char c - of_char (src ! i)"
  proof -
    have "(sum_list (map of_char src) :: u8) =
        sum_list (map of_char (take i src)) + (of_char (src ! i) + sum_list (map of_char (drop (Suc i) src)))"
      by (subst id_take_nth_drop [OF i]) (simp add: add.assoc)
    with i show ?thesis by (simp add: rsp_checksum_sum upd_conv_take_nth_drop)
  qed
  moreover have "(of_char c :: u8) \<noteq> of_char (src ! i)" using new by (simp add: of_char_u8)
  ultimately have "rsp_checksum (src[i := c]) \<noteq> rsp_checksum src"
    by (metis add_diff_cancel_left' add.commute diff_add_cancel)
  then show "RSP_Decode (a1 @ frame (src[i := c]) (hex2 (rsp_checksum src)) @ a2) = Inl ChecksumMismatch"
    using a plain by (simp add: Decode_data_frame decode_data_plain plain_isprint)
next
  assume "ck \<noteq> rsp_checksum src"
  then show "RSP_Decode (a1 @ frame src (hex2 ck) @ a2) = Inl ChecksumMismatch"
    using a src by (auto simp add: Decode_data_frame decode_data_plain plain_isprint)
qed

text \<open>
  C31. The checksum guards plain data: a packet of plain characters (printable, neither the number
  sign nor the closing brace) in which one data character is replaced by another plain one, or with the digits of any other checksum, is rejected with a checksum error.
\<close>

theorem rsp_detects_corruption:
  assumes "list_all plain_char src" "ack_opt a1" "ack_opt a2"
  shows "(\<forall>i c. i < length src \<longrightarrow> plain_char c \<longrightarrow> c \<noteq> src ! i \<longrightarrow>
      RSP_Decode (a1 @ frame (src[i := c]) (hex2 (rsp_checksum src)) @ a2) = Inl ChecksumMismatch) \<and>
    (\<forall>ck. ck \<noteq> rsp_checksum src \<longrightarrow> RSP_Decode (a1 @ frame src (hex2 ck) @ a2) = Inl ChecksumMismatch)"
  using rsp_detects_corruption_parts [OF assms] by blast

theorem rsp_detects_corruption_witness:
  "RSP_Decode (frame ''m80000004,4'' (hex2 (rsp_checksum ''m80000000,4''))) = Inl ChecksumMismatch"
proof -
  have "list_all plain_char ''m80000000,4''" "plain_char (CHR ''4'')" by (simp_all add: plain_char_def isprint_def)
  then show ?thesis
    using conjunct1 [OF rsp_detects_corruption [of "''m80000000,4''" "[]" "[]"], THEN spec, of 8, THEN spec, of "CHR ''4''"]
    by (simp add: ack_opt_def numeral_eq_Suc)
qed

text \<open>
  Escapes. The protocol computes the checksum over the characters sent, \<open>RSP_Decode\<close> over the characters
  meant: a packet framed by the rules of the protocol that has between 1 and 255 escapes is rejected.
  Already the escaped forms of \<open>#\<close>, \<open>$\<close> and \<open>*\<close> are rejected as unprintable.
\<close>

fun rsp_escape :: "string \<Rightarrow> string" where
  "rsp_escape [] = []"
| "rsp_escape (c # s) =
     (if c \<in> {CHR ''#'', CHR ''$'', CHR ''*'', CHR 0x7D} then CHR 0x7D # flip_case c # rsp_escape s
      else c # rsp_escape s)"

definition escapes :: "string \<Rightarrow> nat" where
  "escapes s = length (filter (\<lambda>c. c \<in> {CHR ''#'', CHR ''$'', CHR ''*'', CHR 0x7D}) s)"

lemma flip_flip:
  assumes "c \<in> {CHR ''#'', CHR ''$'', CHR ''*'', CHR 0x7D}"
  shows "flip_case (flip_case c) = c" "isprint (flip_case c) \<longleftrightarrow> c = CHR 0x7D"
    "(of_char (flip_case c) :: u8) = of_char c - 0x20"
proof -
  have "flip_case (CHR ''#'') = CHR 0x03" "flip_case (CHR ''$'') = CHR 0x04" "flip_case (CHR ''*'') = CHR 0x0A"
    "flip_case (CHR 0x7D) = CHR '']''" "flip_case (CHR 0x03) = CHR ''#''" "flip_case (CHR 0x04) = CHR ''$''"
    "flip_case (CHR 0x0A) = CHR ''*''" "flip_case (CHR '']'') = CHR 0x7D"
    by (simp_all add: flip_case_def char_of_eq_iff)
  with assms show "flip_case (flip_case c) = c" "isprint (flip_case c) \<longleftrightarrow> c = CHR 0x7D"
    "(of_char (flip_case c) :: u8) = of_char c - 0x20"
    by (auto simp: isprint_def)
qed

lemma decode_escape: "decode_data False (rsp_escape s) = Inr s"
  by (induction s) (simp_all add: flip_flip)

lemma isprint_escape:
  "list_all isprint s \<Longrightarrow> list_all isprint (rsp_escape s) \<longleftrightarrow> set s \<inter> {CHR ''#'', CHR ''$'', CHR ''*''} = {}"
  by (induction s) (auto simp add: flip_flip isprint_def [of "CHR 0x7D"])

lemma checksum_escape: "rsp_checksum (rsp_escape s) = rsp_checksum s + of_nat (93 * escapes s)"
  unfolding rsp_checksum_sum
  by (induction s) (simp_all add: flip_flip escapes_def algebra_simps)

lemma escape_checksum_differs:
  assumes "0 < escapes src" and "escapes src < 256"
  shows "rsp_checksum (rsp_escape src) \<noteq> rsp_checksum src"
proof -
  have "\<not> 256 dvd 93 * escapes src"
  proof
    assume "256 dvd 93 * escapes src"
    moreover have "coprime (256 :: nat) 93" by (simp add: coprime_iff_gcd_eq_1 gcd_non_0_nat)
    ultimately have "256 dvd escapes src" by (simp add: coprime_dvd_mult_right_iff)
    with assms show False by (auto dest: dvd_imp_le)
  qed
  then show ?thesis by (simp add: checksum_escape word_of_nat_eq_0_iff del: of_nat_mult)
qed

lemma escaped_packets_rejected:
  assumes src: "list_all isprint src" and n: "0 < escapes src" "escapes src < 256"
  shows "RSP_Decode (frame (rsp_escape src) (hex2 (rsp_checksum (rsp_escape src)))) =
    Inl (if set src \<inter> {CHR ''#'', CHR ''$'', CHR ''*''} = {} then ChecksumMismatch else Unprintable)"
proof (cases "set src \<inter> {CHR ''#'', CHR ''$'', CHR ''*''} = {}")
  case True
  then show ?thesis
    using Decode_data_frame [of "[]" "[]" "rsp_escape src"] escape_checksum_differs [OF n] src
    by (simp add: ack_opt_def decode_escape isprint_escape)
next
  case False
  then have "\<not> list_all isprint (frame (rsp_escape src) (hex2 (rsp_checksum (rsp_escape src))))"
    using src by (simp add: frame_def isprint_escape)
  moreover obtain x y where "hex2 (rsp_checksum (rsp_escape src)) = [x, y]" "y \<noteq> CHR ''+''"
    by (simp add: hex2_def)
  ultimately show ?thesis
    using Decode_frame [of y "[]" "[]" "rsp_escape src" x] False by (simp add: ack_opt_def)
qed

text \<open>
  For the same reason a character that is corrupted into an escape can go unnoticed: the packet with
  data \<open>space A\<close>, received with a closing brace for the space, decodes to \<open>a\<close>.
\<close>

lemma escape_corruption_accepted:
  "RSP_Encode '' A'' = ''$ A#61'' \<and> RSP_Decode (''$ A#61''[1 := CHR 0x7D]) = Inr ''a''"
  by code_simp

section \<open>The interface of a target\<close>

text \<open>
  What the protocol needs of the object behind it: handlers that keep an invariant of the object,
  also when they throw, for the requests of a kind that is allowed. Every packet that is no request
  of another kind then keeps it.
\<close>

definition allowed_packet :: "(GDB_SERVER_ACTIONS \<Rightarrow> bool) \<Rightarrow> string \<Rightarrow> bool" where
  "allowed_packet allowed pdata \<longleftrightarrow> (case cmd_case pdata of Inr (Some cmd) \<Rightarrow> pdata = [] \<or> allowed cmd | _ \<Rightarrow> True)"

text \<open>The packets that ask for the end: \<open>k\<close>, and anything with \<open>vKill\<close> in it.\<close>

definition kill_request :: "string \<Rightarrow> bool" where
  "kill_request pdata \<longleftrightarrow> take 1 pdata = ''k'' \<or> contains ''vKill'' pdata"

lemma if_Some_eq: "((if b then Some x else y) = Some z) = (b \<and> x = z \<or> \<not> b \<and> y = Some z)"
  by simp

lemma cmd_case_rest_kill: "cmd_case_rest pdata = Some KILL_TARGET \<Longrightarrow> hd pdata = CHR ''k'' \<or> contains ''vKill'' pdata"
  unfolding cmd_case_rest_def Let_def if_Some_eq GDB_SERVER_ACTIONS.simps by blast

lemma only_kill_requests:
  assumes "\<not> kill_request pdata"
  shows "allowed_packet (\<lambda>cmd. cmd \<noteq> KILL_TARGET) pdata"
proof -
  have "cmd_case pdata \<noteq> Inr (Some KILL_TARGET)" if "pdata \<noteq> []"
  proof
    assume "cmd_case pdata = Inr (Some KILL_TARGET)"
    then have "cmd_case_rest pdata = Some KILL_TARGET"
      by (auto simp: cmd_case_def split: if_splits sum.splits bool.splits)
    then show False using cmd_case_rest_kill [of pdata] assms that by (cases pdata) (auto simp: kill_request_def)
  qed
  then show ?thesis by (auto simp: allowed_packet_def split: sum.split option.split)
qed

locale rsp_target =
  fixes h :: "GDB_SERVER_ACTIONS \<Rightarrow> string \<Rightarrow> ('s, sim_throw, string) smx"
    and inv :: "'s \<Rightarrow> bool"
    and allowed :: "GDB_SERVER_ACTIONS \<Rightarrow> bool"
  assumes handler_keeps: "allowed cmd \<Longrightarrow> keepsS inv (h cmd pdata)"
begin

lemma dispatch_keeps: "allowed_packet allowed pdata \<Longrightarrow> keepsS inv (RSP_Dispatch h pdata)"
  unfolding RSP_Dispatch_def allowed_packet_def
  by (auto split: sum.split option.split intro!: keeps_intros handler_keeps)

lemma dispatch_keeps_inv: "allowed_packet allowed pdata \<Longrightarrow> inv s \<Longrightarrow> RSP_Dispatch h pdata s = (r, s') \<Longrightarrow> inv s'"
  by (rule keepsS_D [OF dispatch_keeps])

end
end
