(* ===== verification/Debug_Server.thy ===== *)
theory Debug_Server
  imports RSP Memory_Sys Core_State
begin

text \<open>
  The gdb server: \<open>src/debug_server.C\<close>, \<open>include/debug_server.h\<close> and the RISC-V part
  \<open>include/riscv_debug_server.h\<close>. The server holds the core state and the platform it was called
  with, as the pointers of the code do. The socket is what the client does: the results of the reads
  to come (\<open>None\<close> a read error, the end of the list a closed connection, which reads as an empty
  message), whether the writes to come succeed, and what was written; \<open>Tcp_Server\<close> has the class. The
  constructor opens the socket, so the branches for a server without one are left out, as are console
  messages.
\<close>

unbundle bit_operations_syntax

section \<open>State\<close>

record breakpoint_range =
  address_lo :: u64
  address_hi :: u64

record DebugServer =
  core :: u32
  incoming :: "string option list"
  write_ok :: "bool list"
  outgoing :: "string list"
  at_start :: bool
  listening :: bool
  defer_response :: bool
  do_shutdown :: bool
  do_step :: bool
  instr_breakpoints :: "breakpoint_range list"
  data_breakpoints :: "breakpoint_range list"
  cpu :: RiscvState
  ds_memory :: platform
  ds_pc :: u64

type_synonym 'a ds = "(DebugServer, sim_throw, 'a) smx"

text \<open>The pointers are not set by the constructor; they are first used after \<open>RunPreStepChecks\<close> set them.\<close>

definition DebugServer_new ::
    "u32 \<Rightarrow> string option list \<Rightarrow> bool list \<Rightarrow> RiscvState \<Rightarrow> platform \<Rightarrow> u64 \<Rightarrow> DebugServer" where
  "DebugServer_new c reads writes s p a =
     \<lparr>core = c, incoming = reads, write_ok = writes, outgoing = [], at_start = True, listening = False,
      defer_response = False, do_shutdown = False, do_step = False, instr_breakpoints = [],
      data_breakpoints = [], cpu = s, ds_memory = p, ds_pc = a\<rparr>"

text \<open>\<open>TCPServer::Write\<close>: whether it succeeds.\<close>

definition socket_Write :: "string \<Rightarrow> DebugServer \<Rightarrow> bool \<times> DebugServer" where
  "socket_Write m d =
     (case write_ok d of
        [] \<Rightarrow> (True, d\<lparr>outgoing := outgoing d @ [m]\<rparr>)
      | True # bs \<Rightarrow> (True, d\<lparr>outgoing := outgoing d @ [m], write_ok := bs\<rparr>)
      | False # bs \<Rightarrow> (False, d\<lparr>write_ok := bs\<rparr>))"

definition send :: "string \<Rightarrow> DebugServer \<Rightarrow> DebugServer" where
  "send m d = (case socket_Write m d of (ok, d) \<Rightarrow> if ok then d else d\<lparr>listening := False\<rparr>)"

section \<open>Register values\<close>

definition le4 :: "u32 \<Rightarrow> string" where
  "le4 rv = concat (map (\<lambda>i. hex2 (ucast (drop_bit (8 * i) rv))) [0..<4])"

definition le8 :: "u64 \<Rightarrow> string" where
  "le8 rv = concat (map (\<lambda>i. hex2 (ucast (drop_bit (8 * i) rv))) [0..<8])"

text \<open>
  The scans start at fixed places, also behind the end of a short text, which is undefined (\<open>None\<close>).
  A failed scan does not end the loop. \<open>td\<close> has 32 bits, so that the shifts of \<open>decoded_le8\<close> by 32
  and more are undefined.
\<close>

definition decode_byte :: "string \<Rightarrow> nat \<Rightarrow> u32 option" where
  "decode_byte s i = map_option (\<lambda>(neg, n, _). if neg then - of_nat n else of_nat n) (scan_number True (Some 2) (drop (2 * i) s))"

definition decoded_le4 :: "string \<Rightarrow> (bool \<times> u32) option" where
  "decoded_le4 s =
     foldl (\<lambda>r i. case r of
                    None \<Rightarrow> None
                  | Some (success, rv) \<Rightarrow>
                      if length s < 2 * i then None
                      else case decode_byte s i of
                             None \<Rightarrow> Some (False, rv)
                           | Some td \<Rightarrow> Some (success, rv OR push_bit (8 * i) td)) (Some (True, 0)) [0..<4]"

definition decoded_le8 :: "string \<Rightarrow> (bool \<times> u64) option" where
  "decoded_le8 s =
     foldl (\<lambda>r i. case r of
                    None \<Rightarrow> None
                  | Some (success, rv) \<Rightarrow>
                      if length s < 2 * i then None
                      else case decode_byte s i of
                             None \<Rightarrow> Some (False, rv)
                           | Some td \<Rightarrow> if 4 \<le> i then None
                                       else Some (success, rv OR ucast (push_bit (8 * i) td))) (Some (True, 0)) [0..<8]"

definition EncodeRegisterValue :: "u64 \<Rightarrow> string" where
  "EncodeRegisterValue rval = le4 (ucast rval)"

definition DecodeRegisterValue :: "string \<Rightarrow> (bool \<times> u64) option" where
  "DecodeRegisterValue encoded_rv = map_option (\<lambda>(rcode, rval). (rcode, ucast rval)) (decoded_le4 encoded_rv)"

datatype REG_TYPES = GPREG | SPREG | QREG | PCREG | CPSRREG | FPSRREG | FPCRREG | BADREG

definition RegType :: "u32 \<Rightarrow> REG_TYPES" where
  "RegType rindex =
     (if rindex < 31 then GPREG
      else if rindex = 31 then SPREG
      else if rindex = 32 then PCREG
      else if rindex = 33 then CPSRREG
      else if rindex < 66 then QREG
      else if rindex = 66 then FPSRREG
      else if rindex = 67 then FPCRREG
      else BADREG)"

section \<open>Breakpoints\<close>

definition add_breakpoint :: "breakpoint_range list \<Rightarrow> u64 \<Rightarrow> u64 \<Rightarrow> breakpoint_range list" where
  "add_breakpoint bs lo hi = bs @ [\<lparr>address_lo = lo, address_hi = hi\<rparr>]"

fun breakpoint_match :: "breakpoint_range list \<Rightarrow> u64 \<Rightarrow> bool" where
  "breakpoint_match [] a = False"
| "breakpoint_match (b # bs) a = (address_lo b \<le> a \<and> a \<le> address_hi b \<or> breakpoint_match bs a)"

definition breakpoint_hit :: "u64 \<Rightarrow> DebugServer \<Rightarrow> bool" where
  "breakpoint_hit pc d \<longleftrightarrow> list_ex (\<lambda>i. breakpoint_match (instr_breakpoints d) (pc + of_nat i)) [0..<4]"

text \<open>The bytes of a memory access; nothing calls this yet.\<close>

definition watchpoint_hit :: "u64 \<Rightarrow> int \<Rightarrow> DebugServer \<Rightarrow> bool" where
  "watchpoint_hit mem_address access_size d \<longleftrightarrow>
     list_ex (\<lambda>i. breakpoint_match (data_breakpoints d) (mem_address + of_nat i)) [0..<unat (of_int access_size :: u64)]"

definition reset_breakpoints :: "DebugServer \<Rightarrow> DebugServer" where
  "reset_breakpoints d = d\<lparr>instr_breakpoints := [], data_breakpoints := []\<rparr>"

definition SetBreakpoints :: "string \<Rightarrow> string ds" where
  "SetBreakpoints pdata =
     (case scan_d_llx_d (drop 1 pdata) of
        Overflow \<Rightarrow> throwS UB
      | Failed \<Rightarrow> returnS ''E1''
      | Scanned (btype, maddr, msize) \<Rightarrow>
          thenS
            (modifyS (\<lambda>d.
               if btype = 0
               then d\<lparr>instr_breakpoints := add_breakpoint (instr_breakpoints d) maddr
                        (maddr + word_of_int (if msize > 4 then msize else 3))\<rparr>
               else if btype = 2
               then d\<lparr>data_breakpoints := add_breakpoint (data_breakpoints d) maddr (maddr + word_of_int msize)\<rparr>
               else d))
            (returnS ''OK''))"

definition ClearBreakpoints :: "string ds" where
  "ClearBreakpoints = thenS (modifyS reset_breakpoints) (returnS ''OK'')"

section \<open>Registers and memory\<close>

definition ReadGPRegisters :: "string ds" where
  "ReadGPRegisters =
     getS (\<lambda>d. concat (map (\<lambda>i. EncodeRegisterValue (GP (of_nat i) (cpu d))) [1..<31])
                @ EncodeRegisterValue (SP (cpu d)) @ EncodeRegisterValue (ds_pc d))"

definition ReadRegister :: "string \<Rightarrow> string ds" where
  "ReadRegister pdata =
     (case scan_x (drop 1 pdata) of
        Overflow \<Rightarrow> throwS UB
      | Failed \<Rightarrow> returnS ''E1''
      | Scanned rindex \<Rightarrow>
          getS (\<lambda>d. case RegType rindex of
                      GPREG \<Rightarrow> EncodeRegisterValue (GP rindex (cpu d))
                    | SPREG \<Rightarrow> EncodeRegisterValue (SP (cpu d))
                    | PCREG \<Rightarrow> EncodeRegisterValue (ds_pc d)
                    | _ \<Rightarrow> ''E2''))"

definition upd_cpu :: "(RiscvState \<Rightarrow> RiscvState) \<Rightarrow> DebugServer \<Rightarrow> DebugServer" where
  "upd_cpu f d = d\<lparr>cpu := f (cpu d)\<rparr>"

text \<open>A register value from the packet: stored, refused, or read beyond the end of the text.\<close>

definition store_register :: "string \<Rightarrow> (u64 \<Rightarrow> RiscvState \<Rightarrow> RiscvState) \<Rightarrow> string ds" where
  "store_register s setter =
     (case DecodeRegisterValue s of
        None \<Rightarrow> throwS UB
      | Some (True, rval) \<Rightarrow> thenS (modifyS (upd_cpu (setter rval))) (returnS ''OK'')
      | Some (False, rval) \<Rightarrow> returnS ''E2'')"

definition WriteRegister :: "string \<Rightarrow> string ds" where
  "WriteRegister pdata =
     (case scan_x (drop 1 pdata) of
        Overflow \<Rightarrow> throwS UB
      | Failed \<Rightarrow> returnS ''E1''
      | Scanned rindex \<Rightarrow>
          (case find_char (CHR ''='') pdata of
             None \<Rightarrow> returnS ''E 1''
           | Some pos \<Rightarrow>
               (case RegType rindex of
                  GPREG \<Rightarrow> store_register (drop (pos + 1) pdata) (SetGP rindex)
                | SPREG \<Rightarrow> store_register (drop (pos + 1) pdata) SetSP
                | PCREG \<Rightarrow> store_register (drop (pos + 1) pdata) RiscvState_SetPC
                | _ \<Rightarrow> returnS ''E2'')))"

text \<open>The result code passes through a \<open>bool\<close>; every exception is caught.\<close>

definition ReadMemory_packet :: "string \<Rightarrow> string ds" where
  "ReadMemory_packet pdata =
     (case scan_llx_d (drop 1 pdata) of
        Overflow \<Rightarrow> throwS UB
      | Failed \<Rightarrow> returnS ''E1''
      | Scanned (maddr, msize) \<Rightarrow>
          if msize < 0 then throwS UB
          else (\<lambda>d. case ReadPhysicalMemory maddr msize (replicate (nat msize) 0) False True (ds_memory d) of
                      (Inl UB, p) \<Rightarrow> (Inl UB, d\<lparr>ds_memory := p\<rparr>)
                    | (Inl e, p) \<Rightarrow> (Inr ''E0'', d\<lparr>ds_memory := p\<rparr>)
                    | (Inr (rcode, mbuf), p) \<Rightarrow>
                        (Inr (if (if rcode \<noteq> 0 then 1 else 0) \<noteq> ALL_BYTES_DEFINED then ''E0''
                              else concat (map hex2 (take (nat msize) mbuf))), d\<lparr>ds_memory := p\<rparr>)))"

text \<open>
  The bytes of a write: \<open>substr\<close> throws when its position is beyond the end, which happens after an odd
  number of digits.
\<close>

fun scan_mbytes :: "nat \<Rightarrow> nat \<Rightarrow> string \<Rightarrow> (sim_throw + buffer option)" where
  "scan_mbytes 0 pos pdata = Inr (Some [])"
| "scan_mbytes (Suc n) pos pdata =
     (if length pdata < pos + 1 then Inl OutOfRange
      else case scan_number True (Some 2) (drop (pos + 1) pdata) of
             None \<Rightarrow> Inr None
           | Some (neg, v, _) \<Rightarrow>
               map_sum id (map_option (Cons (if neg then - of_nat v else of_nat v))) (scan_mbytes n (pos + 2) pdata))"

definition WriteMemory_packet :: "string \<Rightarrow> string ds" where
  "WriteMemory_packet pdata =
     (case scan_llx_d (drop 1 pdata) of
        Overflow \<Rightarrow> throwS UB
      | Failed \<Rightarrow> returnS ''E1''
      | Scanned (maddr, msize) \<Rightarrow>
          (case find_char (CHR '':'') pdata of
             None \<Rightarrow> returnS ''E1''
           | Some pos \<Rightarrow>
               if msize < 0 then throwS UB
               else
                 case scan_mbytes (nat msize) pos pdata of
                   Inl e \<Rightarrow> throwS e
                 | Inr None \<Rightarrow> returnS ''E2''
                 | Inr (Some mbytes) \<Rightarrow>
                     (\<lambda>d. case WritePhysicalMemory maddr msize mbytes False False (ds_memory d) of
                            (Inl (SimExc e), p) \<Rightarrow> (Inr ''E2'', d\<lparr>ds_memory := p\<rparr>)
                          | (Inl e, p) \<Rightarrow> (Inl e, d\<lparr>ds_memory := p\<rparr>)
                          | (Inr rcode, p) \<Rightarrow> (Inr ''OK'', d\<lparr>ds_memory := p\<rparr>))))"

section \<open>Run control\<close>

definition Continue :: "string ds" where
  "Continue = thenS (modifyS (\<lambda>d. d\<lparr>listening := False, defer_response := True\<rparr>)) (returnS [])"

definition DebugServer_Step :: "string ds" where
  "DebugServer_Step = thenS (modifyS (\<lambda>d. d\<lparr>defer_response := True, do_step := True\<rparr>)) (returnS [])"

definition KillTarget :: "string ds" where
  "KillTarget = thenS (modifyS (\<lambda>d. d\<lparr>do_shutdown := True\<rparr>)) (returnS ''X00'')"

text \<open>The virtual methods: the overridden ones, and the base class for the rest.\<close>

definition DebugServer_handler :: "GDB_SERVER_ACTIONS \<Rightarrow> string \<Rightarrow> string ds" where
  "DebugServer_handler cmd pdata =
     (case cmd of
        READ_GP_REGISTERS \<Rightarrow> ReadGPRegisters
      | READ_REGISTER \<Rightarrow> ReadRegister pdata
      | WRITE_REGISTER \<Rightarrow> WriteRegister pdata
      | CONTINUE \<Rightarrow> Continue
      | STEP \<Rightarrow> DebugServer_Step
      | KILL_TARGET \<Rightarrow> KillTarget
      | READ_MEMORY \<Rightarrow> ReadMemory_packet pdata
      | WRITE_MEMORY \<Rightarrow> WriteMemory_packet pdata
      | SET_BREAKPOINT \<Rightarrow> SetBreakpoints pdata
      | CLEAR_BREAKPOINT \<Rightarrow> ClearBreakpoints
      | _ \<Rightarrow> (\<lambda>d. (RSP_handler cmd pdata, d)))"

text \<open>The message about a stop; the frame pointer has index 1d and the stack pointer 1f.\<close>

definition stop_reply :: "u64 \<Rightarrow> DebugServer \<Rightarrow> string" where
  "stop_reply pc d =
     ''T02'' @ ''1d:'' @ EncodeRegisterValue (FP (cpu d)) @ '';'' @ ''1f:'' @ EncodeRegisterValue (SP (cpu d)) @ '';''
       @ ''20:'' @ EncodeRegisterValue pc @ '';''"

definition AcknowledgeBreakpoint :: "u64 \<Rightarrow> DebugServer \<Rightarrow> DebugServer" where
  "AcknowledgeBreakpoint pc d = send (RSP_Encode (stop_reply pc d)) d"

definition AcknowledgeWatchpoint :: "u64 \<Rightarrow> DebugServer \<Rightarrow> DebugServer" where
  "AcknowledgeWatchpoint data_address d = send (RSP_Encode (stop_reply (ds_pc d) d)) d"

text \<open>The destructor tells the client that the simulation has ended, unless the client asked for it.\<close>

definition DebugServer_Fini :: "DebugServer \<Rightarrow> DebugServer" where
  "DebugServer_Fini d = (if do_shutdown d then d else send (RSP_Encode ''X00'') d)"

text \<open>One turn of the loop of \<open>Poll\<close>, with the message read.\<close>

definition poll_message :: "string \<Rightarrow> unit ds" where
  "poll_message m d =
     (case RSP_Decode m of
        Inl e \<Rightarrow> (Inr (), d\<lparr>listening := False\<rparr>)
      | Inr client_request \<Rightarrow>
          let acknowledge = RSP_Acknowledge client_request;
              (ok, d) = (if length acknowledge > 0 then socket_Write acknowledge d else (True, d))
          in if \<not> ok then (Inr (), d\<lparr>listening := False\<rparr>)
             else
               case RSP_Dispatch DebugServer_handler client_request d of
                 (Inl RuntimeError, d) \<Rightarrow> (Inr (), d\<lparr>listening := False\<rparr>)
               | (Inl e, d) \<Rightarrow> (Inl e, d)
               | (Inr server_response, d) \<Rightarrow>
                   if server_response = [] then (Inr (), d)
                   else if defer_response d then (Inr (), d\<lparr>defer_response := False, listening := False\<rparr>)
                   else (Inr (), send server_response d))"

fun poll_loop :: "string option list \<Rightarrow> unit ds" where
  "poll_loop [] d = (Inr (), d\<lparr>listening := False, incoming := []\<rparr>)"
| "poll_loop (None # ms) d = (Inr (), d\<lparr>listening := False, incoming := ms\<rparr>)"
| "poll_loop (Some m # ms) d =
     (case poll_message m (d\<lparr>incoming := ms\<rparr>) of
        (Inl e, d) \<Rightarrow> (Inl e, d)
      | (Inr _, d) \<Rightarrow> if listening d then poll_loop ms d else (Inr (), d))"

definition Poll :: "bool ds" where
  "Poll d =
     (case poll_loop (incoming d) (d\<lparr>listening := True\<rparr>) of
        (Inl e, d) \<Rightarrow> (Inl e, d)
      | (Inr _, d) \<Rightarrow> (Inr (\<not> do_shutdown d), d))"

text \<open>The core is compared with itself.\<close>

definition core_match :: "u32 \<Rightarrow> DebugServer \<Rightarrow> bool" where
  "core_match c d \<longleftrightarrow> core d = c"

definition PreStepChecks :: "bool ds" where
  "PreStepChecks d =
     (if at_start d then Poll (d\<lparr>at_start := False\<rparr>)
      else if \<not> core_match (core d) d then (Inr True, d)
      else if do_step d then Poll (d\<lparr>do_step := False\<rparr>)
      else if breakpoint_hit (ds_pc d) d then Poll (AcknowledgeBreakpoint (ds_pc d) d)
      else (Inr True, d))"

definition PostStepChecks :: "bool ds" where
  "PostStepChecks d =
     (if at_start d then (Inr True, d\<lparr>at_start := False\<rparr>)
      else if \<not> core_match (core d) d then (Inr True, d)
      else if do_step d then (Inr True, AcknowledgeBreakpoint (ds_pc d) d)
      else (Inr True, d))"

definition attach :: "RiscvState \<Rightarrow> platform \<Rightarrow> u64 \<Rightarrow> DebugServer \<Rightarrow> DebugServer" where
  "attach s p pc d = d\<lparr>cpu := s, ds_memory := p, ds_pc := pc\<rparr>"

definition RunPreStepChecks :: "RiscvState \<Rightarrow> platform \<Rightarrow> u64 \<Rightarrow> bool ds" where
  "RunPreStepChecks s p pc d = PreStepChecks (attach s p pc d)"

definition RunPostStepChecks :: "RiscvState \<Rightarrow> platform \<Rightarrow> u64 \<Rightarrow> bool ds" where
  "RunPostStepChecks s p pc d = PostStepChecks (attach s p pc d)"

end
