(* ===== verification/Debug_Session.thy ===== *)
theory Debug_Session
  imports Debug_Server
begin

text \<open>
  What a gdb client can do with the server of \<open>Debug_Server\<close>: requests as text, register and memory
  access, breakpoints, single stepping, and the invariant of every session, which comes from the
  interface \<open>rsp_target\<close> of the protocol.
\<close>

unbundle bit_operations_syntax

section \<open>Register values in packets\<close>

lemma upto_4: "[0..<4] = [0, 1, 2, 3 :: nat]" by (simp add: upt_rec)

lemma le4_bytes: "le4 v = hex2 (ucast v) @ hex2 (ucast (drop_bit 8 v)) @ hex2 (ucast (drop_bit 16 v)) @ hex2 (ucast (drop_bit 24 v))"
  by (simp add: le4_def upto_4)

lemma length_le4 [simp]: "length (le4 v) = 8"
  by (simp add: le4_bytes)

lemma decode_byte_hex2: "length s = 2 * i \<Longrightarrow> decode_byte (s @ hex2 b @ r) i = Some (ucast b)"
  by (simp add: decode_byte_def scan_hex2)

lemma join_bytes:
  "ucast (ucast v :: u8) OR push_bit 8 (ucast (ucast (drop_bit 8 v) :: u8)) OR push_bit 16 (ucast (ucast (drop_bit 16 v) :: u8))
     OR push_bit 24 (ucast (ucast (drop_bit 24 v) :: u8)) = v" for v :: u32
proof (rule bit_word_eqI)
  fix n assume "n < LENGTH(32)"
  then have "n < 8 \<or> (8 \<le> n \<and> n < 16) \<or> (16 \<le> n \<and> n < 24) \<or> (24 \<le> n \<and> n < 32)" by auto
  then show "bit (ucast (ucast v :: u8) OR push_bit 8 (ucast (ucast (drop_bit 8 v) :: u8))
      OR push_bit 16 (ucast (ucast (drop_bit 16 v) :: u8)) OR push_bit 24 (ucast (ucast (drop_bit 24 v) :: u8)) :: u32) n = bit v n"
    by (elim disjE) (auto simp: bit_simps)
qed

lemma decoded_le4_le4: "decoded_le4 (le4 v @ r) = Some (True, v)"
proof -
  let ?b = "\<lambda>k. ucast (drop_bit k v) :: u8"
  have d: "decode_byte (le4 v @ r) 0 = Some (ucast (?b 0))" "decode_byte (le4 v @ r) (Suc 0) = Some (ucast (?b 8))"
    "decode_byte (le4 v @ r) 2 = Some (ucast (?b 16))" "decode_byte (le4 v @ r) 3 = Some (ucast (?b 24))"
    using decode_byte_hex2 [of "[]" 0 "?b 0" "hex2 (?b 8) @ hex2 (?b 16) @ hex2 (?b 24) @ r"]
      decode_byte_hex2 [of "hex2 (?b 0)" 1 "?b 8" "hex2 (?b 16) @ hex2 (?b 24) @ r"]
      decode_byte_hex2 [of "hex2 (?b 0) @ hex2 (?b 8)" 2 "?b 16" "hex2 (?b 24) @ r"]
      decode_byte_hex2 [of "hex2 (?b 0) @ hex2 (?b 8) @ hex2 (?b 16)" 3 "?b 24" r]
    by (simp_all add: le4_bytes)
  show ?thesis
    using join_bytes [of v] by (simp add: decoded_le4_def upto_4 d or.assoc)
qed

lemma DecodeRegisterValue_le4: "DecodeRegisterValue (le4 v @ r) = Some (True, ucast v)"
  by (simp add: DecodeRegisterValue_def decoded_le4_le4)

lemma decoded_le8_undefined: "decoded_le8 (le8 v) = None"
proof -
  let ?b = "\<lambda>k. ucast (drop_bit k v) :: u8"
  have u: "[0..<8] = [0, 1, 2, 3] @ [4, 5, 6, 7 :: nat]" by (simp add: upt_rec)
  have "le8 v = (hex2 (?b 0) @ hex2 (?b 8) @ hex2 (?b 16) @ hex2 (?b 24)) @ hex2 (?b 32) @ hex2 (?b 40) @ hex2 (?b 48) @ hex2 (?b 56)"
    by (simp add: le8_def upt_rec)
  then have "decode_byte (le8 v) 4 \<noteq> None" "length (le8 v) = 16"
    using decode_byte_hex2 [of "hex2 (?b 0) @ hex2 (?b 8) @ hex2 (?b 16) @ hex2 (?b 24)" 4 "?b 32"] by simp_all
  then obtain b where "decode_byte (le8 v) 4 = Some b" "length (le8 v) = 16" by blast
  then show ?thesis by (simp add: decoded_le8_def u split: option.split)
qed

section \<open>Requests of a client\<close>

definition register_of :: "nat \<Rightarrow> nat" where
  "register_of k = (if k = 31 then 2 else k)"

lemma RegType_of_nat:
  assumes "k < 2 ^ 32"
  shows "RegType (of_nat k) = (if k < 31 then GPREG else if k = 31 then SPREG else if k = 32 then PCREG
    else if k = 33 then CPSRREG else if k < 66 then QREG else if k = 66 then FPSRREG else if k = 67 then FPCRREG else BADREG)"
proof -
  have "of_nat k < (31 :: u32) \<longleftrightarrow> k < 31" "of_nat k < (66 :: u32) \<longleftrightarrow> k < 66"
    "(of_nat k :: u32) = 31 \<longleftrightarrow> k = 31" "(of_nat k :: u32) = 32 \<longleftrightarrow> k = 32" "(of_nat k :: u32) = 33 \<longleftrightarrow> k = 33"
    "(of_nat k :: u32) = 66 \<longleftrightarrow> k = 66" "(of_nat k :: u32) = 67 \<longleftrightarrow> k = 67"
    using assms by (simp_all add: word_less_nat_alt unat_of_nat word_unat_eq_iff)
  then show ?thesis by (simp add: RegType_def)
qed

definition read_register_packet :: "nat list \<Rightarrow> string" where
  "read_register_packet ds = ''p'' @ digit_text ds"

definition write_register_packet :: "nat list \<Rightarrow> u32 \<Rightarrow> string" where
  "write_register_packet ds v = ''P'' @ digit_text ds @ ''='' @ le4 v"

lemma find_after_digits:
  "list_all (\<lambda>d. d < 16) ds \<Longrightarrow> find_char (CHR ''='') (CHR ''P'' # digit_text ds @ CHR ''='' # r) = Some (Suc (length ds))"
  using find_char_append [of "CHR ''=''" "CHR ''P'' # digit_text ds" r] digit_text_not [of ds "CHR ''=''"]
  by (simp add: isdigit_def hex_digit_def)

lemma WriteRegister_packet:
  assumes "text_of True ds k" "k < 2 ^ 32"
  shows "WriteRegister (write_register_packet ds v) =
    (case RegType (of_nat k) of
       GPREG \<Rightarrow> thenS (modifyS (upd_cpu (SetGP (of_nat k) (ucast v)))) (returnS ''OK'')
     | SPREG \<Rightarrow> thenS (modifyS (upd_cpu (SetSP (ucast v)))) (returnS ''OK'')
     | PCREG \<Rightarrow> thenS (modifyS (upd_cpu (RiscvState_SetPC (ucast v)))) (returnS ''OK'')
     | _ \<Rightarrow> returnS ''E2'')"
  using scan_x_digits [OF assms, of "CHR ''='' # le4 v"] find_after_digits [OF text_of_hex [OF assms(1)], of "le4 v"]
    DecodeRegisterValue_le4 [of v "[]"]
  by (simp add: WriteRegister_def write_register_packet_def store_register_def split: REG_TYPES.split)

lemma ReadRegister_packet:
  assumes "text_of True ds k" "k < 2 ^ 32"
  shows "ReadRegister (read_register_packet ds) =
    getS (\<lambda>d. case RegType (of_nat k) of
                GPREG \<Rightarrow> EncodeRegisterValue (GP (of_nat k) (cpu d))
              | SPREG \<Rightarrow> EncodeRegisterValue (SP (cpu d))
              | PCREG \<Rightarrow> EncodeRegisterValue (ds_pc d)
              | _ \<Rightarrow> ''E2'')"
  using scan_x_digits [OF assms, of "[]"] by (simp add: ReadRegister_def read_register_packet_def)

section \<open>Memory requests\<close>

definition read_memory_packet :: "nat list \<Rightarrow> nat list \<Rightarrow> string" where
  "read_memory_packet ds es = ''m'' @ digit_text ds @ '','' @ digit_text es"

definition write_memory_packet :: "nat list \<Rightarrow> nat list \<Rightarrow> buffer \<Rightarrow> string" where
  "write_memory_packet ds es bs = ''M'' @ digit_text ds @ '','' @ digit_text es @ '':'' @ concat (map hex2 bs)"

lemma scan_mbytes_hex2:
  "length pre = pos + 1 \<Longrightarrow> scan_mbytes (length bs) pos (pre @ concat (map hex2 bs) @ r) = Inr (Some bs)"
proof (induction bs arbitrary: pre pos)
  case (Cons b bs)
  have "of_nat (unat b) = b" by simp
  moreover have "scan_mbytes (length bs) (pos + 2) ((pre @ hex2 b) @ concat (map hex2 bs) @ r) = Inr (Some bs)"
    using Cons.prems by (intro Cons.IH) simp
  ultimately show ?case
    using Cons.prems scan_hex2 [of b "concat (map hex2 bs) @ r"] by simp
qed simp

lemma find_colon:
  assumes "list_all (\<lambda>d. d < 16) ds" "list_all (\<lambda>d. d < 16) es"
  shows "find_char (CHR '':'') (CHR ''M'' # digit_text ds @ CHR '','' # digit_text es @ CHR '':'' # r)
    = Some (length ds + length es + 2)"
proof -
  have "CHR '':'' \<notin> set (digit_text ds)" "CHR '':'' \<notin> set (digit_text es)"
    using assms digit_text_not [of _ "CHR '':''"] by (simp_all add: isdigit_def hex_digit_def)
  then show ?thesis
    using find_char_append [of "CHR '':''" "CHR ''M'' # digit_text ds @ CHR '','' # digit_text es" r] by simp
qed

lemma WriteMemory_packet_eq:
  assumes ds: "text_of True ds a" "a < 2 ^ 64" and es: "text_of False es (length bs)" "length bs < 2 ^ 31"
  shows "WriteMemory_packet (write_memory_packet ds es bs) d =
    (case WritePhysicalMemory (of_nat a) (int (length bs)) bs False False (ds_memory d) of
       (Inl (SimExc e), p) \<Rightarrow> (Inr ''E2'', d\<lparr>ds_memory := p\<rparr>)
     | (Inl e, p) \<Rightarrow> (Inl e, d\<lparr>ds_memory := p\<rparr>)
     | (Inr rcode, p) \<Rightarrow> (Inr ''OK'', d\<lparr>ds_memory := p\<rparr>))"
proof -
  have "scan_llx_d (digit_text ds @ CHR '','' # digit_text es @ CHR '':'' # concat (map hex2 bs)) = Scanned (of_nat a, int (length bs))"
    by (rule scan_llx_d_digits [OF ds es]) simp
  moreover have "scan_mbytes (length bs) (length ds + length es + 2) (write_memory_packet ds es bs) = Inr (Some bs)"
    using scan_mbytes_hex2 [of "''M'' @ digit_text ds @ '','' @ digit_text es @ '':''" "length ds + length es + 2" bs "[]"]
    by (simp add: write_memory_packet_def)
  ultimately show ?thesis
    using find_colon [OF text_of_hex [OF ds(1)] text_of_hex [OF es(1)], of "concat (map hex2 bs)"]
    by (simp add: WriteMemory_packet_def write_memory_packet_def)
qed

lemma ReadMemory_packet_eq:
  assumes ds: "text_of True ds a" "a < 2 ^ 64" and es: "text_of False es n" "n < 2 ^ 31"
  shows "ReadMemory_packet (read_memory_packet ds es) d =
    (case ReadPhysicalMemory (of_nat a) (int n) (replicate n 0) False True (ds_memory d) of
       (Inl UB, p) \<Rightarrow> (Inl UB, d\<lparr>ds_memory := p\<rparr>)
     | (Inl e, p) \<Rightarrow> (Inr ''E0'', d\<lparr>ds_memory := p\<rparr>)
     | (Inr (rcode, mbuf), p) \<Rightarrow>
         (Inr (if rcode \<noteq> 0 then ''E0'' else concat (map hex2 (take n mbuf))), d\<lparr>ds_memory := p\<rparr>))"
  using scan_llx_d_digits [OF ds es, of "[]"]
  by (simp add: ReadMemory_packet_def read_memory_packet_def ALL_BYTES_DEFINED_def
      split: prod.split sum.split sim_throw.split)

section \<open>From packets to handlers\<close>

text \<open>A request without the letters of the long names is chosen by its first letter.\<close>

lemma contains_letter: "contains pat s \<Longrightarrow> set pat \<subseteq> set s"
  by (auto simp: contains_iff sublist_def)

lemma not_contains: "CHR ''q'' \<notin> set s \<Longrightarrow> \<not> contains (CHR ''q'' # pat) s" "CHR ''v'' \<notin> set s \<Longrightarrow> \<not> contains (CHR ''v'' # pat) s"
  using contains_letter by fastforce+

lemma cmd_case_letter:
  assumes "CHR ''q'' \<notin> set s" "CHR ''v'' \<notin> set s" "s \<noteq> []"
  shows "cmd_case (CHR ''p'' # s) = Inr (Some READ_REGISTER)" "cmd_case (CHR ''P'' # s) = Inr (Some WRITE_REGISTER)"
    "cmd_case (CHR ''m'' # s) = Inr (Some READ_MEMORY)" "cmd_case (CHR ''M'' # s) = Inr (Some WRITE_MEMORY)"
    "cmd_case (CHR ''Z'' # s) = Inr (Some SET_BREAKPOINT)"
  using assms by (simp_all add: cmd_case_def cmd_case_rest_def not_contains del: contains.simps)

lemma cmd_case_one:
  "cmd_case ''c'' = Inr (Some CONTINUE)" "cmd_case ''s'' = Inr (Some STEP)" "cmd_case ''k'' = Inr (Some KILL_TARGET)"
  by (simp_all add: cmd_case_def cmd_case_rest_def not_contains del: contains.simps)

text \<open>
  A request that arrives unharmed over a connection that works: the server acknowledges it, runs the
  handler, and sends the framed response unless the handler defers it.
\<close>

lemma poll_request:
  assumes req: "list_all plain_char req" "req \<noteq> []" "cmd_case req = Inr (Some cmd)"
    and ok: "write_ok d = []"
    and run: "DebugServer_handler cmd req (d\<lparr>outgoing := outgoing d @ [''+'']\<rparr>) = (Inr response, d1)"
  shows "poll_message (RSP_Encode req) d =
    (Inr (), if defer_response d1 then d1\<lparr>defer_response := False, listening := False\<rparr> else send (RSP_Encode response) d1)"
proof -
  have "RSP_Decode (RSP_Encode req) = Inr req"
    using Decode_data_frame [of "[]" "[]" req] req(1)
    by (simp add: Encode_frame ack_opt_def decode_data_plain plain_isprint)
  moreover have "RSP_Encode response \<noteq> []" by (simp add: RSP_Encode_def)
  ultimately show ?thesis
    using assms by (simp add: poll_message_def RSP_Acknowledge_def socket_Write_def RSP_Dispatch_def)
qed

lemma send_ok: "write_ok d = [] \<Longrightarrow> send m d = d\<lparr>outgoing := outgoing d @ [m]\<rparr>"
  by (simp add: send_def socket_Write_def)

lemma hex2_plain [simp]: "list_all plain_char (hex2 b)"
  by (simp add: hex2_def plain_char_def)

lemma hex_char_letters [simp]: "d < 16 \<Longrightarrow> CHR ''q'' \<noteq> hex_char d" "d < 16 \<Longrightarrow> CHR ''v'' \<noteq> hex_char d"
  using hex_cases [of d] by (auto simp: hex_char_def)

lemma digit_text_plain:
  assumes "list_all (\<lambda>d. d < 16) ds"
  shows "list_all plain_char (digit_text ds)" "CHR ''q'' \<notin> set (digit_text ds)" "CHR ''v'' \<notin> set (digit_text ds)"
  using assms by (auto simp: digit_text_def list_all_iff plain_char_def)

lemma hex_bytes_plain:
  "list_all plain_char (concat (map hex2 bs))" "CHR ''q'' \<notin> set (concat (map hex2 bs))" "CHR ''v'' \<notin> set (concat (map hex2 bs))"
  by (induction bs) (auto simp: hex2_def plain_char_def)

lemma plain_punctuation [simp]:
  "plain_char (CHR '','')" "plain_char (CHR '':'')" "plain_char (CHR ''='')" "plain_char (CHR ''m'')" "plain_char (CHR ''M'')"
  "plain_char (CHR ''c'')" "plain_char (CHR ''s'')" "plain_char (CHR ''k'')" "plain_char (CHR ''p'')" "plain_char (CHR ''P'')"
  by (simp_all add: plain_char_def isprint_def)

lemma memory_packets_plain:
  assumes "list_all (\<lambda>d. d < 16) ds" "list_all (\<lambda>d. d < 16) es"
  shows "list_all plain_char (write_memory_packet ds es bs)" "cmd_case (write_memory_packet ds es bs) = Inr (Some WRITE_MEMORY)"
    "list_all plain_char (read_memory_packet ds es)" "cmd_case (read_memory_packet ds es) = Inr (Some READ_MEMORY)"
  using digit_text_plain [OF assms(1)] digit_text_plain [OF assms(2)] hex_bytes_plain [of bs]
  by (simp_all add: write_memory_packet_def read_memory_packet_def cmd_case_letter del: set_concat set_map)

lemma poll_write_memory:
  assumes "wf_mem (ds_memory d)" "ram_span (ds_memory d) (of_nat a) (length bs)" "length bs \<le> 32"
    and tx: "text_of True ds a" "a < 2 ^ 64" "text_of False es (length bs)"
    and d: "write_ok d = []" "\<not> defer_response d"
  obtains p where "poll_message (RSP_Encode (write_memory_packet ds es bs)) d =
      (Inr (), d\<lparr>ds_memory := p, outgoing := outgoing d @ [''+'', RSP_Encode ''OK'']\<rparr>)"
    "same_setup (ds_memory d) p" "wf_mem p" "mem_byte p = upd_span (mem_byte (ds_memory d)) (of_nat a) bs"
proof -
  obtain p where p: "WritePhysicalMemory (of_nat a) (int (length bs)) bs False False (ds_memory d) = (Inr 0, p)"
    "same_setup (ds_memory d) p" "wf_mem p" "mem_byte p = upd_span (mem_byte (ds_memory d)) (of_nat a) bs"
    by (rule WritePhysicalMemory_ram [OF assms(1-3), of False])
  note plain = memory_packets_plain [OF text_of_hex [OF tx(1)] text_of_hex [OF tx(3)]]
  have "DebugServer_handler WRITE_MEMORY (write_memory_packet ds es bs) (d\<lparr>outgoing := outgoing d @ [''+'']\<rparr>) =
      (Inr ''OK'', d\<lparr>outgoing := outgoing d @ [''+''], ds_memory := p\<rparr>)"
    using assms(3) p(1) by (simp add: DebugServer_handler_def WriteMemory_packet_eq [OF tx(1,2,3)])
  from poll_request [OF plain(1) _ plain(2) d(1) this]
  have "poll_message (RSP_Encode (write_memory_packet ds es bs)) d =
      (Inr (), d\<lparr>ds_memory := p, outgoing := outgoing d @ [''+'', RSP_Encode ''OK'']\<rparr>)"
    using d by (simp add: send_ok write_memory_packet_def)
  then show thesis using p(2-4) by (rule that)
qed

lemma poll_read_memory:
  assumes "wf_mem (ds_memory d)" "ram_span (ds_memory d) (of_nat a) (length bs)" "length bs \<le> 32"
    "span_of (mem_byte (ds_memory d)) (of_nat a) (length bs) = map Some bs"
    and tx: "text_of True ds a" "a < 2 ^ 64" "text_of False es (length bs)"
    and d: "write_ok d = []" "\<not> defer_response d"
  obtains p where "poll_message (RSP_Encode (read_memory_packet ds es)) d =
      (Inr (), d\<lparr>ds_memory := p, outgoing := outgoing d @ [''+'', RSP_Encode (concat (map hex2 bs))]\<rparr>)"
    "same_setup (ds_memory d) p" "wf_mem p" "mem_byte p = mem_byte (ds_memory d)"
proof -
  obtain p where p: "ReadPhysicalMemory (of_nat a) (int (length bs)) (replicate (length bs) 0) False True (ds_memory d) = (Inr (0, bs), p)"
    "same_setup (ds_memory d) p" "wf_mem p" "mem_byte p = mem_byte (ds_memory d)"
    by (rule ReadPhysicalMemory_ram [where buf = "replicate (length bs) 0" and ft = False and ini = True, OF assms(1-4) length_replicate])
  note plain = memory_packets_plain [OF text_of_hex [OF tx(1)] text_of_hex [OF tx(3)]]
  have "DebugServer_handler READ_MEMORY (read_memory_packet ds es) (d\<lparr>outgoing := outgoing d @ [''+'']\<rparr>) =
      (Inr (concat (map hex2 bs)), d\<lparr>outgoing := outgoing d @ [''+''], ds_memory := p\<rparr>)"
    using assms(3) p(1) by (simp add: DebugServer_handler_def ReadMemory_packet_eq [OF tx(1,2,3)])
  from poll_request [OF plain(3) _ plain(4) d(1) this]
  have "poll_message (RSP_Encode (read_memory_packet ds es)) d =
      (Inr (), d\<lparr>ds_memory := p, outgoing := outgoing d @ [''+'', RSP_Encode (concat (map hex2 bs))]\<rparr>)"
    using d by (simp add: send_ok read_memory_packet_def)
  then show thesis using p(2-4) by (rule that)
qed

lemma poll_continue:
  "write_ok d = [] \<Longrightarrow> poll_message (RSP_Encode ''c'') d =
     (Inr (), d\<lparr>outgoing := outgoing d @ [''+''], defer_response := False, listening := False\<rparr>)"
  using poll_request [of "''c''" CONTINUE d] cmd_case_one(1)
  by (simp add: DebugServer_handler_def Continue_def)

lemma poll_step:
  "write_ok d = [] \<Longrightarrow> poll_message (RSP_Encode ''s'') d =
     (Inr (), d\<lparr>outgoing := outgoing d @ [''+''], do_step := True, defer_response := False, listening := False\<rparr>)"
  using poll_request [of "''s''" STEP d] cmd_case_one(2)
  by (simp add: DebugServer_handler_def DebugServer_Step_def)

text \<open>
  C32. A debug session: over a connection without failures the client writes up to 32 bytes to ordinary
  memory, reads them back and lets the program continue, with the address in hexadecimal and the size
  in decimal digits, as the server scans them. Each request is acknowledged, the write is answered by OK and the read by the
  bytes written, exactly the addressed bytes of memory change, the core state does not, and the server
  stops listening with the rest of the input left for later.
\<close>

theorem debug_memory_session:
  assumes mem: "wf_mem (ds_memory d)" "ram_span (ds_memory d) (of_nat a) (length bs)" "length bs \<le> 32"
    and tx: "text_of True ds a" "a < 2 ^ 64" "text_of False es (length bs)"
    and d: "write_ok d = []" "\<not> do_shutdown d" "\<not> defer_response d"
    and script: "incoming d =
      [Some (RSP_Encode (write_memory_packet ds es bs)), Some (RSP_Encode (read_memory_packet ds es)), Some (RSP_Encode ''c'')] @ rest"
  shows "\<exists>d'. Poll d = (Inr True, d') \<and> incoming d' = rest \<and> \<not> listening d' \<and> cpu d' = cpu d \<and>
    same_setup (ds_memory d) (ds_memory d') \<and>
    mem_byte (ds_memory d') = upd_span (mem_byte (ds_memory d)) (of_nat a) bs \<and>
    outgoing d' = outgoing d @ [''+'', RSP_Encode ''OK'', ''+'', RSP_Encode (concat (map hex2 bs)), ''+'']"
proof -
  define d0 where "d0 = d\<lparr>listening := True, incoming := tl (incoming d)\<rparr>"
  have d0: "wf_mem (ds_memory d0)" "ram_span (ds_memory d0) (of_nat a) (length bs)" "write_ok d0 = []" "\<not> defer_response d0"
    using mem d by (simp_all add: d0_def)
  obtain p where p: "poll_message (RSP_Encode (write_memory_packet ds es bs)) d0 =
      (Inr (), d0\<lparr>ds_memory := p, outgoing := outgoing d0 @ [''+'', RSP_Encode ''OK'']\<rparr>)"
    "same_setup (ds_memory d0) p" "wf_mem p" "mem_byte p = upd_span (mem_byte (ds_memory d0)) (of_nat a) bs"
    by (rule poll_write_memory [OF d0(1,2) mem(3) tx d0(3,4)])
  define d1 where "d1 = d0\<lparr>ds_memory := p, outgoing := outgoing d0 @ [''+'', RSP_Encode ''OK''], incoming := tl (incoming d0)\<rparr>"
  have d1: "wf_mem (ds_memory d1)" "ram_span (ds_memory d1) (of_nat a) (length bs)"
    "span_of (mem_byte (ds_memory d1)) (of_nat a) (length bs) = map Some bs" "write_ok d1 = []" "\<not> defer_response d1"
    using p(2-4) d0 mem(2,3) ram_span_setup [OF p(2), of "of_nat a" "length bs"]
    by (simp_all add: d1_def span_upd_span_same)
  obtain q where q: "poll_message (RSP_Encode (read_memory_packet ds es)) d1 =
      (Inr (), d1\<lparr>ds_memory := q, outgoing := outgoing d1 @ [''+'', RSP_Encode (concat (map hex2 bs))]\<rparr>)"
    "same_setup (ds_memory d1) q" "wf_mem q" "mem_byte q = mem_byte (ds_memory d1)"
    by (rule poll_read_memory [OF d1(1,2) mem(3) d1(3) tx d1(4,5)])
  have "Poll d = (Inr True, d1\<lparr>ds_memory := q, incoming := rest, defer_response := False, listening := False,
      outgoing := outgoing d1 @ [''+'', RSP_Encode (concat (map hex2 bs)), ''+'']\<rparr>)"
    using p(1) q(1) d script
    by (simp add: Poll_def d0_def d1_def poll_continue)
  moreover have "same_setup (ds_memory d) q"
    using p(2) q(2) by (intro same_setup_trans [of "ds_memory d" p q]) (simp_all add: d0_def d1_def)
  ultimately show ?thesis
    using p(4) q(4) by (simp add: d0_def d1_def)
qed

definition demo_server :: "string option list \<Rightarrow> DebugServer" where
  "demo_server reads = DebugServer_new 0 reads [] demo_core demo_platform 0x1000"

theorem debug_memory_session_witness:
  "\<exists>d'. Poll (demo_server [Some (RSP_Encode (write_memory_packet [1, 0, 0, 15] [2] [0xab, 7])),
      Some (RSP_Encode (read_memory_packet [1, 0, 0, 15] [2])), Some (RSP_Encode ''c'')]) = (Inr True, d') \<and>
    mem_byte (ds_memory d') 0x1010 = Some 7 \<and> outgoing d' ! 3 = RSP_Encode ''ab07''"
proof -
  let ?d = "demo_server [Some (RSP_Encode (write_memory_packet [1, 0, 0, 15] [2] [0xab, 7])),
      Some (RSP_Encode (read_memory_packet [1, 0, 0, 15] [2])), Some (RSP_Encode ''c'')]"
  have tx: "text_of True [1, 0, 0, 15] 0x100f" "text_of False [2] (length [0xab, 7 :: u8])"
    by (simp_all add: text_of_def digits_value_def)
  have "\<exists>d'. Poll ?d = (Inr True, d') \<and> incoming d' = [] \<and> \<not> listening d' \<and> cpu d' = cpu ?d \<and>
      same_setup (ds_memory ?d) (ds_memory d') \<and>
      mem_byte (ds_memory d') = upd_span (mem_byte (ds_memory ?d)) (of_nat 0x100f) [0xab, 7] \<and>
      outgoing d' = outgoing ?d @ [''+'', RSP_Encode ''OK'', ''+'', RSP_Encode (concat (map hex2 [0xab, 7])), ''+'']"
    using tx by (intro debug_memory_session [where ds = "[1, 0, 0, 15]" and es = "[2]"])
      (simp_all add: demo_server_def DebugServer_new_def)
  then show ?thesis
    by (elim ex_forward) (simp add: upd_span_def demo_server_def DebugServer_new_def hex2_def hex_char_def)
qed

lemma ucast_32_64_32 [simp]: "ucast (ucast v :: u64) = v" for v :: u32
  by (rule bit_word_eqI) (simp add: bit_simps)

lemma debug_registers_parts:
  assumes tx: "text_of True ds k" "k < 2 ^ 32" and core: "wf_core (cpu d)"
  shows "1 \<le> k \<Longrightarrow> k \<le> 31 \<Longrightarrow>
      WriteRegister (write_register_packet ds v) d =
        (Inr ''OK'', d\<lparr>cpu := (cpu d)\<lparr>X := (X (cpu d))[register_of k := ucast v]\<rparr>\<rparr>) \<and>
      ReadRegister (read_register_packet ds) (snd (WriteRegister (write_register_packet ds v) d)) =
        (Inr (le4 v), snd (WriteRegister (write_register_packet ds v) d))"
    and "k = 0 \<Longrightarrow> WriteRegister (write_register_packet ds v) d = (Inr ''OK'', d) \<and>
      ReadRegister (read_register_packet ds) d = (Inr (le4 0), d)"
    and "k = 32 \<Longrightarrow> WriteRegister (write_register_packet ds v) d = (Inr ''OK'', d\<lparr>cpu := (cpu d)\<lparr>PC := ucast v\<rparr>\<rparr>) \<and>
      ReadRegister (read_register_packet ds) d = (Inr (le4 (ucast (ds_pc d))), d)"
    and "32 < k \<Longrightarrow> WriteRegister (write_register_packet ds v) d = (Inr ''E2'', d) \<and>
      ReadRegister (read_register_packet ds) d = (Inr ''E2'', d)"
proof -
  note packets = WriteRegister_packet [OF tx] ReadRegister_packet [OF tx] RegType_of_nat [OF tx(2)]
  have len: "length (X (cpu d)) = 32" using core by (simp add: wf_core_def)
  show "WriteRegister (write_register_packet ds v) d =
        (Inr ''OK'', d\<lparr>cpu := (cpu d)\<lparr>X := (X (cpu d))[register_of k := ucast v]\<rparr>\<rparr>) \<and>
      ReadRegister (read_register_packet ds) (snd (WriteRegister (write_register_packet ds v) d)) =
        (Inr (le4 v), snd (WriteRegister (write_register_packet ds v) d))" if "1 \<le> k" "k \<le> 31"
  proof -
    have u: "unat (of_nat k :: u32) = k" using that by (simp add: unat_of_nat)
    then have "(of_nat k :: u32) \<noteq> 0" using that(1) by auto
    with u show ?thesis
      using that len
      by (auto simp: packets register_of_def upd_cpu_def SetGP_def SetSP_def GP_def SP_def EncodeRegisterValue_def word_gt_0)
  qed
  show "WriteRegister (write_register_packet ds v) d = (Inr ''OK'', d) \<and>
      ReadRegister (read_register_packet ds) d = (Inr (le4 0), d)" if "k = 0"
    using that by (simp add: packets RegType_def upd_cpu_def SetGP_def GP_def EncodeRegisterValue_def)
  show "WriteRegister (write_register_packet ds v) d = (Inr ''OK'', d\<lparr>cpu := (cpu d)\<lparr>PC := ucast v\<rparr>\<rparr>) \<and>
      ReadRegister (read_register_packet ds) d = (Inr (le4 (ucast (ds_pc d))), d)" if "k = 32"
    using that by (simp add: packets RegType_def upd_cpu_def RiscvState_SetPC_def EncodeRegisterValue_def)
  show "WriteRegister (write_register_packet ds v) d = (Inr ''E2'', d) \<and>
      ReadRegister (read_register_packet ds) d = (Inr ''E2'', d)" if "32 < k"
    using that by (simp add: packets)
qed

text \<open>
  C33. Register access from the client, by the indices of the table in \<open>RegType\<close>. Registers 1 to 30, and
  the stack pointer under index 31, read back what was written and no other register changes; register
  0 ignores writes and reads zero; index 32 sets the program counter of the core, but reads the address
  of the instruction at which the server was called.
\<close>

theorem debug_registers:
  assumes "text_of True ds k" "k < 2 ^ 32" and "wf_core (cpu d)"
  shows "(1 \<le> k \<and> k \<le> 31 \<longrightarrow>
      WriteRegister (write_register_packet ds v) d =
        (Inr ''OK'', d\<lparr>cpu := (cpu d)\<lparr>X := (X (cpu d))[register_of k := ucast v]\<rparr>\<rparr>) \<and>
      ReadRegister (read_register_packet ds) (snd (WriteRegister (write_register_packet ds v) d)) =
        (Inr (le4 v), snd (WriteRegister (write_register_packet ds v) d))) \<and>
    (k = 0 \<longrightarrow> WriteRegister (write_register_packet ds v) d = (Inr ''OK'', d) \<and>
      ReadRegister (read_register_packet ds) d = (Inr (le4 0), d)) \<and>
    (k = 32 \<longrightarrow> WriteRegister (write_register_packet ds v) d = (Inr ''OK'', d\<lparr>cpu := (cpu d)\<lparr>PC := ucast v\<rparr>\<rparr>) \<and>
      ReadRegister (read_register_packet ds) d = (Inr (le4 (ucast (ds_pc d))), d))"
  using debug_registers_parts [OF assms, of v] by blast

theorem debug_registers_witness:
  "ReadRegister (read_register_packet [10]) (snd (WriteRegister (write_register_packet [10] 0x12345678) (demo_server []))) =
     (Inr ''78563412'', snd (WriteRegister (write_register_packet [10] 0x12345678) (demo_server [])))"
proof -
  have tx: "text_of True [10] 10" by (simp add: text_of_def digits_value_def)
  have core: "wf_core (cpu (demo_server []))" by (simp add: demo_server_def DebugServer_new_def demo_wf)
  have "le4 0x12345678 = ''78563412''" by (simp add: le4_bytes hex2_def hex_char_def)
  then show ?thesis using conjunct1 [OF debug_registers [OF tx _ core, of "0x12345678"], THEN mp, THEN conjunct2] by simp
qed

text \<open>
  Breakpoints. A range is hit when one of the four bytes from the program counter on lies in it.
\<close>

lemma breakpoint_match_iff: "breakpoint_match bs a \<longleftrightarrow> (\<exists>b\<in>set bs. address_lo b \<le> a \<and> a \<le> address_hi b)"
  by (induction bs) auto

definition breakpoint_packet :: "nat list \<Rightarrow> string" where
  "breakpoint_packet ds = ''Z0,'' @ digit_text ds @ '',4''"

lemma SetBreakpoints_packet:
  assumes "text_of True ds a" "a < 2 ^ 64"
  shows "SetBreakpoints (breakpoint_packet ds) d =
    (Inr ''OK'', d\<lparr>instr_breakpoints := add_breakpoint (instr_breakpoints d) (of_nat a) (of_nat a + 3)\<rparr>)"
proof -
  have four: "hex_char 4 = CHR ''4''" "hex_char 0 = CHR ''0''" "digit_text [] = []" by (simp_all add: digit_text_def hex_char_def)
  have "text_of False [4] 4" "text_of False [0] 0" by (simp_all add: text_of_def digits_value_def)
  then have "scan_llx_d (digit_text ds @ '',4'') = Scanned (of_nat a, 4)"
    "scan_number False None (CHR ''0'' # CHR '','' # digit_text ds @ '',4'') = Some (False, 0, CHR '','' # digit_text ds @ '',4'')"
    using scan_llx_d_digits [OF assms, of "[4]" 4 "[]"] scan_digits [of False "[0]" 0 "CHR '','' # digit_text ds @ '',4''"]
    by (simp_all add: four)
  then have "scan_d_llx_d (drop 1 (breakpoint_packet ds)) = Scanned (0, of_nat a, 4)"
    by (simp add: scan_d_llx_d_def breakpoint_packet_def scan_as_def as_int_def scan_comma_def)
  then show ?thesis by (simp add: SetBreakpoints_def)
qed

lemma near_iff:
  assumes "unat (pc :: u64) + 3 < 2 ^ 64" "unat a + 3 < 2 ^ 64"
  shows "(\<exists>i<4. a \<le> pc + of_nat i \<and> pc + of_nat i \<le> a + 3) \<longleftrightarrow> unat a \<le> unat pc + 3 \<and> unat pc \<le> unat a + 3"
proof -
  have u: "unat (a + 3) = unat a + 3" "i < 4 \<Longrightarrow> unat (pc + of_nat i) = unat pc + i" for i
    using assms by (simp_all add: unat_word_ariths(1) unat_of_nat)
  have "(\<exists>i<4. a \<le> pc + of_nat i \<and> pc + of_nat i \<le> a + 3) \<longleftrightarrow>
      (\<exists>i<4. unat a \<le> unat pc + i \<and> unat pc + i \<le> unat a + 3)"
    using u by (auto simp: word_le_nat_alt)
  also have "\<dots> \<longleftrightarrow> unat a \<le> unat pc + 3 \<and> unat pc \<le> unat a + 3"
  proof
    assume "unat a \<le> unat pc + 3 \<and> unat pc \<le> unat a + 3"
    then have "unat a - unat pc < 4 \<and> unat a \<le> unat pc + (unat a - unat pc) \<and> unat pc + (unat a - unat pc) \<le> unat a + 3"
      by linarith
    then show "\<exists>i<4. unat a \<le> unat pc + i \<and> unat pc + i \<le> unat a + 3" by blast
  qed auto
  finally show ?thesis .
qed

lemma breakpoint_hit_iff:
  "breakpoint_hit pc d \<longleftrightarrow> (\<exists>b\<in>set (instr_breakpoints d). \<exists>i<4. address_lo b \<le> pc + of_nat i \<and> pc + of_nat i \<le> address_hi b)"
  unfolding breakpoint_hit_def breakpoint_match_iff list_ex_iff set_upt by (simp add: Ball_def Bex_def) blast

lemma debug_breakpoints_parts:
  shows "text_of True ds a \<Longrightarrow> a + 3 < 2 ^ 64 \<Longrightarrow> unat pc + 3 < 2 ^ 64 \<Longrightarrow>
      \<exists>d'. SetBreakpoints (breakpoint_packet ds) d = (Inr ''OK'', d') \<and>
        (breakpoint_hit pc d' \<longleftrightarrow> breakpoint_hit pc d \<or> a \<le> unat pc + 3 \<and> unat pc \<le> a + 3)"
    and "\<exists>d'. ClearBreakpoints d = (Inr ''OK'', d') \<and> \<not> breakpoint_hit pc d' \<and> cpu d' = cpu d"
    and "\<not> at_start d \<Longrightarrow> \<not> do_step d \<Longrightarrow> \<not> breakpoint_hit pc d \<Longrightarrow>
      RunPreStepChecks s p pc d = (Inr True, d\<lparr>cpu := s, ds_memory := p, ds_pc := pc\<rparr>)"
    and "\<not> at_start d \<Longrightarrow> \<not> do_step d \<Longrightarrow> breakpoint_hit pc d \<Longrightarrow> write_ok d = [] \<Longrightarrow>
      RunPreStepChecks s p pc d =
        Poll (d\<lparr>cpu := s, ds_memory := p, ds_pc := pc, outgoing := outgoing d @ [RSP_Encode
          (''T021d:'' @ le4 (ucast (FP s)) @ '';1f:'' @ le4 (ucast (SP s)) @ '';20:'' @ le4 (ucast pc) @ '';'')]\<rparr>)"
proof -
  show "\<exists>d'. SetBreakpoints (breakpoint_packet ds) d = (Inr ''OK'', d') \<and>
      (breakpoint_hit pc d' \<longleftrightarrow> breakpoint_hit pc d \<or> a \<le> unat pc + 3 \<and> unat pc \<le> a + 3)"
    if "text_of True ds a" "a + 3 < 2 ^ 64" "unat pc + 3 < 2 ^ 64"
  proof -
    have "unat (of_nat a :: u64) = a" using that(2) by (simp add: unat_of_nat)
    then have "(\<exists>i<4. of_nat a \<le> pc + of_nat i \<and> pc + of_nat i \<le> of_nat a + 3) \<longleftrightarrow> a \<le> unat pc + 3 \<and> unat pc \<le> a + 3"
      using near_iff [OF that(3), of "of_nat a"] that(2) by simp
    then show ?thesis
      using that by (auto simp: SetBreakpoints_packet breakpoint_hit_iff add_breakpoint_def)
  qed
  have hit: "breakpoint_hit pc (attach s p pc d) = breakpoint_hit pc d"
    by (simp add: breakpoint_hit_def attach_def)
  show "\<exists>d'. ClearBreakpoints d = (Inr ''OK'', d') \<and> \<not> breakpoint_hit pc d' \<and> cpu d' = cpu d"
    by (simp add: ClearBreakpoints_def reset_breakpoints_def breakpoint_hit_iff)
  show "RunPreStepChecks s p pc d = (Inr True, d\<lparr>cpu := s, ds_memory := p, ds_pc := pc\<rparr>)"
    if "\<not> at_start d" "\<not> do_step d" "\<not> breakpoint_hit pc d"
    using that hit by (simp add: RunPreStepChecks_def PreStepChecks_def attach_def core_match_def)
  show "RunPreStepChecks s p pc d =
        Poll (d\<lparr>cpu := s, ds_memory := p, ds_pc := pc, outgoing := outgoing d @ [RSP_Encode
          (''T021d:'' @ le4 (ucast (FP s)) @ '';1f:'' @ le4 (ucast (SP s)) @ '';20:'' @ le4 (ucast pc) @ '';'')]\<rparr>)"
    if "\<not> at_start d" "\<not> do_step d" "breakpoint_hit pc d" "write_ok d = []"
    using that hit
    by (simp add: RunPreStepChecks_def PreStepChecks_def attach_def core_match_def AcknowledgeBreakpoint_def send_ok
        stop_reply_def EncodeRegisterValue_def)
qed

text \<open>
  Breakpoints. A request for a breakpoint at an address is answered by OK and adds exactly the stops
  at program counters at most three bytes away from it; clearing removes all. Between instructions a
  server that is running free does nothing at a program counter that hits no breakpoint, and at one
  that does it reports the stop with frame pointer, stack pointer and program counter and listens.
\<close>

theorem debug_breakpoints:
  "(text_of True ds a \<and> a + 3 < 2 ^ 64 \<and> unat pc + 3 < 2 ^ 64 \<longrightarrow>
      (\<exists>d'. SetBreakpoints (breakpoint_packet ds) d = (Inr ''OK'', d') \<and>
        (breakpoint_hit pc d' \<longleftrightarrow> breakpoint_hit pc d \<or> a \<le> unat pc + 3 \<and> unat pc \<le> a + 3))) \<and>
    (\<exists>d'. ClearBreakpoints d = (Inr ''OK'', d') \<and> \<not> breakpoint_hit pc d' \<and> cpu d' = cpu d) \<and>
    (\<not> at_start d \<and> \<not> do_step d \<and> \<not> breakpoint_hit pc d \<longrightarrow>
      RunPreStepChecks s p pc d = (Inr True, d\<lparr>cpu := s, ds_memory := p, ds_pc := pc\<rparr>)) \<and>
    (\<not> at_start d \<and> \<not> do_step d \<and> breakpoint_hit pc d \<and> write_ok d = [] \<longrightarrow>
      RunPreStepChecks s p pc d =
        Poll (d\<lparr>cpu := s, ds_memory := p, ds_pc := pc, outgoing := outgoing d @ [RSP_Encode
          (''T021d:'' @ le4 (ucast (FP s)) @ '';1f:'' @ le4 (ucast (SP s)) @ '';20:'' @ le4 (ucast pc) @ '';'')]\<rparr>))"
  using debug_breakpoints_parts(1) [of ds a pc d] debug_breakpoints_parts(2) [of d pc]
    debug_breakpoints_parts(3,4) [of d pc s p] by blast

theorem debug_breakpoints_witness:
  "\<exists>d'. SetBreakpoints (breakpoint_packet [1, 0, 0, 0]) (demo_server []) = (Inr ''OK'', d') \<and>
     breakpoint_hit 0x1000 d' \<and> \<not> breakpoint_hit 0x1004 d'"
proof -
  have "text_of True [1, 0, 0, 0] 0x1000" by (simp add: text_of_def digits_value_def)
  moreover have "\<not> breakpoint_hit pc (demo_server [])" for pc
    by (simp add: breakpoint_hit_iff demo_server_def DebugServer_new_def)
  ultimately show ?thesis
    using conjunct1 [OF debug_breakpoints, of "[1, 0, 0, 0]" "0x1000" "0x1000" "demo_server []"]
      conjunct1 [OF debug_breakpoints, of "[1, 0, 0, 0]" "0x1000" "0x1004" "demo_server []"]
    by fastforce
qed

text \<open>
  Single stepping. At a stop, a step request is acknowledged and lets one instruction run; after it
  the server reports the stop, with the address of the instruction that was executed as program
  counter, and before the next instruction it listens again.
\<close>

theorem debug_single_step:
  assumes "\<not> at_start d" "do_step d" "\<not> do_shutdown d" "write_ok d = []"
    and script: "incoming d = Some (RSP_Encode ''s'') # rest"
  shows "\<exists>d1. RunPreStepChecks s p pc d = (Inr True, d1) \<and> cpu d1 = s \<and> ds_memory d1 = p \<and> incoming d1 = rest \<and>
    outgoing d1 = outgoing d @ [''+''] \<and>
    (\<exists>d2. RunPostStepChecks s' p' pc d1 = (Inr True, d2) \<and>
       outgoing d2 = outgoing d @ [''+'', RSP_Encode (''T021d:'' @ le4 (ucast (FP s')) @ '';1f:'' @ le4 (ucast (SP s'))
         @ '';20:'' @ le4 (ucast pc) @ '';'')] \<and>
       RunPreStepChecks s' p' pc' d2 = Poll (d2\<lparr>cpu := s', ds_memory := p', ds_pc := pc', do_step := False\<rparr>))"
proof -
  define d1 where "d1 = d\<lparr>cpu := s, ds_memory := p, ds_pc := pc, do_step := True, listening := False, incoming := rest,
    outgoing := outgoing d @ [''+''], defer_response := False\<rparr>"
  have "RunPreStepChecks s p pc d = (Inr True, d1)"
    using assms by (simp add: RunPreStepChecks_def PreStepChecks_def attach_def core_match_def Poll_def poll_step d1_def)
  moreover have "RunPostStepChecks s' p' pc d1 = (Inr True, d1\<lparr>cpu := s', ds_memory := p', ds_pc := pc,
      outgoing := outgoing d @ [''+'', RSP_Encode (''T021d:'' @ le4 (ucast (FP s')) @ '';1f:'' @ le4 (ucast (SP s'))
         @ '';20:'' @ le4 (ucast pc) @ '';'')]\<rparr>)"
    using assms by (simp add: RunPostStepChecks_def PostStepChecks_def attach_def core_match_def d1_def
        AcknowledgeBreakpoint_def send_ok stop_reply_def EncodeRegisterValue_def)
  ultimately show ?thesis
    using assms(1) by (simp add: d1_def RunPreStepChecks_def PreStepChecks_def attach_def core_match_def)
qed

theorem debug_single_step_witness:
  "\<exists>d1. RunPreStepChecks demo_core demo_platform 0x1000
     ((demo_server [Some (RSP_Encode ''s'')])\<lparr>at_start := False, do_step := True\<rparr>) = (Inr True, d1) \<and> cpu d1 = demo_core"
  using debug_single_step [of "(demo_server [Some (RSP_Encode ''s'')])\<lparr>at_start := False, do_step := True\<rparr>" "[]"
      demo_core demo_platform "0x1000" demo_core demo_platform "0x1004"]
  by (auto simp: demo_server_def DebugServer_new_def)

section \<open>What a client can do\<close>

text \<open>The part of the server a session cannot change: all of the core but registers and program counter.\<close>

definition core_kept :: "RiscvState \<Rightarrow> DebugServer \<Rightarrow> bool" where
  "core_kept s d \<longleftrightarrow> wf_core (cpu d) \<and> (\<exists>x a. cpu d = s\<lparr>PC := a, X := x\<rparr>)"

lemma wf_core_SetSP: "wf_core s \<Longrightarrow> wf_core (SetSP v s)"
  by (simp add: wf_core_def SetSP_def CurrentPrivilegeLevel_def)

lemma core_kept_fields [simp]:
  "core_kept s (d\<lparr>ds_memory := p\<rparr>) = core_kept s d" "core_kept s (d\<lparr>listening := b\<rparr>) = core_kept s d"
  "core_kept s (d\<lparr>incoming := ms\<rparr>) = core_kept s d" "core_kept s (d\<lparr>outgoing := os\<rparr>) = core_kept s d"
  "core_kept s (d\<lparr>write_ok := bs\<rparr>) = core_kept s d" "core_kept s (d\<lparr>defer_response := b\<rparr>) = core_kept s d"
  "core_kept s (d\<lparr>do_step := b\<rparr>) = core_kept s d" "core_kept s (d\<lparr>at_start := b\<rparr>) = core_kept s d"
  "core_kept s (d\<lparr>do_shutdown := b\<rparr>) = core_kept s d" "core_kept s (d\<lparr>instr_breakpoints := rs\<rparr>) = core_kept s d"
  "core_kept s (d\<lparr>data_breakpoints := rs\<rparr>) = core_kept s d"
  by (simp_all add: core_kept_def)

lemma core_kept_upd:
  assumes "core_kept s d" "wf_core (cpu d) \<Longrightarrow> wf_core (f (cpu d))"
    "\<And>x a. \<exists>x' a'. f (s\<lparr>PC := a, X := x\<rparr>) = s\<lparr>PC := a', X := x'\<rparr>"
  shows "core_kept s (upd_cpu f d)"
proof -
  obtain x a where c: "cpu d = s\<lparr>PC := a, X := x\<rparr>" using assms(1) by (auto simp: core_kept_def)
  then show ?thesis using assms by (simp add: core_kept_def upd_cpu_def)
qed

lemma core_kept_registers:
  "core_kept s d \<Longrightarrow> core_kept s (upd_cpu (SetGP r v) d)" "core_kept s d \<Longrightarrow> core_kept s (upd_cpu (SetSP v) d)"
  "core_kept s d \<Longrightarrow> core_kept s (upd_cpu (RiscvState_SetPC v) d)"
proof -
  have PC: "\<exists>x' a'. RiscvState_SetPC v (s\<lparr>PC := a, X := x\<rparr>) = s\<lparr>PC := a', X := x'\<rparr>" for x a
    by (intro exI [of _ x] exI [of _ v]) (simp add: RiscvState_SetPC_def)
  show "core_kept s d \<Longrightarrow> core_kept s (upd_cpu (RiscvState_SetPC v) d)"
    by (rule core_kept_upd) (simp_all add: wf_core_SetPC PC)
  show "core_kept s d \<Longrightarrow> core_kept s (upd_cpu (SetGP r v) d)" "core_kept s d \<Longrightarrow> core_kept s (upd_cpu (SetSP v) d)"
    by (auto intro!: core_kept_upd wf_core_SetGP wf_core_SetSP simp: SetGP_def SetSP_def) blast+
qed

lemma keeps_store_register:
  assumes "\<And>v d. core_kept s d \<Longrightarrow> core_kept s (upd_cpu (f v) d)"
  shows "keepsS (core_kept s) (store_register t f)"
  unfolding store_register_def
  by (auto split: option.split prod.split bool.split intro!: keeps_intros keepsS_modify assms)

lemma keeps_memory_packets:
  "keepsS (core_kept s) (ReadMemory_packet pdata)" "keepsS (core_kept s) (WriteMemory_packet pdata)"
  by (auto simp: keepsS_def ReadMemory_packet_def WriteMemory_packet_def
      split: scanned.split option.split sum.split prod.split sim_throw.split)

lemma keeps_register_packets: "keepsS (core_kept s) (ReadRegister pdata)" "keepsS (core_kept s) (WriteRegister pdata)"
  unfolding ReadRegister_def WriteRegister_def
  by (auto split: scanned.split option.split REG_TYPES.split
      intro!: keeps_intros keeps_store_register core_kept_registers)

lemma keeps_control:
  "keepsS (core_kept s) Continue" "keepsS (core_kept s) DebugServer_Step" "keepsS (core_kept s) KillTarget"
  "keepsS (core_kept s) ClearBreakpoints" "keepsS (core_kept s) (SetBreakpoints pdata)" "keepsS (core_kept s) ReadGPRegisters"
  unfolding Continue_def DebugServer_Step_def KillTarget_def ClearBreakpoints_def SetBreakpoints_def ReadGPRegisters_def
    reset_breakpoints_def
  by (auto split: scanned.split intro!: keeps_intros keepsS_modify)

lemma keeps_pure: "keepsS P (\<lambda>d. (r, d))"
  by (simp add: keepsS_def)

subsection \<open>Invariants of polling\<close>

text \<open>
  An invariant of the server that does not depend on the bookkeeping of the connection is kept by the
  whole loop, as far as the packets are of a kind whose handlers keep it.
\<close>

locale poll_target = rsp_target DebugServer_handler inv allowed
  for inv :: "DebugServer \<Rightarrow> bool" and allowed :: "GDB_SERVER_ACTIONS \<Rightarrow> bool" +
  assumes inv_link: "inv (d\<lparr>listening := b\<rparr>) = inv d" "inv (d\<lparr>incoming := ms\<rparr>) = inv d"
      "inv (d\<lparr>outgoing := os\<rparr>) = inv d" "inv (d\<lparr>write_ok := bs\<rparr>) = inv d" "inv (d\<lparr>defer_response := c\<rparr>) = inv d"
begin

lemma inv_Write: "socket_Write m d = (ok, d') \<Longrightarrow> inv d' = inv d"
proof (cases "write_ok d")
  case (Cons b bs)
  then show "socket_Write m d = (ok, d') \<Longrightarrow> inv d' = inv d" by (cases b) (auto simp: socket_Write_def inv_link)
qed (auto simp: socket_Write_def inv_link)

lemma inv_send: "inv (send m d) = inv d"
  using inv_Write [of m d] by (auto simp: send_def inv_link split: prod.split)

lemma poll_message_keeps:
  assumes d: "inv d" and m: "poll_message m d = (r, d')" and a: "\<And>req. RSP_Decode m = Inr req \<Longrightarrow> allowed_packet allowed req"
  shows "inv d'"
proof (cases "RSP_Decode m")
  case (Inl e)
  then show ?thesis using d m by (auto simp: poll_message_def inv_link)
next
  case (Inr req)
  obtain ok d1 where w: "(if length (RSP_Acknowledge req) > 0 then socket_Write (RSP_Acknowledge req) d else (True, d)) = (ok, d1)"
    by (cases "if length (RSP_Acknowledge req) > 0 then socket_Write (RSP_Acknowledge req) d else (True, d)") simp
  have d1: "inv d1" using w d by (auto split: if_splits dest: inv_Write)
  obtain q d2 where q: "RSP_Dispatch DebugServer_handler req d1 = (q, d2)" by fastforce
  have "inv d2" using a [OF Inr] d1 q by (rule dispatch_keeps_inv)
  then show ?thesis
    using m d1 unfolding poll_message_def Inr sum.case Let_def w prod.case q
    by (auto simp: inv_send inv_link split: if_splits sum.splits sim_throw.splits)
qed

lemma poll_loop_keeps:
  assumes "inv d" "poll_loop ms d = (r, d')"
    "\<forall>m req. Some m \<in> set ms \<longrightarrow> RSP_Decode m = Inr req \<longrightarrow> allowed_packet allowed req"
  shows "inv d'"
  using assms
proof (induction ms d arbitrary: r d' rule: poll_loop.induct)
  case (3 m ms d)
  obtain q d1 where q: "poll_message m (d\<lparr>incoming := ms\<rparr>) = (q, d1)" by fastforce
  have "inv d1"
  proof (rule poll_message_keeps [OF _ q])
    show "inv (d\<lparr>incoming := ms\<rparr>)" using 3(2) by (simp add: inv_link)
    show "allowed_packet allowed req" if "RSP_Decode m = Inr req" for req
      using 3(4) that by simp
  qed
  then show ?case using 3(1,3,4) q by (auto split: sum.splits if_splits)
qed (auto simp: inv_link)

lemma Poll_keeps:
  assumes "inv d" "Poll d = (r, d')"
    "\<And>m req. Some m \<in> set (incoming d) \<Longrightarrow> RSP_Decode m = Inr req \<Longrightarrow> allowed_packet allowed req"
  shows "inv d'"
proof -
  obtain q d1 where q: "poll_loop (incoming d) (d\<lparr>listening := True\<rparr>) = (q, d1)" by fastforce
  have "inv d1" using assms(1,3) by (intro poll_loop_keeps [OF _ q]) (simp_all add: inv_link)
  then show ?thesis using assms(2) q by (auto simp: Poll_def split: sum.splits)
qed

end

text \<open>Every request keeps the core but for its registers; all requests but a kill leave the end flag alone.\<close>

interpretation dbg: poll_target "core_kept s" "\<lambda>_. True" for s
  by unfold_locales
    (auto simp: DebugServer_handler_def keeps_memory_packets keeps_register_packets keeps_control keeps_pure
      split: GDB_SERVER_ACTIONS.split)

lemma live_memory_packets:
  "keepsS (\<lambda>d. \<not> do_shutdown d) (ReadMemory_packet pdata)" "keepsS (\<lambda>d. \<not> do_shutdown d) (WriteMemory_packet pdata)"
  by (auto simp: keepsS_def ReadMemory_packet_def WriteMemory_packet_def
      split: scanned.split option.split sum.split prod.split sim_throw.split)

lemma live_store_register: "keepsS (\<lambda>d. \<not> do_shutdown d) (store_register t f)"
  unfolding store_register_def
  by (auto simp: upd_cpu_def split: option.split prod.split bool.split intro!: keeps_intros keepsS_modify)

lemma live_register_packets:
  "keepsS (\<lambda>d. \<not> do_shutdown d) (ReadRegister pdata)" "keepsS (\<lambda>d. \<not> do_shutdown d) (WriteRegister pdata)"
  unfolding ReadRegister_def WriteRegister_def
  by (auto split: scanned.split option.split REG_TYPES.split intro!: keeps_intros live_store_register)

lemma live_control:
  "keepsS (\<lambda>d. \<not> do_shutdown d) Continue" "keepsS (\<lambda>d. \<not> do_shutdown d) DebugServer_Step"
  "keepsS (\<lambda>d. \<not> do_shutdown d) ClearBreakpoints" "keepsS (\<lambda>d. \<not> do_shutdown d) (SetBreakpoints pdata)"
  "keepsS (\<lambda>d. \<not> do_shutdown d) ReadGPRegisters"
  unfolding Continue_def DebugServer_Step_def ClearBreakpoints_def SetBreakpoints_def ReadGPRegisters_def reset_breakpoints_def
  by (auto split: scanned.split if_splits intro!: keeps_intros keepsS_modify)

interpretation live: poll_target "\<lambda>d. \<not> do_shutdown d" "\<lambda>cmd. cmd \<noteq> KILL_TARGET"
  by unfold_locales
    (auto simp: DebugServer_handler_def live_memory_packets live_register_packets live_control keeps_pure
      split: GDB_SERVER_ACTIONS.split)

lemma all_allowed: "allowed_packet (\<lambda>_. True) pdata"
  by (simp add: allowed_packet_def split: sum.split option.split)

lemma RunPreStepChecks_keeps:
  assumes core: "wf_core s" and run: "RunPreStepChecks s p pc d = (r, d')"
  shows "core_kept s d'"
proof -
  have "s = s\<lparr>PC := PC s, X := X s\<rparr>" by simp
  then have "core_kept s (attach s p pc d)" using core unfolding core_kept_def attach_def by (simp, blast)
  then show ?thesis
    using run unfolding RunPreStepChecks_def PreStepChecks_def AcknowledgeBreakpoint_def
    by (auto simp: dbg.inv_send all_allowed split: if_splits dest!: dbg.Poll_keeps [of s, rotated])
qed

lemma Poll_false: "Poll d = (Inr False, d') \<Longrightarrow> do_shutdown d'"
  by (auto simp: Poll_def split: prod.splits sum.splits)

lemma send_keeps: "incoming (send m d) = incoming d" "do_shutdown (send m d) = do_shutdown d"
  by (auto simp: socket_Write_def send_def split: list.splits bool.splits)

lemma end_needs_kill:
  assumes run: "RunPreStepChecks s p pc d = (Inr False, d')" and "\<not> do_shutdown d"
    and none: "\<And>m req. Some m \<in> set (incoming d) \<Longrightarrow> RSP_Decode m = Inr req \<Longrightarrow> \<not> kill_request req"
  shows False
proof -
  have *: False if "Poll d1 = (Inr False, d')" "\<not> do_shutdown d1" "incoming d1 = incoming d" for d1
    using live.Poll_keeps [OF that(2,1)] Poll_false [OF that(1)] that(3) none only_kill_requests by metis
  show False
    using run assms(2) unfolding RunPreStepChecks_def PreStepChecks_def AcknowledgeBreakpoint_def attach_def
    by (auto simp: send_keeps split: if_splits dest!: *)
qed



section \<open>Requests that end the simulator\<close>

text \<open>
  \<open>Poll\<close> catches run time errors only. A memory write with an odd number of digits runs into
  \<open>substr\<close> with a position behind the end, and one of more than 32 bytes of ordinary memory into the
  error of the block store: neither is caught on the way out of the simulation loop.
\<close>

lemma odd_digits_escape:
  "write_ok d = [] \<Longrightarrow> poll_message (RSP_Encode ''M1000,2:1'') d = (Inl OutOfRange, d\<lparr>outgoing := outgoing d @ [''+'']\<rparr>)"
proof -
  assume ok: "write_ok d = []"
  have tx: "text_of True [1, 0, 0, 0] 0x1000" "text_of False [2] 2" by (simp_all add: text_of_def digits_value_def)
  have s: "scan_llx_d ''1000,2:1'' = Scanned (0x1000, 2)"
    using scan_llx_d_digits [OF tx(1) _ tx(2), of "'':1''"] by (simp add: hex_char_def digit_text_def)
  have "scan_number True (Some 2) ''1'' = Some (False, 1, [])"
    by (simp add: scan_number_def isspace_def scan_sign_def scan_prefix_def hex_digit_def isdigit_def digits_value_def)
  then have "scan_mbytes 2 7 ''M1000,2:1'' = Inl OutOfRange"
    by (simp add: numeral_2_eq_2)
  moreover have "find_char (CHR '':'') ''M1000,2:1'' = Some 7" by simp
  ultimately have "WriteMemory_packet ''M1000,2:1'' d1 = (Inl OutOfRange, d1)" for d1
    by (simp add: WriteMemory_packet_def s del: find_char.simps)
  moreover have "cmd_case ''M1000,2:1'' = Inr (Some WRITE_MEMORY)" by (rule cmd_case_letter(4)) simp_all
  moreover have "RSP_Decode (RSP_Encode ''M1000,2:1'') = Inr ''M1000,2:1''"
    using Decode_data_frame [of "[]" "[]" "''M1000,2:1''"]
    by (simp add: Encode_frame ack_opt_def isprint_def)
  ultimately show ?thesis
    using ok by (simp add: poll_message_def RSP_Acknowledge_def socket_Write_def RSP_Dispatch_def DebugServer_handler_def)
qed

lemma long_write_escapes:
  assumes "wf_mem (ds_memory d)" "ram_span (ds_memory d) (of_nat a) (length bs)" "32 < length bs" "length bs < 2 ^ 31"
    and "text_of True ds a" "a < 2 ^ 64" "text_of False es (length bs)"
  shows "fst (WriteMemory_packet (write_memory_packet ds es bs) d) = Inl (MBlockExc MEM_ERROR)"
proof -
  obtain pm where "PhysicalMemory_Write (of_nat a) bs (int (length bs)) False (phys_mem (memory (ds_memory d))) = (Inl MEM_ERROR, pm)"
    using assms(3) by (simp add: PhysicalMemory_Write_def BlockWrite_def write_at_error [OF ValidateAccess_bad])
  then show ?thesis
    using ram_span_valid [OF assms(2,1)]
    by (simp add: WriteMemory_packet_eq [OF assms(5,6,7,4)] WritePhysicalMemory_def WriteDeviceMemory_def)
qed

end
