(* ===== verification/Format.thy ===== *)
theory Format
  imports Scan
begin

text \<open>
  What the program uses of \<open>sprintf\<close>: the conversions \<open>%d\<close>, \<open>%u\<close>, \<open>%x\<close> and \<open>%llx\<close> with zero padding. A
  number is the text of its digits, so that the scanners of \<open>Scan\<close> read it back, and two numbers with
  the same text in front of other characters are equal.
\<close>

unbundle bit_operations_syntax

section \<open>Conversions\<close>

fun digits_of :: "nat \<Rightarrow> nat \<Rightarrow> nat list" where
  "digits_of b n = (if b < 2 \<or> n < b then [n] else digits_of b (n div b) @ [n mod b])"

declare digits_of.simps [simp del]

definition decimal :: "nat \<Rightarrow> string" where
  "decimal n = digit_text (digits_of 10 n)"

definition hexadecimal :: "nat \<Rightarrow> string" where
  "hexadecimal n = digit_text (digits_of 16 n)"

definition signed_decimal :: "int \<Rightarrow> string" where
  "signed_decimal z = (if z < 0 then CHR ''-'' # decimal (nat (- z)) else decimal (nat z))"

definition zero_padded :: "nat \<Rightarrow> string \<Rightarrow> string" where
  "zero_padded w s = replicate (w - length s) CHR ''0'' @ s"

text \<open>\<open>%0wx\<close> and, for \<open>w = 0\<close>, \<open>%x\<close>.\<close>

definition fmt_x :: "nat \<Rightarrow> 'l::len word \<Rightarrow> string" where
  "fmt_x w v = zero_padded w (hexadecimal (unat v))"

section \<open>Digits\<close>

lemma digits_of_nonempty [simp]: "digits_of b n \<noteq> []"
  by (subst digits_of.simps) simp

lemma digits_of_less: "2 \<le> b \<Longrightarrow> list_all (\<lambda>d. d < b) (digits_of b n)"
  by (induction b n rule: digits_of.induct) (subst digits_of.simps, simp)

lemma digits_value_snoc: "digits_value b (ds @ [d]) = digits_value b ds * b + d"
  by (simp add: digits_value_def)

lemma digits_of_value: "digits_value b (digits_of b n) = n"
proof (induction b n rule: digits_of.induct)
  case (1 b n)
  show ?case
  proof (cases "b < 2 \<or> n < b")
    case True
    then show ?thesis by (subst digits_of.simps) (auto simp: digits_value_def)
  next
    case False
    then show ?thesis using 1 by (subst digits_of.simps) (simp add: digits_value_snoc div_mult_mod_eq)
  qed
qed

lemma length_digits_of: "2 \<le> b \<Longrightarrow> 0 < k \<Longrightarrow> n < b ^ k \<Longrightarrow> length (digits_of b n) \<le> k"
proof (induction k arbitrary: n)
  case (Suc k)
  show ?case
  proof (cases "n < b")
    case False
    then have "0 < k" using Suc.prems by (cases k) simp_all
    moreover have "n div b < b ^ k" using Suc.prems by (simp add: less_mult_imp_div_less mult.commute)
    ultimately show ?thesis using Suc.IH [of "n div b"] Suc.prems(1) False by (subst digits_of.simps) simp
  qed (subst digits_of.simps, simp)
qed simp

lemma text_of_decimal: "text_of False (digits_of 10 n) n" and text_of_hexadecimal: "text_of True (digits_of 16 n) n"
  using digits_of_less [of 10 n] digits_of_less [of 16 n] by (simp_all add: text_of_def digits_of_value)

section \<open>Texts of numbers\<close>

lemma length_decimal: "0 < k \<Longrightarrow> n < 10 ^ k \<Longrightarrow> length (decimal n) \<le> k"
  by (simp add: decimal_def length_digits_of)

lemma length_hexadecimal: "0 < k \<Longrightarrow> n < 16 ^ k \<Longrightarrow> length (hexadecimal n) \<le> k"
  by (simp add: hexadecimal_def length_digits_of)

lemma length_zero_padded: "length (zero_padded w s) = max w (length s)"
  by (simp add: zero_padded_def)

lemma length_fmt_x: "w \<le> k \<Longrightarrow> 0 < k \<Longrightarrow> LENGTH('l) \<le> 4 * k \<Longrightarrow> length (fmt_x w (v :: 'l::len word)) \<le> k"
proof -
  assume w: "w \<le> k" "0 < k" "LENGTH('l) \<le> 4 * k"
  have "unat v < 2 ^ LENGTH('l)" by (rule unsigned_less)
  also have "\<dots> \<le> 2 ^ (4 * k)" using w(3) by (rule power_increasing) simp
  also have "\<dots> = 16 ^ k" by (simp add: power_mult)
  finally show ?thesis using w length_hexadecimal [of k "unat v"] by (simp add: fmt_x_def length_zero_padded)
qed

lemma length_signed_decimal: "0 < k \<Longrightarrow> \<bar>z\<bar> < 10 ^ k \<Longrightarrow> length (signed_decimal z) \<le> Suc k"
proof -
  assume k: "0 < k" and z: "\<bar>z\<bar> < 10 ^ k"
  have "int (nat \<bar>z\<bar>) < int (10 ^ k)" using z by simp
  then have "nat \<bar>z\<bar> < 10 ^ k" by (simp only: of_nat_less_iff)
  then show ?thesis using length_decimal [OF k, of "nat \<bar>z\<bar>"]
    by (cases "z < 0") (auto simp: signed_decimal_def)
qed

lemma decimal_chars: "c \<in> set (decimal n) \<Longrightarrow> isdigit c"
proof -
  assume "c \<in> set (decimal n)"
  then obtain d where "c = hex_char d" "d < 10"
    using digits_of_less [of 10 n] by (auto simp: decimal_def digit_text_def list_all_iff)
  then show ?thesis using hex_char_dec [of d] by (auto simp: dec_digit_def split: if_splits)
qed

lemma hexadecimal_chars: "c \<in> set (hexadecimal n) \<Longrightarrow> hex_digit c \<noteq> None"
  using digits_of_less [of 16 n] by (auto simp: hexadecimal_def digit_text_def list_all_iff)

lemma decimal_nonempty [simp]: "decimal n \<noteq> []" and hexadecimal_nonempty [simp]: "hexadecimal n \<noteq> []"
  by (simp_all add: decimal_def hexadecimal_def digit_text_def)

section \<open>Numbers read back\<close>

lemma scan_decimal: "stops r \<Longrightarrow> scan_number False None (decimal n @ r) = Some (False, n, r)"
  unfolding decimal_def by (rule scan_digits [OF text_of_decimal])

lemma scan_hexadecimal: "stops r \<Longrightarrow> scan_number True None (hexadecimal n @ r) = Some (False, n, r)"
  unfolding hexadecimal_def by (rule scan_digits [OF text_of_hexadecimal])

lemma decimal_inject: "stops r \<Longrightarrow> stops r' \<Longrightarrow> decimal m @ r = decimal n @ r' \<longleftrightarrow> m = n \<and> r = r'"
  by (metis scan_decimal option.inject prod.inject)

lemma hexadecimal_inject: "stops r \<Longrightarrow> stops r' \<Longrightarrow> hexadecimal m @ r = hexadecimal n @ r' \<longleftrightarrow> m = n \<and> r = r'"
  by (metis scan_hexadecimal option.inject prod.inject)

lemma decimal_no_minus: "decimal n @ r \<noteq> CHR ''-'' # s"
  using decimal_chars [of "CHR ''-''" n] by (cases "decimal n") (auto simp: isdigit_def)

lemma signed_decimal_inject:
  "stops r \<Longrightarrow> stops r' \<Longrightarrow> signed_decimal y @ r = signed_decimal z @ r' \<longleftrightarrow> y = z \<and> r = r'"
  using decimal_no_minus [of "nat y" r] decimal_no_minus [of "nat z" r']
  by (cases "y < 0"; cases "z < 0") (auto simp: signed_decimal_def decimal_inject dest: sym)

text \<open>A padded text is the text of the digits with leading zeros.\<close>

lemma fmt_x_text: "\<exists>ds. fmt_x w v = digit_text ds \<and> text_of True ds (unat v)"
proof -
  have "digits_value 16 (replicate j 0 @ ds) = digits_value 16 ds" for j ds
    by (induction j) (simp_all add: digits_value_def)
  moreover have "replicate j CHR ''0'' = digit_text (replicate j 0)" for j
    by (induction j) (simp_all add: digit_text_def hex_char_def)
  ultimately have "fmt_x w v = digit_text (replicate (w - length (hexadecimal (unat v))) 0 @ digits_of 16 (unat v)) \<and>
      text_of True (replicate (w - length (hexadecimal (unat v))) 0 @ digits_of 16 (unat v)) (unat v)"
    using text_of_hexadecimal [of "unat v"]
    by (simp add: fmt_x_def zero_padded_def hexadecimal_def digit_text_def text_of_def list_all_iff
        hex_char_def ball_Un)
  then show ?thesis by blast
qed

lemma scan_fmt_x: "stops r \<Longrightarrow> scan_number True None (fmt_x w v @ r) = Some (False, unat v, r)"
  using fmt_x_text [of w v] scan_digits by metis

lemma fmt_x_inject:
  assumes "stops r" "stops r'"
  shows "fmt_x w u @ r = fmt_x w v @ r' \<longleftrightarrow> u = v \<and> r = r'"
proof
  assume "fmt_x w u @ r = fmt_x w v @ r'"
  then have "Some (False, unat u, r) = Some (False, unat v, r')"
    by (metis assms scan_fmt_x)
  then show "u = v \<and> r = r'" by (simp add: word_unat_eq_iff)
qed simp

end
