(* ===== verification/Elf_File.thy ===== *)
theory Elf_File
  imports Memory_Sys Format
begin

text \<open>
  The layer over libelf, \<open>src/libelf_interface.c\<close>: the table of section names, the reader that hands
  out one section after the other, and the writer that collects sections. libelf and the file system
  are outside: \<open>elf_lib\<close> says what a file name opens as for reading (\<open>elf_file\<close>, the view libelf
  gives of it) and which of its calls succeed for writing (\<open>elf_target\<close>). Messages are left out, and so
  is the freeing of the descriptor by \<open>elfio_abort\<close>, after which no caller touches it.
\<close>

unbundle bit_operations_syntax

section \<open>C strings\<close>

text \<open>A pointer into an array of characters is the rest of the array from there on.\<close>

definition c_string :: "string \<Rightarrow> string option" where
  "c_string s = (if CHR 0x00 \<in> set s then Some (takeWhile (\<lambda>c. c \<noteq> CHR 0x00) s) else None)"

text \<open>\<open>strncmp\<close> gives 0, for strings without their terminators.\<close>

definition strncmp_eq :: "string \<Rightarrow> string \<Rightarrow> nat \<Rightarrow> bool" where
  "strncmp_eq s t n \<longleftrightarrow> take n s = take n t"

section \<open>The table of section names\<close>

record string_table =
  snames :: string
  nbytes :: nat

definition init_string_table :: string_table where
  "init_string_table = \<lparr>snames = [CHR 0x00], nbytes = 1\<rparr>"

definition add_section_name :: "string_table \<Rightarrow> string \<Rightarrow> nat \<times> string_table" where
  "add_section_name stab secname =
     (let sname_offset = nbytes stab
      in (sname_offset, stab\<lparr>snames := take sname_offset (snames stab) @ secname @ [CHR 0x00],
                             nbytes := nbytes stab + length secname + 1\<rparr>))"

section \<open>Files as libelf shows them\<close>

record elf_shdr =
  sh_name :: u32
  sh_type :: u32
  sh_flags :: u64
  sh_addr :: u64
  sh_size :: u64

text \<open>
  A section: its header, unless that cannot be had, and the pieces of data \<open>elf_getdata\<close> hands out
  one by one, \<open>None\<close> for a piece without a buffer.
\<close>

record elf_section =
  sec_hdr :: "elf_shdr option"
  sec_data :: "buffer option list"

record strtab_data =
  d_off :: nat
  d_size :: nat
  d_buf :: "string option"

text \<open>
  The view of a file: whether it can be opened, whether libelf makes a descriptor of it, whether it is
  an ELF file and has an index of the string table, the section at that index with its data (\<open>None\<close> for
  no such section, \<open>Some None\<close> for one without data), the number of sections in the header, if there is
  one, and the sections in the order of \<open>elf_nextscn\<close>.
\<close>

record elf_file =
  f_opens :: bool
  f_begins :: bool
  f_is_elf :: bool
  f_has_strndx :: bool
  f_strtab :: "strtab_data option option"
  f_e_shnum :: "16 word option"
  f_sections :: "elf_section list"

text \<open>What can fail for writing; \<open>t_section k\<close> says whether the \<open>k\<close>-th section with its data and header can be made.\<close>

record elf_target =
  t_opens :: bool
  t_begins :: bool
  t_ehdr :: bool
  t_phdr :: bool
  t_section :: "nat \<Rightarrow> bool"
  t_update :: bool

record elf_lib =
  elf_version_ok :: bool
  file_of :: "string \<Rightarrow> elf_file"
  target_of :: "string \<Rightarrow> elf_target"

definition SHT_PROGBITS :: u32 where "SHT_PROGBITS = 1"
definition SHT_STRTAB :: u32 where "SHT_STRTAB = 3"
definition SHT_NOBITS :: u32 where "SHT_NOBITS = 8"
definition SHT_INIT_ARRAY :: u32 where "SHT_INIT_ARRAY = 14"
definition SHT_FINI_ARRAY :: u32 where "SHT_FINI_ARRAY = 15"

definition SHF_ALLOC :: u64 where "SHF_ALLOC = 2"
definition SHF_EXECINSTR :: u64 where "SHF_EXECINSTR = 4"
definition SHF_STRINGS :: u64 where "SHF_STRINGS = 0x20"

definition ELFDATA2LSB :: u8 where "ELFDATA2LSB = 1"
definition EM_RISCV :: "16 word" where "EM_RISCV = 243"
definition ET_EXEC :: "16 word" where "ET_EXEC = 2"
definition EV_CURRENT :: u32 where "EV_CURRENT = 1"
definition PT_PHDR :: u32 where "PT_PHDR = 6"

section \<open>The descriptor\<close>

record elf_ehdr =
  e_data :: u8
  e_machine :: "16 word"
  e_type :: "16 word"
  e_version :: u32
  e_entry :: u64

text \<open>
  \<open>scn\<close> is the position of the section read last, \<open>e_sections\<close> what the writer has made so far.
\<close>

record elf_data =
  filename :: string
  ehdr :: "elf_ehdr option"
  scn :: "nat option"
  section_count :: nat
  section_names :: string_table
  for_write :: bool
  e_sections :: "elf_section list"

text \<open>What is written to the file.\<close>

record elf_image =
  im_ehdr :: elf_ehdr
  im_p_type :: u32
  im_sections :: "elf_section list"
  im_shstrndx :: nat

section \<open>Opening\<close>

text \<open>All failures have the code -1; a file name must fit its buffer.\<close>

definition elfio_init_for_write :: "elf_target \<Rightarrow> u64 \<Rightarrow> elf_data \<Rightarrow> int \<times> elf_data" where
  "elfio_init_for_write t entry_point ed =
     (if \<not> t_opens t then (-1, ed)
      else if \<not> t_begins t then (-1, ed)
      else if \<not> t_ehdr t then (-1, ed)
      else
        let ed = ed\<lparr>ehdr := Some \<lparr>e_data = ELFDATA2LSB, e_machine = EM_RISCV, e_type = ET_EXEC,
                                  e_version = EV_CURRENT, e_entry = entry_point\<rparr>\<rparr>
        in if \<not> t_phdr t then (-1, ed) else (0, ed))"

definition elfio_init_for_read :: "elf_file \<Rightarrow> elf_data \<Rightarrow> int \<times> elf_data" where
  "elfio_init_for_read f ed =
     (if \<not> f_opens f then (-1, ed)
      else if \<not> f_begins f then (-1, ed)
      else if \<not> f_is_elf f then (-1, ed)
      else if \<not> f_has_strndx f then (-1, ed)
      else if f_strtab f = None then (-1, ed)
      else case f_e_shnum f of
             None \<Rightarrow> (-1, ed\<lparr>scn := None\<rparr>)
           | Some n \<Rightarrow> (0, ed\<lparr>scn := None, section_count := unat n\<rparr>))"

definition elfio_init :: "elf_lib \<Rightarrow> string \<Rightarrow> bool \<Rightarrow> u64 \<Rightarrow> sim_throw + int \<times> elf_data" where
  "elfio_init lib elf_file_name write entry_point =
     (if 1024 \<le> length elf_file_name then Inl UB
      else
        let ed = \<lparr>filename = elf_file_name, ehdr = None, scn = None, section_count = 0,
                  section_names = init_string_table, for_write = write, e_sections = []\<rparr>
        in if \<not> elf_version_ok lib then Inr (-1, ed)
           else if for_write ed then Inr (elfio_init_for_write (target_of lib (filename ed)) entry_point ed)
           else Inr (elfio_init_for_read (file_of lib (filename ed)) ed))"

definition elf_io_section_count :: "elf_data \<Rightarrow> nat" where
  "elf_io_section_count ed = section_count ed"

section \<open>Reading\<close>

text \<open>The pointer to a name; it is into the first piece of the table's data, which must be there.\<close>

definition elfio_strptr :: "elf_file \<Rightarrow> nat \<Rightarrow> sim_throw + string option" where
  "elfio_strptr f offset =
     (case f_strtab f of
        Some (Some d) \<Rightarrow>
          if d_off d \<le> offset \<and> offset < d_off d + d_size d
          then (case d_buf d of
                  Some b \<Rightarrow> Inr (Some (drop (offset - d_off d) b))
                | None \<Rightarrow> if offset = d_off d then Inr None else Inl UB)
          else Inr None
      | _ \<Rightarrow> Inl UB)"

text \<open>
  The loop over the pieces of a section. The count is an \<open>int\<close> that is compared as an unsigned number of
  64 bits; the buffer is cut or grown to the count and the next piece, and written at the count.
\<close>

fun read_pieces :: "u64 \<Rightarrow> buffer option list \<Rightarrow> buffer \<Rightarrow> int \<Rightarrow> sim_throw + buffer \<times> int" where
  "read_pieces sz (Some c # cs) buf num_bytes =
     (if (word_of_int num_bytes :: u64) < sz
      then if num_bytes < 0 then Inl UB
           else read_pieces sz cs (take (nat num_bytes) buf @ c)
                  (sint (word_of_int (num_bytes + int (length c)) :: u32))
      else Inr (buf, num_bytes))"
| "read_pieces sz cs buf num_bytes = Inr (buf, num_bytes)"

text \<open>\<open>elf_nextscn\<close>: from no section on, the first one.\<close>

definition elf_nextscn :: "elf_file \<Rightarrow> nat option \<Rightarrow> nat option" where
  "elf_nextscn f s =
     (let k = (case s of None \<Rightarrow> 0 | Some i \<Rightarrow> Suc i) in if k < length (f_sections f) then Some k else None)"

text \<open>What \<open>elfio_read_next_section\<close> stores through its arguments, the address only when there is a section.\<close>

record section_read =
  rs_name :: string
  rs_address :: u64
  rs_is_data :: bool
  rs_dbuf :: buffer
  rs_size :: int
  rs_done :: bool

definition no_section :: section_read where
  "no_section = \<lparr>rs_name = [], rs_address = 0, rs_is_data = False, rs_dbuf = [], rs_size = 0, rs_done = True\<rparr>"

definition is_data_type :: "u32 \<Rightarrow> bool" where
  "is_data_type t \<longleftrightarrow> t = SHT_PROGBITS \<or> t = SHT_NOBITS \<or> t = SHT_INIT_ARRAY \<or> t = SHT_FINI_ARRAY"

text \<open>
  The outcome \<open>Inr None\<close> is the code -1. The name is copied to a buffer of 1024 characters, from a
  table that must have its terminator.
\<close>

definition elfio_read_next_section :: "elf_file \<Rightarrow> (elf_data, sim_throw, section_read option) smx" where
  "elfio_read_next_section f ed =
     (let ed = ed\<lparr>scn := elf_nextscn f (scn ed)\<rparr>
      in case scn ed of
           None \<Rightarrow> (Inr (Some no_section), ed)
         | Some k \<Rightarrow>
             (case sec_hdr (f_sections f ! k) of
                None \<Rightarrow> (Inr None, ed)
              | Some shdr \<Rightarrow>
                  (case elfio_strptr f (unat (sh_name shdr)) of
                     Inl e \<Rightarrow> (Inl e, ed)
                   | Inr None \<Rightarrow> (Inr None, ed)
                   | Inr (Some name_ptr) \<Rightarrow>
                       (case read_pieces (sh_size shdr) (sec_data (f_sections f ! k)) [] 0 of
                          Inl e \<Rightarrow> (Inl e, ed)
                        | Inr (buf, num_bytes) \<Rightarrow>
                            (case c_string name_ptr of
                               None \<Rightarrow> (Inl UB, ed)
                             | Some name \<Rightarrow>
                                 if 1024 \<le> length name then (Inl UB, ed)
                                 else (Inr (Some \<lparr>rs_name = name, rs_address = sh_addr shdr,
                                         rs_is_data = is_data_type (sh_type shdr), rs_dbuf = buf,
                                         rs_size = num_bytes, rs_done = False\<rparr>), ed))))))"

section \<open>Writing\<close>

definition elfio_add_section :: "elf_target \<Rightarrow> u64 \<Rightarrow> bool \<Rightarrow> buffer \<Rightarrow> elf_data \<Rightarrow> int \<times> elf_data" where
  "elfio_add_section t address is_data dbuf ed =
     (if \<not> t_section t (length (e_sections ed)) then (-1, ed)
      else
        let n = section_count ed + 1;
            section_name = ''.'' @ (if is_data then ''data'' else ''text'') @ decimal n;
            (offset, names) = add_section_name (section_names ed) section_name
        in (0, ed\<lparr>section_count := n, section_names := names,
                  e_sections := e_sections ed @
                    [\<lparr>sec_hdr = Some \<lparr>sh_name = of_nat offset, sh_type = SHT_PROGBITS,
                                     sh_flags = SHF_ALLOC OR SHF_EXECINSTR, sh_addr = address, sh_size = 0\<rparr>,
                      sec_data = [Some dbuf]\<rparr>]\<rparr>))"

text \<open>
  The end of writing: the table of names becomes the last section. Sections have their indices from 1 on.
  When the file cannot be written the process exits.
\<close>

datatype elf_stop = Exit int | Throw sim_throw

definition EX_SOFTWARE :: int where "EX_SOFTWARE = 70"

definition chars_bytes :: "string \<Rightarrow> buffer" where
  "chars_bytes s = map (\<lambda>c. of_nat (of_char c)) s"

definition elf_writer_fini :: "elf_target \<Rightarrow> elf_data \<Rightarrow> elf_stop + int \<times> elf_image option" where
  "elf_writer_fini t ed =
     (if \<not> t_section t (length (e_sections ed)) then Inr (-1, None)
      else
        let (offset, names) = add_section_name (section_names ed) ''.shstrtab'';
            sections = e_sections ed @
              [\<lparr>sec_hdr = Some \<lparr>sh_name = of_nat offset, sh_type = SHT_STRTAB, sh_flags = SHF_STRINGS OR SHF_ALLOC,
                               sh_addr = 0, sh_size = 0\<rparr>,
                sec_data = [Some (chars_bytes (take (nbytes names) (snames names)))]\<rparr>]
        in if \<not> t_update t then Inl (Exit EX_SOFTWARE)
           else Inr (0, Some \<lparr>im_ehdr = the (ehdr ed), im_p_type = PT_PHDR, im_sections = sections,
                              im_shstrndx = length sections\<rparr>))"

definition elf_reader_fini :: "elf_data \<Rightarrow> int" where
  "elf_reader_fini ed = 0"

definition elfio_fini :: "elf_lib \<Rightarrow> elf_data \<Rightarrow> elf_stop + int \<times> elf_image option" where
  "elfio_fini lib ed =
     (if for_write ed then elf_writer_fini (target_of lib (filename ed)) ed else Inr (elf_reader_fini ed, None))"

section \<open>Names and their offsets\<close>

text \<open>
  What a table of names promises a client: a name is found at the offset it was added with, from then
  on for ever.
\<close>

locale name_store =
  fixes inv :: "'t \<Rightarrow> bool"
    and plain :: "'n \<Rightarrow> bool"
    and add :: "'t \<Rightarrow> 'n \<Rightarrow> 'o \<times> 't"
    and lookup :: "'t \<Rightarrow> 'o \<Rightarrow> 'n option"
  assumes add_inv: "inv t \<Longrightarrow> plain s \<Longrightarrow> add t s = (off, t') \<Longrightarrow> inv t'"
    and lookup_new: "inv t \<Longrightarrow> plain s \<Longrightarrow> add t s = (off, t') \<Longrightarrow> lookup t' off = Some s"
    and lookup_old: "inv t \<Longrightarrow> plain s \<Longrightarrow> add t s = (off, t') \<Longrightarrow> lookup t k = Some r \<Longrightarrow> lookup t' k = Some r"
begin

lemma all_found:
  assumes "inv t" "plain s" "add t s = (off, t')" "list_all2 (\<lambda>k r. lookup t k = Some r) ks rs"
  shows "list_all2 (\<lambda>k r. lookup t' k = Some r) (ks @ [off]) (rs @ [s])"
proof (rule list_all2_appendI)
  show "list_all2 (\<lambda>k r. lookup t' k = Some r) ks rs"
    by (rule list_all2_mono [OF assms(4)]) (rule lookup_old [OF assms(1-3)])
  show "list_all2 (\<lambda>k r. lookup t' k = Some r) [off] [s]"
    using lookup_new [OF assms(1-3)] by simp
qed

end

definition wf_names :: "string_table \<Rightarrow> bool" where
  "wf_names st \<longleftrightarrow> nbytes st = length (snames st)"

definition plain_name :: "string \<Rightarrow> bool" where
  "plain_name s \<longleftrightarrow> CHR 0x00 \<notin> set s"

definition name_at :: "string_table \<Rightarrow> nat \<Rightarrow> string option" where
  "name_at st k = c_string (drop k (snames st))"

lemma c_string_append: "c_string s = Some r \<Longrightarrow> c_string (s @ t) = Some r"
  by (auto simp: c_string_def split: if_splits)

lemma c_string_plain: "plain_name s \<Longrightarrow> c_string (s @ [CHR 0x00]) = Some s"
  by (simp add: c_string_def plain_name_def takeWhile_append)

lemma c_string_nonempty: "c_string (drop k s) = Some r \<Longrightarrow> k < length s"
  by (rule ccontr) (simp add: c_string_def)

interpretation section_names_table: name_store wf_names plain_name add_section_name name_at
proof
  fix t s off t'
  assume t: "wf_names t" "plain_name s" "add_section_name t s = (off, t')"
  then have new: "off = length (snames t)" "snames t' = snames t @ s @ [CHR 0x00]"
    by (auto simp: add_section_name_def wf_names_def Let_def)
  show "wf_names t'" using t by (auto simp: add_section_name_def wf_names_def Let_def)
  show "name_at t' off = Some s" using c_string_plain [OF t(2)] by (simp add: name_at_def new)
  fix k r
  assume "name_at t k = Some r"
  then show "name_at t' k = Some r"
    using c_string_append [of "drop k (snames t)" r "s @ [CHR 0x00]"] c_string_nonempty [of k "snames t" r]
    by (simp add: name_at_def new)
qed

lemma wf_init_string_table [simp]: "wf_names init_string_table"
  by (simp add: wf_names_def init_string_table_def)

lemma nbytes_add: "add_section_name st s = (off, st') \<Longrightarrow> nbytes st' = nbytes st + length s + 1 \<and> off = nbytes st"
  by (auto simp: add_section_name_def Let_def)

lemma plain_section_name: "plain_name (''.'' @ (if d then ''data'' else ''text'') @ decimal n)"
  using decimal_chars [of "CHR 0x00" n] by (auto simp: plain_name_def isdigit_def)

section \<open>Sections and their contents\<close>

text \<open>The bytes of a section: its pieces up to the first one without a buffer.\<close>

definition contents :: "elf_section \<Rightarrow> buffer" where
  "contents s = concat (map the (takeWhile (\<lambda>c. c \<noteq> None) (sec_data s)))"

lemma read_pieces_all:
  assumes "length buf + length (concat (map the (takeWhile (\<lambda>c. c \<noteq> None) cs))) \<le> unat sz"
    "length buf + length (concat (map the (takeWhile (\<lambda>c. c \<noteq> None) cs))) < 2 ^ 31"
  shows "read_pieces sz cs buf (int (length buf)) =
    Inr (buf @ concat (map the (takeWhile (\<lambda>c. c \<noteq> None) cs)),
         int (length buf + length (concat (map the (takeWhile (\<lambda>c. c \<noteq> None) cs)))))"
  using assms
proof (induction cs arbitrary: buf)
  case (Cons c cs)
  show ?case
  proof (cases c)
    case (Some b)
    let ?rest = "concat (map the (takeWhile (\<lambda>c. c \<noteq> None) cs))"
    have short: "length buf + length b < 2 ^ 31" using Cons.prems(2) Some by simp
    have s: "sint (word_of_int (int (length buf) + int (length b)) :: u32) = int (length (buf @ b))"
      using short sint_sbintrunc' [of "int (length buf + length b)", where ?'a = 32]
      by (simp add: signed_take_bit_int_eq_self)
    show ?thesis
    proof (cases "(word_of_int (int (length buf)) :: u64) < sz")
      case True
      then show ?thesis using Cons.IH [of "buf @ b"] Cons.prems Some s by (simp add: ac_simps)
    next
      case False
      then have "unat sz \<le> unat (of_nat (length buf) :: u64)" by (simp add: not_less word_le_nat_alt)
      also have "\<dots> \<le> length buf" by (simp add: unat_of_nat)
      finally have "unat sz \<le> length buf" .
      moreover have "length buf + (length b + length ?rest) \<le> unat sz" using Cons.prems(1) Some by simp
      ultimately have "length b + length ?rest = 0" by linarith
      then have "b = [] \<and> ?rest = []" unfolding add_is_0 length_0_conv .
      then show ?thesis using False Some by simp
    qed
  qed simp
qed simp

text \<open>A section that can be read: it has a header and a name that fits, and not more data than the header says.\<close>

definition name_of :: "elf_file \<Rightarrow> elf_section \<Rightarrow> string option" where
  "name_of f s =
     (case sec_hdr s of
        None \<Rightarrow> None
      | Some h \<Rightarrow>
          (case elfio_strptr f (unat (sh_name h)) of
             Inr (Some ptr) \<Rightarrow>
               (case c_string ptr of None \<Rightarrow> None | Some name \<Rightarrow> if length name < 1024 then Some name else None)
           | _ \<Rightarrow> None))"

definition readable :: "elf_file \<Rightarrow> elf_section \<Rightarrow> bool" where
  "readable f s \<longleftrightarrow> name_of f s \<noteq> None \<and> length (contents s) < 2 ^ 31 \<and>
     (case sec_hdr s of None \<Rightarrow> False | Some h \<Rightarrow> length (contents s) \<le> unat (sh_size h))"

text \<open>Reading one section after the other, and none after the last.\<close>

definition before :: "nat \<Rightarrow> nat option" where
  "before k = (if k = 0 then None else Some (k - 1))"

lemma read_section:
  assumes "scn ed = before k" "k < length (f_sections f)" "readable f (f_sections f ! k)"
  obtains h name where "sec_hdr (f_sections f ! k) = Some h" "name_of f (f_sections f ! k) = Some name"
    "elfio_read_next_section f ed =
       (Inr (Some \<lparr>rs_name = name, rs_address = sh_addr h, rs_is_data = is_data_type (sh_type h),
          rs_dbuf = contents (f_sections f ! k), rs_size = int (length (contents (f_sections f ! k))), rs_done = False\<rparr>),
        ed\<lparr>scn := before (Suc k)\<rparr>)"
proof -
  let ?s = "f_sections f ! k"
  obtain h name ptr where h: "sec_hdr ?s = Some h" "name_of f ?s = Some name" "elfio_strptr f (unat (sh_name h)) = Inr (Some ptr)"
    "c_string ptr = Some name" "length name < 1024" "length (contents ?s) \<le> unat (sh_size h)" "length (contents ?s) < 2 ^ 31"
    using assms(3) by (auto simp: readable_def name_of_def split: option.splits sum.splits if_splits)
  have "read_pieces (sh_size h) (sec_data ?s) [] 0 = Inr (contents ?s, int (length (contents ?s)))"
    using read_pieces_all [of "[]" "sec_data ?s" "sh_size h"] h(6,7) by (simp add: contents_def)
  then show thesis
    using assms(1,2) h by (intro that [of h name]) (simp_all add: elfio_read_next_section_def elf_nextscn_def before_def split: if_splits)
qed

lemma read_after_last:
  "scn ed = before (length (f_sections f)) \<Longrightarrow>
    elfio_read_next_section f ed = (Inr (Some no_section), ed\<lparr>scn := None\<rparr>)"
  by (simp add: elfio_read_next_section_def elf_nextscn_def before_def split: if_splits)

end
