(* ===== verification/Elf_IO.thy ===== *)
theory Elf_IO
  imports Elf_File
begin

text \<open>
  Class \<open>ELFIO\<close>, \<open>include/elfio.h\<close> and \<open>src/elfio.C\<close>: loading a program into simulator memory and saving
  the memory as an ELF file, with the choice of a block size for large memories. \<open>verbose\<close> is false, as the
  simulator passes it; messages are left out.
\<close>

unbundle bit_operations_syntax

section \<open>Load\<close>

text \<open>Whole blocks first; a simulator exception ends the loop with the code -1 and the offset reached.\<close>

fun load_blocks :: "u64 \<Rightarrow> buffer \<Rightarrow> nat \<Rightarrow> nat \<Rightarrow> (platform, sim_throw, int \<times> nat) smx" where
  "load_blocks address section_data 0 block_offset p = (Inr (0, block_offset), p)"
| "load_blocks address section_data (Suc n) block_offset p =
     (case WritePhysicalMemory (address + of_nat block_offset) PM_BLOCK_SIZE (drop block_offset section_data) False True p of
        (Inl (SimExc e), p) \<Rightarrow> (Inr (-1, block_offset), p)
      | (Inl e, p) \<Rightarrow> (Inl e, p)
      | (Inr _, p) \<Rightarrow> load_blocks address section_data n (block_offset + 32) p)"

text \<open>
  The address is brought into physical memory first, outside of any \<open>try\<close>. The bytes after the last whole block
  are written whether or not the blocks were.
\<close>

definition load_section :: "u64 \<Rightarrow> buffer \<Rightarrow> int \<Rightarrow> (platform, sim_throw, int) smx" where
  "load_section address section_data size_in_bytes p =
     (case ValidatePhysicalMemoryAddress address False (memory p) of
        Inl e \<Rightarrow> (Inl e, p)
      | Inr address \<Rightarrow>
          (case load_blocks address section_data (nat (size_in_bytes div PM_BLOCK_SIZE)) 0 p of
             (Inl e, p) \<Rightarrow> (Inl e, p)
           | (Inr (rcode, block_offset), p) \<Rightarrow>
               let extra_bytes = size_in_bytes mod PM_BLOCK_SIZE
               in if 0 < extra_bytes
                  then (case WritePhysicalMemory (address + of_nat block_offset) extra_bytes
                               (drop block_offset section_data) False False p of
                          (Inl (SimExc e), p) \<Rightarrow> (Inr (-1), p)
                        | (Inl e, p) \<Rightarrow> (Inl e, p)
                        | (Inr _, p) \<Rightarrow> (Inr rcode, p))
                  else (Inr rcode, p)))"

definition skip_name :: "string \<Rightarrow> bool" where
  "skip_name section_name \<longleftrightarrow>
     strncmp_eq section_name ''.symtab'' 7 \<or> strncmp_eq section_name ''.strtab'' 7 \<or>
     strncmp_eq section_name ''.shstrtab'' 9 \<or> strncmp_eq section_name ''.stab'' 5 \<or>
     strncmp_eq section_name ''.debug_'' 7 \<or> strncmp_eq section_name ''.comment'' 9"

text \<open>
  The loop over as many sections as the header counts. Skipped sections are passed over before the end of the
  sections is looked at. With a load address, a single section without an address of its own is loaded there.
\<close>

fun load_loop :: "elf_file \<Rightarrow> u64 \<Rightarrow> nat \<Rightarrow> nat \<Rightarrow> elf_data \<Rightarrow> (platform, sim_throw, int) smx" where
  "load_loop f load_address 0 section_load_count ed p = (Inr 0, p)"
| "load_loop f load_address (Suc n) section_load_count ed p =
     (case elfio_read_next_section f ed of
        (Inl e, ed) \<Rightarrow> (Inl e, p)
      | (Inr None, ed) \<Rightarrow> (Inr (-1), p)
      | (Inr (Some r), ed) \<Rightarrow>
          if skip_name (rs_name r) \<or> \<not> rs_is_data r \<or> rs_size r \<le> 0
          then load_loop f load_address n section_load_count ed p
          else if rs_done r then (Inr 0, p)
          else
            let use_load_address = (load_address \<noteq> -1);
                address = (if use_load_address \<and> rs_address r = 0 then load_address else rs_address r)
            in if use_load_address \<and> rs_address r \<noteq> 0 then (Inr (-1), p)
               else if use_load_address \<and> section_load_count + 1 > 1 then (Inr (-1), p)
               else
                 case load_section address (rs_dbuf r) (rs_size r) p of
                   (Inl e, p) \<Rightarrow> (Inl e, p)
                 | (Inr rcode, p) \<Rightarrow>
                     if rcode \<noteq> 0 then (Inr rcode, p)
                     else load_loop f load_address n (section_load_count + 1) ed p)"

definition Load_at :: "elf_lib \<Rightarrow> string \<Rightarrow> u64 \<Rightarrow> (platform, sim_throw, int) smx" where
  "Load_at lib elf_file load_address p =
     (case elfio_init lib elf_file False 0 of
        Inl e \<Rightarrow> (Inl e, p)
      | Inr (rcode, ed) \<Rightarrow>
          if rcode \<noteq> 0 then (Inr rcode, p)
          else load_loop (file_of lib elf_file) load_address (elf_io_section_count ed) 0 ed p)"

definition Load :: "elf_lib \<Rightarrow> string \<Rightarrow> (platform, sim_throw, int) smx" where
  "Load lib elf_file = Load_at lib elf_file (-1)"

section \<open>The size of blocks\<close>

text \<open>The blocks of a list of addresses, next to each other merged; the first block at address 0 is not seen.\<close>

fun merged_blocks :: "u64 \<Rightarrow> u64 \<Rightarrow> u64 list \<Rightarrow> u64 list" where
  "merged_blocks block_address_mask current_block_address [] = []"
| "merged_blocks block_address_mask current_block_address (a # as) =
     (let next_block_addr = a AND block_address_mask
      in if next_block_addr \<noteq> current_block_address
         then next_block_addr # merged_blocks block_address_mask next_block_addr as
         else merged_blocks block_address_mask current_block_address as)"

definition block_mask :: "nat \<Rightarrow> u64" where
  "block_mask bits = NOT (push_bit bits 1 - 1)"

definition estimateELFFileSize :: "u64 list \<Rightarrow> nat \<Rightarrow> u64 \<times> nat" where
  "estimateELFFileSize program_block_addresses desired_block_size =
     (let elf_block_addresses = merged_blocks (block_mask desired_block_size) 0 program_block_addresses
      in (push_bit desired_block_size 1 * of_nat (length elf_block_addresses), length elf_block_addresses))"

definition ELF_MAX_SECTIONS :: nat where "ELF_MAX_SECTIONS = 0xff00"

definition PM_BLOCK_SIZE_LOG2 :: nat where "PM_BLOCK_SIZE_LOG2 = 5"

fun trial_loop :: "nat list \<Rightarrow> u64 list \<Rightarrow> nat \<times> nat \<Rightarrow> nat \<times> nat" where
  "trial_loop [] test_block_addresses res = res"
| "trial_loop (t # ts) test_block_addresses res =
     (if t = 0 then res
      else
        let resulting_block_count = snd (estimateELFFileSize test_block_addresses t)
        in if resulting_block_count < ELF_MAX_SECTIONS then (t, resulting_block_count)
           else trial_loop ts test_block_addresses (t, resulting_block_count))"

definition trial_block_sizes :: "nat list" where
  "trial_block_sizes = [12, 13, 14, 15, 16, 20, 24, 32, 0]"

text \<open>The size in bits and the number of blocks it is expected to give, or \<open>None\<close> for the answer \<open>false\<close>.\<close>

definition ChooseFileBlockSize :: "u64 list \<Rightarrow> (nat \<times> nat) option" where
  "ChooseFileBlockSize test_block_addresses =
     (let res = (PM_BLOCK_SIZE_LOG2, length test_block_addresses)
      in if ELF_MAX_SECTIONS \<le> length test_block_addresses
         then let res = trial_loop trial_block_sizes test_block_addresses res
              in if ELF_MAX_SECTIONS < snd res then None else Some res
         else Some res)"

section \<open>Save\<close>

fun read_defined :: "u64 \<Rightarrow> nat \<Rightarrow> (platform, sim_throw, buffer) smx" where
  "read_defined a 0 p = (Inr [], p)"
| "read_defined a (Suc n) p =
     (case ReadPhysicalMemory a 1 (replicate 128 0) True True p of
        (Inl e, p) \<Rightarrow> (Inl e, p)
      | (Inr (rcode, tbuf), p) \<Rightarrow>
          (case read_defined (a + 1) n p of
             (Inl e, p) \<Rightarrow> (Inl e, p)
           | (Inr bs, p) \<Rightarrow> (Inr ((if rcode = ALL_BYTES_DEFINED then tbuf ! 0 else 0) # bs), p)))"

text \<open>The data of a section: a block as it is in the store, or larger sections byte by byte, 0 where nothing is defined.\<close>

definition section_bytes :: "u64 \<Rightarrow> int \<Rightarrow> bool \<Rightarrow> (platform, sim_throw, buffer) smx" where
  "section_bytes section_address section_size is_data p =
     (if section_size \<le> PM_BLOCK_SIZE
      then (case Memory_ReadInitialState section_address is_data (memory p) of
              (Inl e, m) \<Rightarrow> (Inl e, p\<lparr>memory := m\<rparr>)
            | (Inr out, m) \<Rightarrow> (Inr (put_bytes 0 out (replicate (nat section_size) 0)), p\<lparr>memory := m\<rparr>))
      else read_defined section_address (nat section_size) p)"

fun save_loop :: "elf_target \<Rightarrow> int \<Rightarrow> u64 list \<Rightarrow> elf_data \<Rightarrow> (platform, sim_throw, int \<times> elf_data) smx" where
  "save_loop t file_block_size [] ed p = (Inr (0, ed), p)"
| "save_loop t file_block_size (section_address # as) ed p =
     (if section_address AND word_of_int (file_block_size - 1) \<noteq> 0 then (Inr (-1, ed), p)
      else
        let is_data = (InvalidRegionAccess section_address False \<noteq> 0)
        in case section_bytes section_address file_block_size is_data p of
             (Inl e, p) \<Rightarrow> (Inl e, p)
           | (Inr section_data, p) \<Rightarrow>
               (case elfio_add_section t section_address is_data section_data ed of
                  (rcode, ed) \<Rightarrow>
                    if rcode \<noteq> 0 then (Inr (rcode, ed), p)
                    else save_loop t file_block_size as ed p))"

definition SaveToELF ::
    "elf_lib \<Rightarrow> string \<Rightarrow> u64 list \<Rightarrow> int \<Rightarrow> u64 \<Rightarrow> platform \<Rightarrow> (elf_stop + int \<times> elf_image option) \<times> platform" where
  "SaveToELF lib elf_file file_block_addresses file_block_size entry_point p =
     (case elfio_init lib elf_file True entry_point of
        Inl e \<Rightarrow> (Inl (Throw e), p)
      | Inr (rcode, ed) \<Rightarrow>
          if rcode \<noteq> 0 then (Inr (rcode, None), p)
          else
            (case save_loop (target_of lib elf_file) file_block_size file_block_addresses ed p of
               (Inl e, p) \<Rightarrow> (Inl (Throw e), p)
             | (Inr (rcode, ed), p) \<Rightarrow>
                 if rcode \<noteq> 0 then (Inr (rcode, None), p) else (elfio_fini lib ed, p)))"

text \<open>The size of a block in bytes is computed as an \<open>int\<close>, which has no bit 31 to shift to.\<close>

definition Save ::
    "elf_lib \<Rightarrow> string \<Rightarrow> u64 \<Rightarrow> bool \<Rightarrow> platform \<Rightarrow> (elf_stop + int \<times> elf_image option) \<times> platform" where
  "Save lib elf_file entry_point compress p =
     (let test_block_addresses = TestBlockAddresses [] (memory p)
      in if compress then SaveToELF lib elf_file test_block_addresses PM_BLOCK_SIZE entry_point p
         else
           case ChooseFileBlockSize test_block_addresses of
             None \<Rightarrow> (Inr (-1, None), p)
           | Some (bits, n) \<Rightarrow>
               if 31 \<le> bits then (Inl (Throw UB), p)
               else SaveToELF lib elf_file (SetFileBlockAddresses [] test_block_addresses (block_mask bits))
                      (2 ^ bits) entry_point p)"

section \<open>What is in memory after a load\<close>

lemma ram_span_bound:
  assumes "ram_span p a n" "wf_mem p"
  shows "n < 2 ^ 64"
proof -
  have "(2::nat) ^ size_in_bits (memory p) < 2 ^ 64" using assms(2) by (intro power_strict_increasing) (simp_all add: wf_mem_def)
  then show ?thesis using assms(1) by (simp add: ram_span_def)
qed

lemma load_blocks_ram:
  assumes "wf_mem p" "ram_span p a (length bs)" "off + 32 * n \<le> length bs"
  shows "\<exists>p'. load_blocks a bs n off p = (Inr (0, off + 32 * n), p') \<and> same_setup p p' \<and> wf_mem p' \<and>
    mem_byte p' = upd_span (mem_byte p) (a + of_nat off) (take (32 * n) (drop off bs))"
  using assms
proof (induction n arbitrary: off p)
  case (Suc n)
  have sp: "ram_span p (a + of_nat off) 32"
    by (rule ram_span_sub [OF Suc.prems(2)]) (use Suc.prems in \<open>simp_all add: wf_mem_def\<close>)
  have le: "32 \<le> length (drop off bs)" using Suc.prems(3) by simp
  obtain p1 where p1: "WritePhysicalMemory (a + of_nat off) (int 32) (drop off bs) False True p = (Inr 0, p1)"
    "same_setup p p1" "wf_mem p1" "mem_byte p1 = upd_span (mem_byte p) (a + of_nat off) (take 32 (drop off bs))"
    by (rule WritePhysicalMemory_front [OF Suc.prems(1) sp order.refl le]) (rule that)
  have "ram_span p1 a (length bs)" "off + 32 + 32 * n \<le> length bs"
    using Suc.prems(2,3) by (simp_all add: ram_span_setup [OF p1(2)])
  from Suc.IH [OF p1(3) this] obtain p2 where p2: "load_blocks a bs n (off + 32) p1 = (Inr (0, off + 32 + 32 * n), p2)" "same_setup p1 p2" "wf_mem p2"
    "mem_byte p2 = upd_span (mem_byte p1) (a + of_nat (off + 32)) (take (32 * n) (drop (off + 32) bs))"
    by blast
  let ?b = "take 32 (drop off bs)" and ?c = "take (32 * n) (drop (off + 32) bs)"
  have lens: "length ?b = 32" "length ?c = 32 * n" using Suc.prems(3) by simp_all
  have "32 + 32 * n < 2 ^ 64"
    by (rule order.strict_trans1 [OF _ ram_span_bound [OF Suc.prems(2,1)]]) (use Suc.prems(3) in simp)
  then have "upd_span (upd_span (mem_byte p) (a + of_nat off) ?b) (a + of_nat off + of_nat (length ?b)) ?c
      = upd_span (mem_byte p) (a + of_nat off) (?b @ ?c)"
    by (intro upd_span_append) (unfold lens, simp_all)
  moreover have "?b @ ?c = take (32 * Suc n) (drop off bs)"
    using take_add [of 32 "32 * n" "drop off bs"] by (simp add: add.commute)
  moreover have "a + of_nat off + of_nat (length ?b) = a + of_nat (off + 32)" unfolding lens(1) by simp
  ultimately have "mem_byte p2 = upd_span (mem_byte p) (a + of_nat off) (take (32 * Suc n) (drop off bs))"
    unfolding p2(4) p1(4) by argo
  moreover have "load_blocks a bs (Suc n) off p = (Inr (0, off + 32 * Suc n), p2)"
    using p1(1) p2(1) by (simp add: PM_BLOCK_SIZE_def)
  ultimately show ?case using p2(3) same_setup_trans [OF p1(2) p2(2)] by blast
qed simp

lemma load_section_ram:
  assumes "wf_mem p" "ram_span p a (length bs)"
  shows "\<exists>p'. load_section a bs (int (length bs)) p = (Inr 0, p') \<and> same_setup p p' \<and> wf_mem p' \<and>
    mem_byte p' = upd_span (mem_byte p) a bs"
proof -
  let ?n = "length bs div 32" and ?r = "length bs mod 32"
  have eq: "32 * ?n + ?r = length bs" by simp
  have ints: "nat (int (length bs) div 32) = ?n" "int (length bs) mod 32 = int ?r" by (simp_all add: nat_div_distrib zmod_int)
  obtain p1 where p1: "load_blocks a bs ?n 0 p = (Inr (0, 32 * ?n), p1)" "same_setup p p1" "wf_mem p1"
    "mem_byte p1 = upd_span (mem_byte p) a (take (32 * ?n) bs)"
    using load_blocks_ram [OF assms, of 0 ?n] by auto
  have v: "ValidatePhysicalMemoryAddress a False (memory p) = Inr a" by (rule ram_span_valid [OF assms(2,1)])
  show ?thesis
  proof (cases "?r = 0")
    case True
    then show ?thesis using v p1 eq by (simp add: load_section_def PM_BLOCK_SIZE_def ints Let_def)
  next
    case False
    have sp: "ram_span p1 (a + of_nat (32 * ?n)) ?r"
      by (rule ram_span_sub [of p1 a "length bs"]) (use assms p1(2,3) False ram_span_setup [OF p1(2)] in \<open>simp_all add: wf_mem_def\<close>)
    have le: "?r \<le> 32" "?r \<le> length (drop (32 * ?n) bs)" by (simp_all add: minus_mult_div_eq_mod)
    obtain p2 where p2: "WritePhysicalMemory (a + of_nat (32 * ?n)) (int ?r) (drop (32 * ?n) bs) False False p1 = (Inr 0, p2)"
      "same_setup p1 p2" "wf_mem p2" "mem_byte p2 = upd_span (mem_byte p1) (a + of_nat (32 * ?n)) (take ?r (drop (32 * ?n) bs))"
      by (rule WritePhysicalMemory_front [OF p1(3) sp le]) (rule that)
    have rest: "take ?r (drop (32 * ?n) bs) = drop (32 * ?n) bs" by (simp add: minus_mult_div_eq_mod)
    have len: "length (take (32 * ?n) bs) = 32 * ?n" by (simp add: min_absorb2)
    have "length bs < 2 ^ 64" by (rule ram_span_bound [OF assms(2,1)])
    then have "upd_span (upd_span (mem_byte p) a (take (32 * ?n) bs)) (a + of_nat (length (take (32 * ?n) bs))) (drop (32 * ?n) bs)
        = upd_span (mem_byte p) a (take (32 * ?n) bs @ drop (32 * ?n) bs)"
      by (intro upd_span_append) (unfold len length_drop, simp_all)
    then have "mem_byte p2 = upd_span (mem_byte p) a bs"
      using p2(4) p1(4) unfolding rest len by simp
    then show ?thesis
      using v p1(1) p2(1,3) same_setup_trans [OF p1(2) p2(2)] False
      by (simp add: load_section_def PM_BLOCK_SIZE_def ints Let_def)
  qed
qed

text \<open>
  The sections that are loaded, and the memory with their bytes put one after the other at their addresses.
\<close>

definition sec_addr :: "elf_section \<Rightarrow> u64" where
  "sec_addr s = sh_addr (the (sec_hdr s))"

definition loaded :: "elf_file \<Rightarrow> elf_section \<Rightarrow> bool" where
  "loaded f s \<longleftrightarrow>
     (case (sec_hdr s, name_of f s) of
        (Some h, Some name) \<Rightarrow> \<not> skip_name name \<and> is_data_type (sh_type h) \<and> contents s \<noteq> []
      | _ \<Rightarrow> False)"

definition loaded_sections :: "elf_file \<Rightarrow> elf_section list" where
  "loaded_sections f = filter (loaded f) (f_sections f)"

definition with_sections :: "elf_section list \<Rightarrow> (u64 \<Rightarrow> u8 option) \<Rightarrow> u64 \<Rightarrow> u8 option" where
  "with_sections ss m = fold (\<lambda>s m. upd_span m (sec_addr s) (contents s)) ss m"

text \<open>A file the reader gets through: all of it can be opened and read, and the header counts the null section too.\<close>

definition wf_file :: "elf_file \<Rightarrow> bool" where
  "wf_file f \<longleftrightarrow> f_opens f \<and> f_begins f \<and> f_is_elf f \<and> f_has_strndx f \<and> f_strtab f \<noteq> None \<and>
     f_e_shnum f = Some (of_nat (Suc (length (f_sections f)))) \<and> Suc (length (f_sections f)) < 2 ^ 16 \<and>
     list_all (readable f) (f_sections f)"

text \<open>Every section that is loaded lies in ordinary memory.\<close>

definition fits :: "platform \<Rightarrow> elf_section list \<Rightarrow> bool" where
  "fits p ss \<longleftrightarrow> list_all (\<lambda>s. ram_span p (sec_addr s) (length (contents s))) ss"

lemma load_loop_sections:
  assumes "drop k (f_sections f) = ss" "k \<le> length (f_sections f)" "scn ed = before k" "list_all (readable f) ss"
    "wf_mem p" "fits p (filter (loaded f) ss)"
  shows "\<exists>p'. load_loop f (-1) (Suc (length ss)) cnt ed p = (Inr 0, p') \<and> same_setup p p' \<and> wf_mem p' \<and>
    mem_byte p' = with_sections (filter (loaded f) ss) (mem_byte p)"
  using assms
proof (induction ss arbitrary: k cnt ed p)
  case Nil
  then have "k = length (f_sections f)" by simp
  then show ?case
    using Nil read_after_last [of ed f] by (simp add: no_section_def with_sections_def)
next
  case (Cons s ss)
  then have k: "k < length (f_sections f)" by (metis drop_all linorder_not_le list.distinct(1))
  then have s: "f_sections f ! k = s" "drop (Suc k) (f_sections f) = ss"
    using Cons.prems(1) by (simp_all add: Cons_nth_drop_Suc [symmetric])
  have rd: "readable f (f_sections f ! k)" using Cons.prems(4) s by simp
  obtain h name where h: "sec_hdr s = Some h" "name_of f s = Some name"
    "elfio_read_next_section f ed =
       (Inr (Some \<lparr>rs_name = name, rs_address = sh_addr h, rs_is_data = is_data_type (sh_type h),
          rs_dbuf = contents s, rs_size = int (length (contents s)), rs_done = False\<rparr>), ed\<lparr>scn := before (Suc k)\<rparr>)"
    by (rule read_section [OF Cons.prems(3) k rd]) (unfold s, rule that)
  let ?ed = "ed\<lparr>scn := before (Suc k)\<rparr>"
  note IH = Cons.IH [where k = "Suc k" and ed = ?ed, OF s(2)]
  show ?case
  proof (cases "loaded f s")
    case False
    then have "load_loop f (-1) (Suc (length (s # ss))) cnt ed p = load_loop f (-1) (Suc (length ss)) cnt ?ed p"
      using h by (auto simp: loaded_def)
    then show ?thesis using IH [of p cnt] Cons.prems k False by simp
  next
    case True
    then have ns: "\<not> skip_name name" "is_data_type (sh_type h)" "contents s \<noteq> []" using h by (auto simp: loaded_def)
    have a: "sec_addr s = sh_addr h" using h by (simp add: sec_addr_def)
    have "ram_span p (sh_addr h) (length (contents s))" using Cons.prems(6) True a by (simp add: fits_def)
    then obtain p1 where p1: "load_section (sh_addr h) (contents s) (int (length (contents s))) p = (Inr 0, p1)"
      "same_setup p p1" "wf_mem p1" "mem_byte p1 = upd_span (mem_byte p) (sh_addr h) (contents s)"
      using load_section_ram [OF Cons.prems(5)] by blast
    have fit: "fits p1 (filter (loaded f) ss)"
      using Cons.prems(6) True by (simp add: fits_def ram_span_setup [OF p1(2)])
    obtain p2 where p2: "load_loop f (-1) (Suc (length ss)) (cnt + 1) ?ed p1 = (Inr 0, p2)" "same_setup p1 p2" "wf_mem p2"
      "mem_byte p2 = with_sections (filter (loaded f) ss) (mem_byte p1)"
      using IH [of p1 "cnt + 1"] Cons.prems(4) k p1(3) fit by auto
    have "load_loop f (-1) (Suc (length (s # ss))) cnt ed p = (Inr 0, p2)"
      using h(3) ns p1(1) p2(1) by (simp del: load_loop.simps add: load_loop.simps(2) [of f "-1" "Suc (length ss)"])
    then show ?thesis
      using p2(3,4) p1(4) same_setup_trans [OF p1(2) p2(2)] True a by (simp add: with_sections_def)
  qed
qed

lemma Load_sections:
  assumes "elf_version_ok lib" "length name < 1024" "wf_file (file_of lib name)" "wf_mem p"
    "fits p (loaded_sections (file_of lib name))"
  shows "\<exists>p'. Load lib name p = (Inr 0, p') \<and> same_setup p p' \<and> wf_mem p' \<and>
    mem_byte p' = with_sections (loaded_sections (file_of lib name)) (mem_byte p)"
proof -
  let ?f = "file_of lib name"
  have n: "unat (of_nat (Suc (length (f_sections ?f))) :: 16 word) = Suc (length (f_sections ?f))"
    using assms(3) by (simp only: wf_file_def) (simp add: unat_of_nat del: of_nat_Suc)
  obtain ed where ed: "elfio_init lib name False 0 = Inr (0, ed)" "scn ed = before 0"
    "section_count ed = Suc (length (f_sections ?f))"
    using assms(1-3) n by (simp add: elfio_init_def elfio_init_for_read_def wf_file_def before_def Let_def)
  have "list_all (readable ?f) (f_sections ?f)" using assms(3) by (simp only: wf_file_def)
  then show ?thesis
    using load_loop_sections [of 0 ?f "f_sections ?f" ed p 0] assms(4,5) ed
    by (simp add: Load_def Load_at_def elf_io_section_count_def loaded_sections_def)
qed

text \<open>
  C5. Loading a file: a file whose sections can all be read is loaded with the code 0, and afterwards memory is
  what it was with the bytes of the sections put at their addresses, one after the other; sections
  without data and those of symbols, strings, debugging and comments are left out. Nothing else of the
  platform changes.
\<close>

theorem elf_load_correct:
  assumes "elf_version_ok lib" "length name < 1024" "wf_file (file_of lib name)" "wf_mem p"
    "fits p (loaded_sections (file_of lib name))"
  shows "\<exists>p'. Load lib name p = (Inr 0, p') \<and> same_setup p p' \<and> wf_mem p' \<and>
    mem_byte p' = with_sections (loaded_sections (file_of lib name)) (mem_byte p)"
  by (rule Load_sections [OF assms])

text \<open>
  A file with four bytes for address 0x1000, in two pieces, beside a section without data and one that is skipped
  by its name.
\<close>

definition demo_names :: string where
  "demo_names = [CHR 0x00] @ ''.text'' @ [CHR 0x00] @ ''.bss'' @ [CHR 0x00] @ ''.comment'' @ [CHR 0x00]"

definition demo_section :: "u32 \<Rightarrow> u32 \<Rightarrow> u64 \<Rightarrow> u64 \<Rightarrow> buffer option list \<Rightarrow> elf_section" where
  "demo_section nm ty a n cs = \<lparr>sec_hdr = Some \<lparr>sh_name = nm, sh_type = ty, sh_flags = 0, sh_addr = a, sh_size = n\<rparr>, sec_data = cs\<rparr>"

definition demo_file :: "buffer \<Rightarrow> elf_file" where
  "demo_file bs =
     \<lparr>f_opens = True, f_begins = True, f_is_elf = True, f_has_strndx = True,
      f_strtab = Some (Some \<lparr>d_off = 0, d_size = length demo_names, d_buf = Some demo_names\<rparr>), f_e_shnum = Some 4,
      f_sections = [demo_section 1 SHT_PROGBITS 0x1000 4 [Some (take 3 bs), Some (drop 3 bs)],
                    demo_section 7 SHT_NOBITS 0x2000 8 [None], demo_section 12 SHT_PROGBITS 0 2 [Some [1, 2]]]\<rparr>"

definition demo_target :: elf_target where
  "demo_target = \<lparr>t_opens = True, t_begins = True, t_ehdr = True, t_phdr = True, t_section = (\<lambda>_. True), t_update = True\<rparr>"

definition demo_libelf :: "elf_file \<Rightarrow> elf_lib" where
  "demo_libelf f = \<lparr>elf_version_ok = True, file_of = (\<lambda>_. f), target_of = (\<lambda>_. demo_target)\<rparr>"

lemma demo_file_sections:
  fixes bs :: buffer
  assumes "length bs = 4"
  defines "text_section \<equiv> demo_section 1 SHT_PROGBITS 0x1000 4 [Some (take 3 bs), Some (drop 3 bs)]"
  shows "wf_file (demo_file bs)" "loaded_sections (demo_file bs) = [text_section]"
    "sec_addr text_section = 0x1000" "contents text_section = bs"
proof -
  show c: "contents text_section = bs"
    by (simp add: contents_def text_section_def demo_section_def)
  let ?bss = "demo_section 7 SHT_NOBITS 0x2000 8 [None]" and ?comment = "demo_section 12 SHT_PROGBITS 0 2 [Some [1, 2]]"
  have other: "contents ?bss = []" "contents ?comment = [1, 2]" by (simp_all add: contents_def demo_section_def)
  have names: "name_of (demo_file bs) text_section = Some ''.text''" "name_of (demo_file bs) ?bss = Some ''.bss''"
    "name_of (demo_file bs) ?comment = Some ''.comment''"
    by (simp_all add: name_of_def text_section_def demo_section_def elfio_strptr_def demo_file_def Let_def demo_names_def c_string_def)
  have hdr: "sec_hdr text_section = Some \<lparr>sh_name = 1, sh_type = SHT_PROGBITS, sh_flags = 0, sh_addr = 0x1000, sh_size = 4\<rparr>"
    by (simp add: text_section_def demo_section_def)
  have sections: "f_sections (demo_file bs) = [text_section, ?bss, ?comment]"
    by (simp add: demo_file_def text_section_def)
  show "sec_addr text_section = 0x1000" by (simp add: sec_addr_def hdr)
  have "readable (demo_file bs) text_section" using names(1) assms(1) by (simp add: readable_def c hdr)
  moreover have "readable (demo_file bs) ?bss" "readable (demo_file bs) ?comment"
    using names(2,3) by (simp_all add: readable_def other) (simp_all add: demo_section_def contents_def)
  ultimately show "wf_file (demo_file bs)"
    by (simp add: wf_file_def sections) (simp add: demo_file_def)
  have "loaded (demo_file bs) text_section"
    using names(1) c assms(1) by (auto simp: loaded_def hdr skip_name_def strncmp_eq_def is_data_type_def)
  moreover have "\<not> loaded (demo_file bs) ?bss" "\<not> loaded (demo_file bs) ?comment"
    using names(2,3) by (auto simp: loaded_def other skip_name_def strncmp_eq_def split: option.splits)
  ultimately show "loaded_sections (demo_file bs) = [text_section]"
    by (simp add: loaded_sections_def sections)
qed

theorem elf_load_correct_witness:
  "\<exists>p'. Load (demo_libelf (demo_file [0x13, 0, 0, 0x6f])) ''test.elf'' demo_platform = (Inr 0, p') \<and>
     mem_byte p' 0x1003 = Some 0x6f"
proof -
  note S = demo_file_sections [of "[0x13, 0, 0, 0x6f]", simplified]
  have fit: "fits demo_platform (loaded_sections (demo_file [0x13, 0, 0, 0x6f]))" using S by (simp add: fits_def)
  have "\<exists>p'. Load (demo_libelf (demo_file [0x13, 0, 0, 0x6f])) ''test.elf'' demo_platform = (Inr 0, p') \<and> same_setup demo_platform p' \<and>
      wf_mem p' \<and> mem_byte p' = with_sections (loaded_sections (demo_file [0x13, 0, 0, 0x6f])) (mem_byte demo_platform)"
    using elf_load_correct [of "demo_libelf (demo_file [0x13, 0, 0, 0x6f])" "''test.elf''" demo_platform] S(1) fit
    by (simp add: demo_libelf_def)
  then show ?thesis using S by (auto simp: with_sections_def upd_span_def)
qed

text \<open>
  An address outside the memory is checked outside of any \<open>try\<close>: the exception leaves \<open>Load\<close> and \<open>Go\<close> instead of
  giving the code -1.
\<close>

lemma load_outside_throws:
  "outside_range (memory p) a \<Longrightarrow> load_section a bs n p = (Inl (SimExc GENERATION_ERROR), p)"
  by (simp add: load_section_def outside_range_throws)

text \<open>A section of zeros without a buffer of its own (a bss) reads as empty, so its memory is not initialised.\<close>

lemma nobits_not_loaded: "sec_data s = [None] \<Longrightarrow> \<not> loaded f s"
  by (simp add: loaded_def contents_def split: option.split)

end
