(* ===== verification/Simulator.thy ===== *)
theory Simulator
  imports Instr_Mem Instr_Sys Debug_Session Elf_IO
begin

text \<open>
  The configuration, \<open>include/sim_config.h\<close> and \<open>src/sim_config.C\<close>, and the simulator that owns the
  cores, the memory, the devices and the debug server, \<open>include/riscv_simulator.h\<close> and
  \<open>src/riscv_simulator.C\<close>. Cores are known by their index. Some things come from outside and are
  arguments: what uninitialised objects hold (\<open>uninit\<close>), the orders \<open>random_shuffle\<close> puts cores in and
  the map of devices is iterated in, and libelf with the files (\<open>elf_lib\<close>). The console the uart is connected to is part of the state.
\<close>

unbundle bit_operations_syntax

section \<open>Configuration\<close>

record addr_range =
  range_lo :: u64
  range_hi :: u64

record SimConfig =
  load_files :: "string list"
  dump_file :: string
  reset_address :: u64
  num_cores :: u32
  dram :: "addr_range list"
  cfg_devices :: "(u64 \<times> string) list"
  disasm_enable :: bool
  show_updates :: bool
  max_instr_count :: int
  gdb_port :: u32
  gdb_core_id :: u32
  signature_start_address :: u64
  signature_end_address :: u64
  isa_test :: bool

definition SimConfig_new :: SimConfig where
  "SimConfig_new =
     \<lparr>load_files = [], dump_file = [], reset_address = 0, num_cores = 1, dram = [], cfg_devices = [],
      disasm_enable = False, show_updates = False, max_instr_count = 1000, gdb_port = 0, gdb_core_id = 0,
      signature_start_address = 0, signature_end_address = 0, isa_test = False\<rparr>"

definition AddSrcFile :: "string \<Rightarrow> SimConfig \<Rightarrow> SimConfig" where
  "AddSrcFile f c = c\<lparr>load_files := load_files c @ [f]\<rparr>"

definition SrcFiles :: "SimConfig \<Rightarrow> string list \<Rightarrow> string list" where
  "SrcFiles c elf_files = elf_files @ load_files c"

definition SetDumpFile :: "string \<Rightarrow> SimConfig \<Rightarrow> SimConfig" where
  "SetDumpFile f c = c\<lparr>dump_file := f\<rparr>"

definition SetResetAddress :: "u64 \<Rightarrow> SimConfig \<Rightarrow> SimConfig" where
  "SetResetAddress a c = c\<lparr>reset_address := a\<rparr>"

definition SetSignatureAddressRange :: "u64 \<Rightarrow> u64 \<Rightarrow> SimConfig \<Rightarrow> SimConfig" where
  "SetSignatureAddressRange lo hi c = c\<lparr>signature_start_address := lo, signature_end_address := hi, isa_test := True\<rparr>"

definition SetISAtest :: "SimConfig \<Rightarrow> SimConfig" where
  "SetISAtest c = c\<lparr>isa_test := True\<rparr>"

definition SetCoreCount :: "u32 \<Rightarrow> SimConfig \<Rightarrow> SimConfig" where
  "SetCoreCount n c = c\<lparr>num_cores := n\<rparr>"

definition SetAddressRange :: "u64 \<Rightarrow> u64 \<Rightarrow> SimConfig \<Rightarrow> SimConfig" where
  "SetAddressRange lo hi c = c\<lparr>dram := dram c @ [\<lparr>range_lo = lo, range_hi = hi\<rparr>]\<rparr>"

text \<open>The configured ranges are not looked at.\<close>

definition DefaultAddressRange :: "SimConfig \<Rightarrow> u64 \<times> u64" where
  "DefaultAddressRange c = (0, 0xffffffff)"

text \<open>The map of devices; a second device at an address replaces the first.\<close>

definition cfg_MapDevice :: "string \<Rightarrow> u64 \<Rightarrow> SimConfig \<Rightarrow> SimConfig" where
  "cfg_MapDevice device base c = c\<lparr>cfg_devices := AList.update base device (cfg_devices c)\<rparr>"

definition SetShowProgress :: "bool \<Rightarrow> SimConfig \<Rightarrow> SimConfig" where
  "SetShowProgress b c = c\<lparr>disasm_enable := b\<rparr>"

definition SetShowUpdates :: "bool \<Rightarrow> SimConfig \<Rightarrow> SimConfig" where
  "SetShowUpdates b c = c\<lparr>show_updates := b\<rparr>"

definition SetMaxInstrs :: "int \<Rightarrow> SimConfig \<Rightarrow> SimConfig" where
  "SetMaxInstrs n c = c\<lparr>max_instr_count := n\<rparr>"

definition SetDebugServerParms :: "u32 \<Rightarrow> u32 \<Rightarrow> SimConfig \<Rightarrow> SimConfig" where
  "SetDebugServerParms port core_id c = c\<lparr>gdb_port := port, gdb_core_id := core_id\<rparr>"

section \<open>State\<close>

record RiscvSimulator =
  sim_cfg :: SimConfig
  clock :: u64
  cores :: "RiscvState list"
  plat :: platform
  sim_console :: console
  sim_instr_count :: int
  rcode :: int
  debug_server :: "DebugServer option"

text \<open>
  What uninitialised memory holds: the state copied into and the buffer of an instruction at the
  \<open>k\<close>-th instruction, and the control registers of the \<open>i\<close>-th core.
\<close>

record uninit =
  u_state :: RiscvState
  u_buf :: buffer

text \<open>
  \<open>Init\<close>. A second uart or timer in the configuration maps the one device again. \<open>dev_order\<close> is the
  order in which an unordered map is iterated over.
\<close>

definition add_device :: "platform \<Rightarrow> u64 \<times> string \<Rightarrow> platform" where
  "add_device p md =
     (if snd md = ''UART_PL011''
      then p\<lparr>uart1 := MapDevice UART_pl011_Reset (fst md) 0xffff (uart1 p), memory := AddDevice Uart1Ref (memory p)\<rparr>
      else if snd md = ''MACHINE_TIMER''
      then p\<lparr>mtimer := MapDevice MachineTimer_Reset (fst md) 0xffff (mtimer p), memory := AddDevice TimerRef (memory p)\<rparr>
      else p)"

definition SetupDebugServer :: "u32 \<Rightarrow> u32 \<Rightarrow> string option list \<Rightarrow> bool list \<Rightarrow> uninit \<Rightarrow> platform \<Rightarrow> DebugServer option" where
  "SetupDebugServer debug_port debug_core_id reads writes u p =
     (if 0 < sint debug_port then Some (DebugServer_new debug_core_id reads writes (u_state u) p 0) else None)"

definition Init ::
    "SimConfig \<Rightarrow> ((u64 \<times> string) list \<Rightarrow> (u64 \<times> string) list) \<Rightarrow> (nat \<Rightarrow> csr_reg \<Rightarrow> u64) \<Rightarrow> uninit \<Rightarrow> Memory \<Rightarrow> console \<Rightarrow> string option list \<Rightarrow> bool list \<Rightarrow> RiscvSimulator" where
  "Init cfg dev_order csrs u m con reads writes =
     (let (lo, hi) = DefaultAddressRange cfg;
          p = foldl add_device
                \<lparr>memory = SetPhysicalAddressRange lo hi (SetPhysicalSize 32 m), mtimer = MachineTimer_new, uart1 = UART_pl011_new\<rparr>
                (dev_order (cfg_devices cfg))
      in \<lparr>sim_cfg = cfg, clock = 0, cores = map (\<lambda>i. RiscvState_new (reset_address cfg) (csrs i)) [0..<unat (num_cores cfg)],
          plat = p, sim_console = con, sim_instr_count = 0, rcode = 0,
          debug_server = SetupDebugServer (gdb_port cfg) (gdb_core_id cfg) reads writes u p\<rparr>)"

section \<open>One core\<close>

text \<open>
  The fetch: two bytes, and four when they are no compressed instruction. The bytes are read into the
  word through a union. Both exceptions of the simulator end in an error code.
\<close>

definition fetch_word :: "platform \<Rightarrow> buffer \<Rightarrow> nat \<Rightarrow> u32" where
  "fetch_word p buf n = host_word (host_endianness (memory p)) (ApplyEndianness_in_place (host_endianness (memory p)) buf False n n)"

definition fetch :: "uninit \<Rightarrow> RiscvState \<Rightarrow> u64 \<Rightarrow> platform \<Rightarrow> (sim_throw + RiscvInstruction) \<times> platform" where
  "fetch u s pc p =
     (case ReadMemory s pc False False 2 True [0, 0, 0, 0] False False p of
        (Inl e, p1) \<Rightarrow> (Inl e, p1)
      | (Inr (_, buf), p1) \<Rightarrow>
          let instr = NewInstruction s p1 (fetch_word p1 buf 2) True (u_buf u)
          in if iclass instr \<noteq> UnknownInstruction then (Inr instr, p1)
             else
               case ReadMemory s pc False False 4 True
                      (ApplyEndianness_in_place (host_endianness (memory p1)) buf False 2 2) False False p1 of
                 (Inl e, p2) \<Rightarrow> (Inl e, p2)
               | (Inr (_, buf), p2) \<Rightarrow> (Inr (NewInstruction s p2 (fetch_word p2 buf 4) False (u_buf u)), p2))"

text \<open>The debug server works on the state and the memory it is given, and the caller goes on with them.\<close>

definition DebugPreStepChecks ::
    "RiscvState \<Rightarrow> u64 \<Rightarrow> RiscvSimulator \<Rightarrow> (sim_throw + bool) \<times> RiscvState \<times> RiscvSimulator" where
  "DebugPreStepChecks s pc sim =
     (case debug_server sim of
        None \<Rightarrow> (Inr True, s, sim)
      | Some d \<Rightarrow>
          (case RunPreStepChecks s (plat sim) pc d of
             (r, d') \<Rightarrow> (r, cpu d', sim\<lparr>plat := ds_memory d', debug_server := Some d'\<rparr>)))"

definition DebugPostStepChecks ::
    "RiscvState \<Rightarrow> u64 \<Rightarrow> RiscvSimulator \<Rightarrow> (sim_throw + bool) \<times> RiscvState \<times> RiscvSimulator" where
  "DebugPostStepChecks s pc sim =
     (case debug_server sim of
        None \<Rightarrow> (Inr True, s, sim)
      | Some d \<Rightarrow>
          (case RunPostStepChecks s (plat sim) pc d of
             (r, d') \<Rightarrow> (r, cpu d', sim\<lparr>plat := ds_memory d', debug_server := Some d'\<rparr>)))"

definition set_core :: "nat \<Rightarrow> RiscvState \<Rightarrow> RiscvSimulator \<Rightarrow> RiscvSimulator" where
  "set_core k s sim = sim\<lparr>cores := (cores sim)[k := s]\<rparr>"

text \<open>The end of a step, after the write back: \<open>pc\<close> is where the instruction was. The counter is an \<open>int\<close>.\<close>

definition step_end :: "nat \<Rightarrow> bool \<Rightarrow> u64 \<Rightarrow> (RiscvSimulator, sim_throw, unit) smx" where
  "step_end k is_ecall pc sim =
     (let my_core = cores sim ! k;
          my_core = (if isa_test (sim_cfg sim) \<and> is_ecall then SetEndTest True my_core else my_core)
      in if sim_instr_count sim = 2 ^ 31 - 1 then (Inl UB, set_core k my_core sim)
         else
           let sim = sim\<lparr>sim_instr_count := sim_instr_count sim + 1\<rparr>;
               my_core = (if end_test my_core then my_core
                       else if LowPowerMode my_core then my_core
                       else SetEndTest (PC my_core = pc) my_core)
           in case DebugPostStepChecks my_core pc sim of
                (Inl e, my_core, sim) \<Rightarrow> (Inl e, set_core k my_core sim)
              | (Inr ok, my_core, sim) \<Rightarrow> (Inr (), set_core k (if ok then my_core else SetEndTest True my_core) sim))"

text \<open>
  \<open>state_updates\<close> is a copy of the core; the core itself changes at the write back only, so that what
  an abandoned step did to the copy is lost.
\<close>

definition run_instr :: "nat \<Rightarrow> RiscvInstruction \<Rightarrow> u64 \<Rightarrow> (RiscvSimulator, sim_throw, unit) smx" where
  "run_instr k instr pc sim =
     (case Execute instr of
        (Inl e, i) \<Rightarrow> (Inl e, sim\<lparr>plat := i_memory i\<rparr>)
      | (Inr _, i) \<Rightarrow>
          (case Writeback i (cores sim ! k) of
             (Inl e, my_core, p) \<Rightarrow> (Inl e, set_core k my_core (sim\<lparr>plat := p\<rparr>))
           | (Inr _, my_core, p) \<Rightarrow> step_end k (iclass instr = Utype ECALL) pc (set_core k my_core (sim\<lparr>plat := p\<rparr>))))"

definition StepCore :: "uninit \<Rightarrow> nat \<Rightarrow> (RiscvSimulator, sim_throw, unit) smx" where
  "StepCore u k sim =
     (let state_updates = RiscvState_Update (cores sim ! k) (u_state u)
      in case (case InterruptPending state_updates of
                 None \<Rightarrow> Inr state_updates
               | Some interrupt_to_service \<Rightarrow> ProcessInterrupt interrupt_to_service state_updates) of
           Inl e \<Rightarrow> (Inl e, sim)
         | Inr state_updates \<Rightarrow>
             if LowPowerMode state_updates then (Inr (), sim)
             else
               let pc = ucast (ucast (PC state_updates) :: u32)
               in case fetch u state_updates pc (plat sim) of
                    (Inl (SimExc e), p) \<Rightarrow> (Inr (), sim\<lparr>plat := p, rcode := -1\<rparr>)
                  | (Inl e, p) \<Rightarrow> (Inl e, sim\<lparr>plat := p\<rparr>)
                  | (Inr instr, p) \<Rightarrow>
                      (case DebugPreStepChecks state_updates pc (sim\<lparr>plat := p\<rparr>) of
                         (Inl e, s, sim) \<Rightarrow> (Inl e, sim)
                       | (Inr False, s, sim) \<Rightarrow> (Inr (), sim)
                       | (Inr True, s, sim) \<Rightarrow> run_instr k (instr\<lparr>i_state := s, i_memory := plat sim\<rparr>) pc sim))"

section \<open>The simulation\<close>

text \<open>Only run time errors are caught; \<open>u\<close> is asked for at the number of instructions done.\<close>

fun StepCores :: "(nat \<Rightarrow> uninit) \<Rightarrow> nat list \<Rightarrow> (RiscvSimulator, sim_throw, unit) smx" where
  "StepCores u [] sim = (Inr (), sim)"
| "StepCores u (k # ks) sim =
     (if rcode sim \<noteq> 0 then (Inr (), sim)
      else case StepCore (u (nat (sim_instr_count sim))) k sim of
             (Inl RuntimeError, sim) \<Rightarrow> (Inr (), sim\<lparr>rcode := -1\<rparr>)
           | (Inl e, sim) \<Rightarrow> (Inl e, sim)
           | (Inr _, sim) \<Rightarrow> StepCores u ks sim)"

text \<open>The ready cores, in the order of \<open>shuffle\<close> at the present clock.\<close>

definition GetReadyCpus :: "(nat \<Rightarrow> nat list \<Rightarrow> nat list) \<Rightarrow> RiscvSimulator \<Rightarrow> nat list" where
  "GetReadyCpus shuffle sim =
     (let ready_cores = filter (\<lambda>k. Ready (cores sim ! k)) [0..<length (cores sim)]
      in if length ready_cores > 0 then shuffle (unat (clock sim)) ready_cores else ready_cores)"

definition SleepingCores :: "RiscvSimulator \<Rightarrow> bool" where
  "SleepingCores sim \<longleftrightarrow> list_ex LowPowerMode (cores sim)"

definition InstructionCountExceeded :: "RiscvSimulator \<Rightarrow> bool" where
  "InstructionCountExceeded sim \<longleftrightarrow>
     (if max_instr_count (sim_cfg sim) < 0 then False else max_instr_count (sim_cfg sim) < sim_instr_count sim)"

definition sim_AdvanceClock :: "RiscvSimulator \<Rightarrow> RiscvSimulator" where
  "sim_AdvanceClock sim = sim\<lparr>clock := clock sim + 1\<rparr>"

text \<open>Interrupts of devices go to core 0, which must exist.\<close>

definition signal_core0 :: "SIM_EXCEPTIONS \<Rightarrow> (RiscvSimulator, sim_throw, unit) smx" where
  "signal_core0 e sim =
     (if cores sim = [] then (Inl UB, sim) else (Inr (), set_core 0 (Signal e (cores sim ! 0)) sim))"

definition service_timer :: "(RiscvSimulator, sim_throw, unit) smx" where
  "service_timer sim =
     (if IsImplemented (mtimer (plat sim))
      then let t = AdvanceTimer (mtimer (plat sim)); sim = sim\<lparr>plat := (plat sim)\<lparr>mtimer := t\<rparr>\<rparr>
           in if MachineTimer_InterruptPending t then signal_core0 MACHINE_TIMER_INT sim else (Inr (), sim)
      else (Inr (), sim))"

definition service_uart :: "(RiscvSimulator, sim_throw, unit) smx" where
  "service_uart sim =
     (if IsImplemented (uart1 (plat sim))
      then let (u, con) = ServiceIOs (advanceClock (uart1 (plat sim))) (sim_console sim);
               sim = sim\<lparr>plat := (plat sim)\<lparr>uart1 := u\<rparr>, sim_console := con\<rparr>
           in if fst (UART_pl011_InterruptPending u) then signal_core0 MACHINE_EXTERNAL_INT sim else (Inr (), sim)
      else (Inr (), sim))"

definition ServiceDevices :: "(RiscvSimulator, sim_throw, unit) smx" where
  "ServiceDevices = thenS service_timer service_uart"

fun load_images :: "elf_lib \<Rightarrow> string list \<Rightarrow> (platform, sim_throw, int) smx" where
  "load_images lib [] p = (Inr 0, p)"
| "load_images lib (f # fs) p =
     (case Load lib f p of
        (Inl e, p) \<Rightarrow> (Inl e, p)
      | (Inr r, p) \<Rightarrow> if r \<noteq> 0 then (Inr r, p) else load_images lib fs p)"

definition LoadTestImage :: "elf_lib \<Rightarrow> (RiscvSimulator, sim_throw, int) smx" where
  "LoadTestImage lib sim =
     (case load_images lib (SrcFiles (sim_cfg sim) []) (plat sim) of (r, p) \<Rightarrow> (r, sim\<lparr>plat := p\<rparr>))"

definition DumpTest :: "elf_lib \<Rightarrow> string \<Rightarrow> RiscvSimulator \<Rightarrow> (elf_stop + int \<times> elf_image option) \<times> RiscvSimulator" where
  "DumpTest lib out_file sim =
     (case Save lib out_file (reset_address (sim_cfg sim)) False (plat sim) of (r, p) \<Rightarrow> (r, sim\<lparr>plat := p\<rparr>))"

text \<open>One turn of the loop of \<open>Go\<close>, and the loop itself: \<open>None\<close> says that \<open>fuel\<close> turns were not enough.\<close>

definition go_turn ::
    "(nat \<Rightarrow> uninit) \<Rightarrow> (nat \<Rightarrow> nat list \<Rightarrow> nat list) \<Rightarrow> nat list \<Rightarrow> (RiscvSimulator, sim_throw, nat list) smx" where
  "go_turn u shuffle ready_cores =
     thenS (if ready_cores \<noteq> [] then StepCores u ready_cores else returnS ())
       (thenS (modifyS sim_AdvanceClock) (thenS ServiceDevices (getS (GetReadyCpus shuffle))))"

definition go_on :: "nat list \<Rightarrow> RiscvSimulator \<Rightarrow> bool" where
  "go_on ready_cores sim \<longleftrightarrow>
     rcode sim = 0 \<and> \<not> InstructionCountExceeded sim \<and> (ready_cores \<noteq> [] \<or> SleepingCores sim)"

fun go_loop ::
    "(nat \<Rightarrow> uninit) \<Rightarrow> (nat \<Rightarrow> nat list \<Rightarrow> nat list) \<Rightarrow> nat \<Rightarrow> nat list \<Rightarrow> RiscvSimulator
      \<Rightarrow> ((sim_throw + unit) \<times> RiscvSimulator) option" where
  "go_loop u shuffle fuel ready_cores sim =
     (if \<not> go_on ready_cores sim then Some (Inr (), sim)
      else case fuel of
             0 \<Rightarrow> None
           | Suc fuel \<Rightarrow>
               (case go_turn u shuffle ready_cores sim of
                  (Inl e, sim) \<Rightarrow> Some (Inl e, sim)
                | (Inr ready_cores, sim) \<Rightarrow> go_loop u shuffle fuel ready_cores sim))"

definition Go ::
    "elf_lib \<Rightarrow> (nat \<Rightarrow> uninit) \<Rightarrow> (nat \<Rightarrow> nat list \<Rightarrow> nat list) \<Rightarrow> nat
      \<Rightarrow> RiscvSimulator \<Rightarrow> ((sim_throw + int) \<times> RiscvSimulator) option" where
  "Go lib u shuffle fuel sim =
     (case LoadTestImage lib (sim\<lparr>rcode := 0\<rparr>) of
        (Inl e, sim) \<Rightarrow> Some (Inl e, sim)
      | (Inr r, sim) \<Rightarrow>
          let sim = sim\<lparr>rcode := r\<rparr>
          in if r \<noteq> 0 then Some (Inr r, sim)
             else
               let ready_cores = GetReadyCpus shuffle sim; sim = sim\<lparr>sim_instr_count := 0\<rparr>
               in case go_loop u shuffle fuel ready_cores sim of
                    None \<Rightarrow> None
                  | Some (Inl e, sim) \<Rightarrow> Some (Inl e, sim)
                  | Some (Inr _, sim) \<Rightarrow>
                      let sim = (if list_ex (\<lambda>s. \<not> Halted s) (cores sim) then sim\<lparr>rcode := -1\<rparr> else sim)
                      in Some (Inr (rcode sim), sim))"

lemma LoadTestImage_rcode:
  "LoadTestImage lib sim = (r, sim1) \<Longrightarrow> LoadTestImage lib (sim\<lparr>rcode := c\<rparr>) = (r, sim1\<lparr>rcode := c\<rparr>)"
  by (auto simp: LoadTestImage_def split: prod.splits)

section \<open>The signature\<close>

text \<open>One line of the signature file: sixteen bytes as hexadecimal digits, the last byte first on a little endian host.\<close>

definition signature_line :: "bool \<Rightarrow> buffer \<Rightarrow> string" where
  "signature_line big tbuf = concat (map hex2 (if big then tbuf else rev tbuf)) @ [CHR 0x0A]"

fun signature_loop :: "nat \<Rightarrow> u64 \<Rightarrow> buffer \<Rightarrow> string \<Rightarrow> platform \<Rightarrow> (sim_throw + int \<times> string) \<times> platform" where
  "signature_loop 0 addr tbuf out p = (Inr (0, out), p)"
| "signature_loop (Suc n) addr tbuf out p =
     (case ReadPhysicalMemory addr 16 tbuf False True p of
        (Inl (SimExc e), p) \<Rightarrow> (Inr (-1, out), p)
      | (Inl e, p) \<Rightarrow> (Inl e, p)
      | (Inr (_, tbuf), p) \<Rightarrow>
          signature_loop n (addr + 16) tbuf (out @ signature_line (host_endianness (memory p)) (take 16 tbuf)) p)"

text \<open>The size is the difference of the addresses as an \<open>int\<close>; \<open>%\<close> truncates towards zero. No file is \<open>None\<close>.\<close>

definition WriteTestSignature :: "buffer \<Rightarrow> RiscvSimulator \<Rightarrow> (sim_throw + int \<times> string option) \<times> RiscvSimulator" where
  "WriteTestSignature tbuf sim =
     (let lo = signature_start_address (sim_cfg sim);
          signature_size = sint (ucast (signature_end_address (sim_cfg sim) - lo) :: u32)
      in if lo = 0 then (Inr (0, None), sim)
         else if signature_size smod 16 \<noteq> 0 then (Inr (-1, None), sim)
         else
           case signature_loop (nat (signature_size div 16)) lo tbuf [] (plat sim) of
             (Inl e, p) \<Rightarrow> (Inl e, sim\<lparr>plat := p\<rparr>)
           | (Inr (r, out), p) \<Rightarrow> (Inr (r, Some out), sim\<lparr>plat := p\<rparr>))"

end
