(* ===== verification/Simulation.thy ===== *)
theory Simulation
  imports Simulator "HOL-Library.Multiset"
begin

text \<open>
  What the simulation loop of \<open>Simulator\<close> does: which parts of the simulator a step can change, the
  invariant of the cores, progress and termination of \<open>Go\<close>, waking from low power mode, the execution of
  an instruction from memory, and the signature.
\<close>

unbundle bit_operations_syntax

section \<open>What a step changes\<close>

text \<open>
  Whether it ends normally or by an exception, a step of core \<open>k\<close> changes no other core, keeps
  configuration, clock and console, and counts at most one instruction.
\<close>

definition step_frame :: "nat \<Rightarrow> RiscvSimulator \<Rightarrow> RiscvSimulator \<Rightarrow> bool" where
  "step_frame k sim sim' \<longleftrightarrow> sim_cfg sim' = sim_cfg sim \<and> clock sim' = clock sim \<and> sim_console sim' = sim_console sim \<and>
     (\<exists>c. cores sim' = (cores sim)[k := c]) \<and> sim_instr_count sim \<le> sim_instr_count sim' \<and>
     sim_instr_count sim' \<le> sim_instr_count sim + 1 \<and> (debug_server sim = None \<longrightarrow> debug_server sim' = None)"

lemma set_core_fields [simp]:
  "cores (set_core k c sim) = (cores sim)[k := c]" "sim_cfg (set_core k c sim) = sim_cfg sim"
  "clock (set_core k c sim) = clock sim" "sim_console (set_core k c sim) = sim_console sim"
  "sim_instr_count (set_core k c sim) = sim_instr_count sim" "debug_server (set_core k c sim) = debug_server sim"
  "rcode (set_core k c sim) = rcode sim" "plat (set_core k c sim) = plat sim"
  by (simp_all add: set_core_def)

lemma DebugPreStepChecks_keeps:
  assumes "wf_core s" "DebugPreStepChecks s pc sim = (r, s', sim')"
  shows "wf_core s'" "sim' = sim\<lparr>plat := plat sim', debug_server := debug_server sim'\<rparr>"
    "debug_server sim = None \<Longrightarrow> r = Inr True \<and> s' = s \<and> sim' = sim"
proof -
  show "wf_core s'"
    using assms RunPreStepChecks_keeps [OF assms(1)]
    by (fastforce simp: DebugPreStepChecks_def core_kept_def split: option.splits prod.splits)
  show "sim' = sim\<lparr>plat := plat sim', debug_server := debug_server sim'\<rparr>"
    using assms(2) by (auto simp: DebugPreStepChecks_def split: option.splits prod.splits)
  show "r = Inr True \<and> s' = s \<and> sim' = sim" if "debug_server sim = None"
    using assms(2) that by (simp add: DebugPreStepChecks_def)
qed

lemma PostStepChecks_cpu: "PostStepChecks d = (r, d') \<Longrightarrow> cpu d' = cpu d \<and> r = Inr True"
  by (auto simp: PostStepChecks_def AcknowledgeBreakpoint_def send_def socket_Write_def
      split: if_splits list.splits bool.splits)

text \<open>After an instruction the server may send a stop reply, but it neither fails nor changes the core.\<close>

lemma DebugPostStepChecks_keeps:
  assumes "DebugPostStepChecks s pc sim = (r, s', sim')"
  shows "s' = s \<and> r = Inr True \<and> sim' = sim\<lparr>plat := plat sim', debug_server := debug_server sim'\<rparr> \<and>
    (debug_server sim = None \<longrightarrow> sim' = sim)"
  using assms
  by (auto simp: DebugPostStepChecks_def RunPostStepChecks_def attach_def dest!: PostStepChecks_cpu
      split: option.splits prod.splits)

lemma step_end_shape:
  assumes "step_end k e pc sim = (r, sim')" "k < length (cores sim)"
  shows "step_frame k sim sim'" "r = Inr () \<Longrightarrow> sim_instr_count sim' = sim_instr_count sim + 1" "rcode sim' = rcode sim"
    "\<exists>b. cores sim' ! k = (cores sim ! k)\<lparr>end_test := b\<rparr>"
proof -
  define c where "c = (if isa_test (sim_cfg sim) \<and> e then SetEndTest True (cores sim ! k) else cores sim ! k)"
  define c1 where "c1 = (if end_test c \<or> LowPowerMode c then c else SetEndTest (PC c = pc) c)"
  have b: "\<exists>b. c = (cores sim ! k)\<lparr>end_test := b\<rparr>" "\<exists>b. c1 = (cores sim ! k)\<lparr>end_test := b\<rparr>"
    unfolding c1_def c_def SetEndTest_def
    by (auto intro: exI [of _ True] exI [of _ "end_test (cores sim ! k)"] exI [of _ "PC (cores sim ! k) = pc"])
  obtain q s2 sim2 where q: "DebugPostStepChecks c1 pc (sim\<lparr>sim_instr_count := sim_instr_count sim + 1\<rparr>) = (q, s2, sim2)"
    by (metis prod.exhaust)
  note k = DebugPostStepChecks_keeps [OF q]
  obtain p d where sim2: "sim2 = sim\<lparr>sim_instr_count := sim_instr_count sim + 1, plat := p, debug_server := d\<rparr>"
    "debug_server sim = None \<longrightarrow> d = None" 
    by (rule that [of "debug_server sim2" "plat sim2"]) (use k in \<open>blast | simp\<close>)+
  have "(r, sim') = (if sim_instr_count sim = 2 ^ 31 - 1 then (Inl UB, set_core k c sim) else (Inr (), set_core k c1 sim2))"
    using assms(1) q k unfolding step_end_def Let_def c_def [symmetric]
    by (simp add: c1_def split: if_splits)
  then show "step_frame k sim sim'" "r = Inr () \<Longrightarrow> sim_instr_count sim' = sim_instr_count sim + 1"
    "rcode sim' = rcode sim" "\<exists>b. cores sim' ! k = (cores sim ! k)\<lparr>end_test := b\<rparr>"
    using sim2 b assms(2) by (auto simp: step_frame_def split: if_splits)
qed

lemma wf_core_end_test [simp]: "wf_core (c\<lparr>end_test := b\<rparr>) = wf_core c"
proof -
  have "reg_value MSTATUS (c\<lparr>end_test := b\<rparr>) = reg_value MSTATUS c" by (rule reg_value_cong) simp
  then show ?thesis by (simp add: wf_core_def CurrentPrivilegeLevel_def)
qed

lemma step_frame_pre:
  "step_frame k (set_core k c (sim\<lparr>plat := p\<rparr>)) sim' \<Longrightarrow> step_frame k sim sim'"
  "step_frame k (sim\<lparr>plat := p, debug_server := d\<rparr>) sim' \<Longrightarrow> (debug_server sim = None \<longrightarrow> d = None) \<Longrightarrow> step_frame k sim sim'"
  by (auto simp: step_frame_def)

lemma step_frame_self:
  "step_frame k sim sim" "step_frame k sim (sim\<lparr>plat := p\<rparr>)" "step_frame k sim (sim\<lparr>plat := p, rcode := r\<rparr>)"
  "step_frame k sim (set_core k c (sim\<lparr>plat := p\<rparr>))"
  by (auto simp: step_frame_def intro: exI [of _ "cores sim ! k"])

lemma run_instr_shape:
  assumes "run_instr k i pc sim = (r, sim')" "k < length (cores sim)" "wf_core (i_state i)" "wf_core (cores sim ! k)"
  shows "step_frame k sim sim'" "wf_core (cores sim' ! k)" "r = Inr () \<Longrightarrow> sim_instr_count sim' = sim_instr_count sim + 1"
    "rcode sim' = rcode sim"
proof -
  obtain q j where q: "Execute i = (q, j)" by fastforce
  have "step_frame k sim sim' \<and> wf_core (cores sim' ! k) \<and> rcode sim' = rcode sim \<and>
    (r = Inr () \<longrightarrow> sim_instr_count sim' = sim_instr_count sim + 1)"
  proof (cases q)
    case (Inl e)
    then show ?thesis using assms q by (auto simp: run_instr_def step_frame_self)
  next
    case (Inr v)
    have j: "wf_core (i_state j)" using Execute_wf [OF assms(3)] q Inr by simp
    let ?c = "RiscvState_Update (i_state j) (cores sim ! k)"
    have c: "wf_core ?c"
      using wf_core_Update [OF assms(4)] j by (simp add: wf_core_def)
    obtain q1 p where w: "Writeback j (cores sim ! k) = (q1, ?c, p)"
      by (metis (no_types, lifting) Writeback_def old.prod.case prod.exhaust)
    show ?thesis
    proof (cases q1)
      case (Inl e)
      then show ?thesis using assms q w Inr c by (auto simp: run_instr_def step_frame_self)
    next
      case (Inr v')
      have e: "step_end k (iclass i = Utype ECALL) pc (set_core k ?c (sim\<lparr>plat := p\<rparr>)) = (r, sim')"
        using assms(1) q w Inr \<open>q = Inr v\<close> by (simp add: run_instr_def)
      from step_end_shape [OF e] c assms(2) show ?thesis by (auto intro: step_frame_pre(1))
    qed
  qed
  then show "step_frame k sim sim'" "wf_core (cores sim' ! k)" "r = Inr () \<Longrightarrow> sim_instr_count sim' = sim_instr_count sim + 1"
    "rcode sim' = rcode sim" by blast+
qed

text \<open>The copy a step starts from: as good as the core itself.\<close>

lemma copy_of_core:
  assumes "wf_core c" "length (X s) = 32"
  shows "wf_core (RiscvState_Update c s)" "InterruptPending (RiscvState_Update c s) = InterruptPending c"
    "LowPowerMode (RiscvState_Update c s) = LowPowerMode c" "PC (RiscvState_Update c s) = PC c"
    "X (RiscvState_Update c s) = X c"
  using assms wf_core_copy [OF assms] reg_value_copy [OF assms] Update_fields [OF _ assms(2), of c]
  by (simp_all add: InterruptPending_def GlobalInterruptsEnabled_def wf_core_def)

definition interrupted :: "RiscvState \<Rightarrow> sim_throw + RiscvState" where
  "interrupted s = (case InterruptPending s of None \<Rightarrow> Inr s | Some e \<Rightarrow> ProcessInterrupt e s)"

lemma interrupted_ok:
  assumes "wf_core s"
  obtains s' where "interrupted s = Inr s'" "wf_core s'" "InterruptPending s = None \<Longrightarrow> s' = s"
    "LowPowerMode s' \<longleftrightarrow> LowPowerMode s \<and> InterruptPending s = None"
proof (cases "InterruptPending s")
  case None
  then show ?thesis using assms that by (simp add: interrupted_def)
next
  case (Some e)
  then have e: "e = MACHINE_EXTERNAL_INT \<or> e = MACHINE_TIMER_INT"
    by (auto simp: InterruptPending_def Let_def split: if_splits)
  obtain s' where s': "ProcessInterrupt e s = Inr s'" "\<not> LowPowerMode s'"
    using interrupt_entry_ok [OF assms, of e] e by (auto simp: interrupt_entered_def)
  then show ?thesis
    using Some wf_core_ProcessException [OF assms] that [of s'] by (simp add: interrupted_def ProcessInterrupt_def)
qed
definition fetch_pc :: "RiscvState \<Rightarrow> u64" where
  "fetch_pc s = ucast (ucast (PC s) :: u32)"

text \<open>What is left of a step once interrupts are out of the way.\<close>

definition step_awake :: "uninit \<Rightarrow> nat \<Rightarrow> RiscvState \<Rightarrow> (RiscvSimulator, sim_throw, unit) smx" where
  "step_awake u k s sim =
     (case fetch u s (fetch_pc s) (plat sim) of
        (Inl (SimExc e), p) \<Rightarrow> (Inr (), sim\<lparr>plat := p, rcode := -1\<rparr>)
      | (Inl e, p) \<Rightarrow> (Inl e, sim\<lparr>plat := p\<rparr>)
      | (Inr instr, p) \<Rightarrow>
          (case DebugPreStepChecks s (fetch_pc s) (sim\<lparr>plat := p\<rparr>) of
             (Inl e, s', sim) \<Rightarrow> (Inl e, sim)
           | (Inr False, s', sim) \<Rightarrow> (Inr (), sim)
           | (Inr True, s', sim) \<Rightarrow> run_instr k (instr\<lparr>i_state := s', i_memory := plat sim\<rparr>) (fetch_pc s) sim))"

lemma StepCore_cases:
  assumes "wf_core (cores sim ! k)" "length (X (u_state u)) = 32"
  obtains s where "StepCore u k sim = (if LowPowerMode s then (Inr (), sim) else step_awake u k s sim)" "wf_core s"
    "LowPowerMode s \<longleftrightarrow> LowPowerMode (cores sim ! k) \<and> InterruptPending (cores sim ! k) = None"
    "InterruptPending (cores sim ! k) = None \<Longrightarrow> s = RiscvState_Update (cores sim ! k) (u_state u)"
proof -
  let ?c = "RiscvState_Update (cores sim ! k) (u_state u)"
  obtain s where s: "interrupted ?c = Inr s" "wf_core s" "InterruptPending ?c = None \<Longrightarrow> s = ?c"
    "LowPowerMode s \<longleftrightarrow> LowPowerMode ?c \<and> InterruptPending ?c = None"
    by (rule interrupted_ok [OF copy_of_core(1) [OF assms]]) (rule that)
  then have "StepCore u k sim = (if LowPowerMode s then (Inr (), sim) else step_awake u k s sim)"
    unfolding StepCore_def step_awake_def fetch_pc_def Let_def interrupted_def [symmetric] by simp
  with s show thesis by (intro that [of s]) (simp_all add: copy_of_core [OF assms])
qed

lemma step_awake_shape:
  assumes "step_awake u k s sim = (r, sim')" "k < length (cores sim)" "wf_core s" "wf_core (cores sim ! k)"
  shows "step_frame k sim sim'" "wf_core (cores sim' ! k)" "rcode sim' \<in> {rcode sim, -1}"
    "debug_server sim = None \<Longrightarrow> r = Inr () \<Longrightarrow> rcode sim = 0 \<Longrightarrow> rcode sim' = 0 \<Longrightarrow>
       sim_instr_count sim' = sim_instr_count sim + 1"
proof -
  obtain q p where f: "fetch u s (fetch_pc s) (plat sim) = (q, p)" by fastforce
  have "step_frame k sim sim' \<and> wf_core (cores sim' ! k) \<and> rcode sim' \<in> {rcode sim, -1} \<and>
    (debug_server sim = None \<longrightarrow> r = Inr () \<longrightarrow> rcode sim = 0 \<longrightarrow> rcode sim' = 0 \<longrightarrow>
       sim_instr_count sim' = sim_instr_count sim + 1)"
  proof (cases q)
    case (Inl e)
    then show ?thesis using assms f
      by (cases e) (auto simp: step_awake_def step_frame_self)
  next
    case (Inr i)
    obtain r1 s1 sim1 where d: "DebugPreStepChecks s (fetch_pc s) (sim\<lparr>plat := p\<rparr>) = (r1, s1, sim1)" by (metis prod.exhaust)
    note D = DebugPreStepChecks_keeps [OF assms(3) d]
    obtain p1 d1 where sim1: "sim1 = sim\<lparr>plat := p1, debug_server := d1\<rparr>" "debug_server sim = None \<longrightarrow> d1 = None"
      by (rule that [of "debug_server sim1" "plat sim1"]) (use D(2,3) in \<open>simp | metis RiscvSimulator.simps(8)\<close>)+
    have go: "(r, sim') = (case r1 of Inl e \<Rightarrow> (Inl e, sim1) | Inr b \<Rightarrow>
        if b then run_instr k (i\<lparr>i_state := s1, i_memory := plat sim1\<rparr>) (fetch_pc s) sim1 else (Inr (), sim1))"
      using assms(1) f Inr d by (simp add: step_awake_def split: sum.splits bool.splits)
    have "step_frame k sim1 sim' \<and> wf_core (cores sim' ! k) \<and> rcode sim' = rcode sim1 \<and>
      (r1 = Inr True \<longrightarrow> r = Inr () \<longrightarrow> sim_instr_count sim' = sim_instr_count sim1 + 1)"
    proof (cases "r1 = Inr True")
      case True
      then have run: "run_instr k (i\<lparr>i_state := s1, i_memory := plat sim1\<rparr>) (fetch_pc s) sim1 = (r, sim')" using go by simp
      from run_instr_shape [OF run] D(1) assms(2,4) sim1(1) show ?thesis by simp
    next
      case False
      then show ?thesis using go assms(4) sim1(1)
        by (auto simp: step_frame_self split: sum.splits if_splits)
    qed
    then show ?thesis using sim1 D(3) step_frame_pre(2) [where sim = sim and p = p1 and d = d1] by auto
  qed
  then show "step_frame k sim sim'" "wf_core (cores sim' ! k)" "rcode sim' \<in> {rcode sim, -1}"
    "debug_server sim = None \<Longrightarrow> r = Inr () \<Longrightarrow> rcode sim = 0 \<Longrightarrow> rcode sim' = 0 \<Longrightarrow>
       sim_instr_count sim' = sim_instr_count sim + 1" by blast+
qed

lemma StepCore_shape:
  assumes "StepCore u k sim = (r, sim')" "k < length (cores sim)" "wf_core (cores sim ! k)" "length (X (u_state u)) = 32"
  shows "step_frame k sim sim'" "wf_core (cores sim' ! k)" "rcode sim' \<in> {rcode sim, -1}"
    "debug_server sim = None \<Longrightarrow> Ready (cores sim ! k) \<Longrightarrow> r = Inr () \<Longrightarrow> rcode sim = 0 \<Longrightarrow> rcode sim' = 0 \<Longrightarrow>
       sim_instr_count sim' = sim_instr_count sim + 1"
proof -
  obtain s where s: "StepCore u k sim = (if LowPowerMode s then (Inr (), sim) else step_awake u k s sim)" "wf_core s"
    "LowPowerMode s \<longleftrightarrow> LowPowerMode (cores sim ! k) \<and> InterruptPending (cores sim ! k) = None"
    by (rule StepCore_cases [OF assms(3,4)])
  have "step_frame k sim sim' \<and> wf_core (cores sim' ! k) \<and> rcode sim' \<in> {rcode sim, -1} \<and>
    (debug_server sim = None \<longrightarrow> Ready (cores sim ! k) \<longrightarrow> r = Inr () \<longrightarrow> rcode sim = 0 \<longrightarrow> rcode sim' = 0 \<longrightarrow>
       sim_instr_count sim' = sim_instr_count sim + 1)"
  proof (cases "LowPowerMode s")
    case True
    then show ?thesis using assms(1,3) s(1,3) by (simp add: step_frame_self Ready_def)
  next
    case False
    then have a: "step_awake u k s sim = (r, sim')" using assms(1) s(1) by simp
    show ?thesis using step_awake_shape [OF a assms(2) s(2) assms(3)] by blast
  qed
  then show "step_frame k sim sim'" "wf_core (cores sim' ! k)" "rcode sim' \<in> {rcode sim, -1}"
    "debug_server sim = None \<Longrightarrow> Ready (cores sim ! k) \<Longrightarrow> r = Inr () \<Longrightarrow> rcode sim = 0 \<Longrightarrow> rcode sim' = 0 \<Longrightarrow>
       sim_instr_count sim' = sim_instr_count sim + 1" by blast+
qed
section \<open>Turns of the loop\<close>

text \<open>The assumptions about what comes from outside: 32 registers in the copy, and an order of the same cores.\<close>

definition sane_uninit :: "(nat \<Rightarrow> uninit) \<Rightarrow> bool" where
  "sane_uninit u \<longleftrightarrow> (\<forall>n. length (X (u_state (u n))) = 32)"

definition permutes_cores :: "(nat \<Rightarrow> nat list \<Rightarrow> nat list) \<Rightarrow> bool" where
  "permutes_cores shuffle \<longleftrightarrow> (\<forall>n ks. mset (shuffle n ks) = mset ks)"

definition cores_ok :: "RiscvSimulator \<Rightarrow> bool" where
  "cores_ok sim \<longleftrightarrow> (\<forall>c\<in>set (cores sim). wf_core c)"

definition turn_frame :: "RiscvSimulator \<Rightarrow> RiscvSimulator \<Rightarrow> bool" where
  "turn_frame sim sim' \<longleftrightarrow> sim_cfg sim' = sim_cfg sim \<and> length (cores sim') = length (cores sim) \<and>
     (debug_server sim = None \<longrightarrow> debug_server sim' = None)"

lemma turn_frame_refl [simp]: "turn_frame sim sim"
  by (simp add: turn_frame_def)

lemma turn_frame_trans: "turn_frame sim sim1 \<Longrightarrow> turn_frame sim1 sim2 \<Longrightarrow> turn_frame sim sim2"
  by (simp add: turn_frame_def)

lemma step_frame_turn: "step_frame k sim sim' \<Longrightarrow> turn_frame sim sim'"
  by (auto simp: step_frame_def turn_frame_def)

lemma cores_ok_step:
  assumes "step_frame k sim sim'" "cores_ok sim" "wf_core (cores sim' ! k)" "k < length (cores sim)"
  shows "cores_ok sim'"
  using assms by (auto simp: step_frame_def cores_ok_def dest!: set_update_subset_insert [THEN subsetD])

lemma StepCores_shape:
  assumes "StepCores u ks sim = (r, sim')" "sane_uninit u" "cores_ok sim" "\<forall>k\<in>set ks. k < length (cores sim)"
  shows "cores_ok sim' \<and> turn_frame sim sim' \<and> sim_instr_count sim \<le> sim_instr_count sim' \<and>
    sim_instr_count sim' \<le> sim_instr_count sim + int (length ks)"
  using assms
proof (induction ks arbitrary: sim)
  case (Cons k ks)
  obtain q sim1 where q: "StepCore (u (nat (sim_instr_count sim))) k sim = (q, sim1)" by fastforce
  have k: "k < length (cores sim)" using Cons.prems(4) by simp
  then have wf: "wf_core (cores sim ! k)" using Cons.prems(3) by (simp add: cores_ok_def)
  have u: "length (X (u_state (u (nat (sim_instr_count sim))))) = 32" using Cons.prems(2) by (simp add: sane_uninit_def)
  note S = StepCore_shape [OF q k wf u]
  have ok: "cores_ok sim1" by (rule cores_ok_step [OF S(1) Cons.prems(3) S(2) k])
  have fr: "turn_frame sim sim1" by (rule step_frame_turn [OF S(1)])
  have n: "sim_instr_count sim \<le> sim_instr_count sim1" "sim_instr_count sim1 \<le> sim_instr_count sim + 1"
    using S(1) by (simp_all add: step_frame_def)
  have rt: "cores_ok (sim1\<lparr>rcode := c\<rparr>) \<and> turn_frame sim (sim1\<lparr>rcode := c\<rparr>)" for c
    using ok fr by (simp add: cores_ok_def turn_frame_def)
  show ?case
  proof (cases "rcode sim = 0 \<and> q = Inr ()")
    case True
    then have "StepCores u ks sim1 = (r, sim')" using Cons.prems(1) q by simp
    from Cons.IH [OF this Cons.prems(2) ok] fr n show ?thesis
      using Cons.prems(4) turn_frame_trans [OF fr, of sim'] by (simp add: turn_frame_def)
  next
    case False
    then have "sim' = sim \<or> sim' = sim1 \<or> sim' = sim1\<lparr>rcode := -1\<rparr>"
      using Cons.prems(1) q by (auto split: if_splits sum.splits sim_throw.splits)
    then show ?thesis using ok fr n rt Cons.prems(3) by auto
  qed
qed simp

text \<open>Without a debug server a turn that goes well executes one instruction on each of the ready cores.\<close>

lemma StepCores_progress:
  assumes "StepCores u ks sim = (Inr (), sim')" "sane_uninit u" "cores_ok sim" "debug_server sim = None"
    and "\<forall>k\<in>set ks. k < length (cores sim) \<and> Ready (cores sim ! k)" "distinct ks" "rcode sim = 0" "rcode sim' = 0"
  shows "sim_instr_count sim' = sim_instr_count sim + int (length ks)"
  using assms
proof (induction ks arbitrary: sim)
  case (Cons k ks)
  obtain q sim1 where q: "StepCore (u (nat (sim_instr_count sim))) k sim = (q, sim1)" by fastforce
  have k: "k < length (cores sim)" using Cons.prems(5) by simp
  then have wf: "wf_core (cores sim ! k)" using Cons.prems(3) by (simp add: cores_ok_def)
  have u: "length (X (u_state (u (nat (sim_instr_count sim))))) = 32" using Cons.prems(2) by (simp add: sane_uninit_def)
  note S = StepCore_shape [OF q k wf u]
  have Q: "q = Inr ()"
    using Cons.prems(1,7,8) q by (auto split: sum.splits sim_throw.splits)
  then have go: "StepCores u ks sim1 = (Inr (), sim')" using Cons.prems(1,7) q by simp
  have r: "rcode sim1 = 0"
    using go Cons.prems(8) by (cases ks) (auto split: if_splits)
  have ok: "cores_ok sim1" by (rule cores_ok_step [OF S(1) Cons.prems(3) S(2) k])
  obtain c where c: "cores sim1 = (cores sim)[k := c]" using S(1) by (auto simp: step_frame_def)
  have ready: "\<forall>k\<in>set ks. k < length (cores sim1) \<and> Ready (cores sim1 ! k)"
    using Cons.prems(5,6) c by (auto simp: nth_list_update)
  have "sim_instr_count sim' = sim_instr_count sim1 + int (length ks)"
    using Cons.IH [OF go Cons.prems(2) ok _ ready _ r Cons.prems(8)] S(1) Cons.prems(4,6) by (simp add: step_frame_def)
  moreover have "sim_instr_count sim1 = sim_instr_count sim + 1"
    using S(4) Cons.prems(4,5,7) Q r by simp
  ultimately show ?case by simp
qed simp
text \<open>Devices only signal core 0.\<close>

lemma wf_core_Signal: "wf_core c \<Longrightarrow> wf_core (Signal e c)"
  by (rule wf_core_step [OF step_signal])

lemma cores_ok_signal: "cores_ok sim \<Longrightarrow> cores_ok (snd (signal_core0 e sim))"
proof (cases "cores sim")
  case (Cons c cs)
  then show "cores_ok sim \<Longrightarrow> ?thesis" by (simp add: signal_core0_def cores_ok_def wf_core_Signal)
qed (simp add: signal_core0_def)

definition device_frame :: "RiscvSimulator \<Rightarrow> RiscvSimulator \<Rightarrow> bool" where
  "device_frame sim sim' \<longleftrightarrow> turn_frame sim sim' \<and> sim_instr_count sim' = sim_instr_count sim \<and> rcode sim' = rcode sim \<and>
     clock sim' = clock sim \<and> (cores_ok sim \<longrightarrow> cores_ok sim')"

lemma device_frame_signal: "signal_core0 e (sim\<lparr>plat := p, sim_console := con\<rparr>) = (r, sim') \<Longrightarrow> device_frame sim sim'"
proof -
  assume s: "signal_core0 e (sim\<lparr>plat := p, sim_console := con\<rparr>) = (r, sim')"
  have "cores_ok sim \<longrightarrow> cores_ok sim'"
    using cores_ok_signal [of "sim\<lparr>plat := p, sim_console := con\<rparr>" e] s by (simp add: cores_ok_def)
  then show ?thesis
    using s by (auto simp: device_frame_def signal_core0_def turn_frame_def split: if_splits)
qed

lemma device_frame_self: "device_frame sim (sim\<lparr>plat := p, sim_console := con\<rparr>)"
  by (simp add: device_frame_def turn_frame_def cores_ok_def)

lemma service_frame:
  "service_timer sim = (r, sim') \<Longrightarrow> device_frame sim sim'" "service_uart sim = (r, sim') \<Longrightarrow> device_frame sim sim'"
proof -
  have s: "device_frame sim sim" by (simp add: device_frame_def)
  have t: "signal_core0 e (sim\<lparr>plat := p\<rparr>) = (r, sim') \<Longrightarrow> device_frame sim sim'" "device_frame sim (sim\<lparr>plat := p\<rparr>)" for e p
    using device_frame_signal [where p = p and con = "sim_console sim" and sim = sim] device_frame_self [where p = p and con = "sim_console sim" and sim = sim] by simp_all
  show "service_timer sim = (r, sim') \<Longrightarrow> device_frame sim sim'"
    using s t by (auto simp: service_timer_def Let_def split: if_splits)
  show "service_uart sim = (r, sim') \<Longrightarrow> device_frame sim sim'"
    using s by (auto simp: service_uart_def Let_def device_frame_self split: if_splits prod.splits intro: device_frame_signal)
qed

lemma ServiceDevices_frame: "ServiceDevices sim = (r, sim') \<Longrightarrow> device_frame sim sim'"
  unfolding ServiceDevices_def thenS_def bindS_def
  by (auto simp: device_frame_def split: prod.splits sum.splits dest!: service_frame intro: turn_frame_trans)

lemma GetReadyCpus_perm:
  assumes "permutes_cores shuffle"
  shows "mset (GetReadyCpus shuffle sim) = mset (filter (\<lambda>k. Ready (cores sim ! k)) [0..<length (cores sim)])"
  using assms by (simp add: GetReadyCpus_def permutes_cores_def Let_def del: mset_filter)

lemma GetReadyCpus_ok:
  assumes "permutes_cores shuffle"
  shows "k \<in> set (GetReadyCpus shuffle sim) \<longleftrightarrow> k < length (cores sim) \<and> Ready (cores sim ! k)"
    "distinct (GetReadyCpus shuffle sim)" "length (GetReadyCpus shuffle sim) \<le> length (cores sim)"
proof -
  note m = GetReadyCpus_perm [OF assms, of sim]
  show "k \<in> set (GetReadyCpus shuffle sim) \<longleftrightarrow> k < length (cores sim) \<and> Ready (cores sim ! k)"
    using mset_eq_setD [OF m] by auto
  show "distinct (GetReadyCpus shuffle sim)" using mset_eq_imp_distinct_iff [OF m] by simp
  show "length (GetReadyCpus shuffle sim) \<le> length (cores sim)"
    using mset_eq_length [OF m] length_filter_le [of _ "[0..<length (cores sim)]"] by simp
qed

lemma go_turn_shape:
  assumes "go_turn u shuffle ks sim = (r, sim')" "sane_uninit u" "permutes_cores shuffle" "cores_ok sim"
    "\<forall>k\<in>set ks. k < length (cores sim)"
  shows "cores_ok sim'" "turn_frame sim sim'" "sim_instr_count sim \<le> sim_instr_count sim'"
    "sim_instr_count sim' \<le> sim_instr_count sim + int (length ks)" "r = Inr ks' \<Longrightarrow> ks' = GetReadyCpus shuffle sim'"
    "debug_server sim = None \<Longrightarrow> \<forall>k\<in>set ks. Ready (cores sim ! k) \<Longrightarrow> distinct ks \<Longrightarrow> rcode sim = 0 \<Longrightarrow> rcode sim' = 0 \<Longrightarrow>
       r = Inr ks' \<Longrightarrow> sim_instr_count sim' = sim_instr_count sim + int (length ks)"
proof -
  obtain q sim1 where q: "StepCores u ks sim = (q, sim1)" by fastforce
  note S = StepCores_shape [OF q assms(2,4,5)]
  obtain q2 sim2 where q2: "ServiceDevices (sim_AdvanceClock sim1) = (q2, sim2)" by fastforce
  have c: "cores_ok (sim_AdvanceClock sim1) = cores_ok sim1" "turn_frame (sim_AdvanceClock sim1) sim2 = turn_frame sim1 sim2"
    by (simp_all add: sim_AdvanceClock_def cores_ok_def turn_frame_def)
  note D = ServiceDevices_frame [OF q2, unfolded device_frame_def c]
  have "(if ks \<noteq> [] then StepCores u ks else returnS ()) = StepCores u ks"
    by (cases ks) (auto simp: fun_eq_iff)
  then have "(r, sim') = (case q of Inl e \<Rightarrow> (Inl e, sim1) | Inr _ \<Rightarrow>
      (case q2 of Inl e \<Rightarrow> (Inl e, sim2) | Inr _ \<Rightarrow> (Inr (GetReadyCpus shuffle sim2), sim2)))"
    using assms(1) q q2 unfolding go_turn_def thenS_def bindS_def by (auto split: sum.splits)
  then have cases: "q = Inr () \<and> sim' = sim2 \<and> (r = Inr (GetReadyCpus shuffle sim2) \<or> (\<exists>e. r = Inl e)) \<or> sim' = sim1 \<and> (\<exists>e. r = Inl e)"
    by (auto split: sum.splits)
  have "sim_instr_count (sim_AdvanceClock sim1) = sim_instr_count sim1" "rcode (sim_AdvanceClock sim1) = rcode sim1"
    by (simp_all add: sim_AdvanceClock_def)
  then show "cores_ok sim'" "turn_frame sim sim'" "sim_instr_count sim \<le> sim_instr_count sim'"
    "sim_instr_count sim' \<le> sim_instr_count sim + int (length ks)" "r = Inr ks' \<Longrightarrow> ks' = GetReadyCpus shuffle sim'"
    "debug_server sim = None \<Longrightarrow> \<forall>k\<in>set ks. Ready (cores sim ! k) \<Longrightarrow> distinct ks \<Longrightarrow> rcode sim = 0 \<Longrightarrow> rcode sim' = 0 \<Longrightarrow>
       r = Inr ks' \<Longrightarrow> sim_instr_count sim' = sim_instr_count sim + int (length ks)"
    using cases S D q StepCores_progress [OF _ assms(2,4), of ks sim1] assms(5) turn_frame_trans [of sim sim1 sim2]
    by auto
qed
section \<open>Runs\<close>

text \<open>The states the loop goes through, with the number of turns.\<close>

inductive go_run ::
    "(nat \<Rightarrow> uninit) \<Rightarrow> (nat \<Rightarrow> nat list \<Rightarrow> nat list) \<Rightarrow> nat list \<Rightarrow> RiscvSimulator \<Rightarrow> nat \<Rightarrow> nat list \<Rightarrow> RiscvSimulator \<Rightarrow> bool"
  for u shuffle ks0 sim0 where
  run_start: "go_run u shuffle ks0 sim0 0 ks0 sim0"
| run_turn: "go_run u shuffle ks0 sim0 n ks sim \<Longrightarrow> go_on ks sim \<Longrightarrow> go_turn u shuffle ks sim = (Inr ks', sim') \<Longrightarrow>
    go_run u shuffle ks0 sim0 (Suc n) ks' sim'"

declare go_loop.simps [simp del]

lemma go_loop_None:
  assumes "go_loop u shuffle fuel ks sim = None" "go_run u shuffle ks0 sim0 n ks sim"
  shows "\<exists>ks' sim'. go_run u shuffle ks0 sim0 (n + fuel) ks' sim' \<and> go_on ks' sim'"
  using assms
proof (induction fuel arbitrary: n ks sim)
  case 0
  then show ?case by (auto simp: go_loop.simps split: if_splits)
next
  case (Suc fuel)
  from Suc.prems(1) obtain ks1 sim1 where t: "go_on ks sim" "go_turn u shuffle ks sim = (Inr ks1, sim1)"
    "go_loop u shuffle fuel ks1 sim1 = None"
    by (auto simp: go_loop.simps [of u shuffle "Suc fuel"] split: if_splits sum.splits prod.splits)
  from Suc.IH [OF t(3) run_turn [OF Suc.prems(2) t(1,2)]] show ?case by simp
qed

lemma go_loop_Some:
  assumes "go_loop u shuffle fuel ks sim = Some (r, sim')" "go_run u shuffle ks0 sim0 n ks sim"
  shows "(\<exists>m ks'. go_run u shuffle ks0 sim0 m ks' sim' \<and> \<not> go_on ks' sim' \<and> r = Inr ()) \<or>
    (\<exists>m ks1 sim1 e. go_run u shuffle ks0 sim0 m ks1 sim1 \<and> go_on ks1 sim1 \<and> go_turn u shuffle ks1 sim1 = (Inl e, sim') \<and> r = Inl e)"
  using assms
proof (induction fuel arbitrary: n ks sim)
  case 0
  then show ?case by (auto simp: go_loop.simps split: if_splits)
next
  case (Suc fuel)
  show ?case
  proof (cases "go_on ks sim")
    case False
    then show ?thesis using Suc.prems by (auto simp: go_loop.simps)
  next
    case True
    obtain q sim1 where q: "go_turn u shuffle ks sim = (q, sim1)" by fastforce
    show ?thesis
    proof (cases q)
      case (Inl e)
      then show ?thesis using Suc.prems q True by (fastforce simp: go_loop.simps)
    next
      case (Inr ks1)
      then have "go_loop u shuffle fuel ks1 sim1 = Some (r, sim')"
        using Suc.prems(1) True q by (simp add: go_loop.simps [of u shuffle "Suc fuel"])
      from Suc.IH [OF this run_turn [OF Suc.prems(2) True q [unfolded Inr]]] show ?thesis .
    qed
  qed
qed

text \<open>More fuel gives the same result.\<close>

lemma go_loop_mono: "go_loop u shuffle fuel ks sim = Some x \<Longrightarrow> fuel \<le> fuel' \<Longrightarrow> go_loop u shuffle fuel' ks sim = Some x"
proof (induction fuel arbitrary: fuel' ks sim)
  case 0
  then show ?case by (auto simp: go_loop.simps split: if_splits)
next
  case (Suc fuel)
  then obtain f where f: "fuel' = Suc f" "fuel \<le> f" by (cases fuel') auto
  show ?case
    using Suc.prems(1) Suc.IH [OF _ f(2)] unfolding f(1)
    by (auto simp: go_loop.simps [of u shuffle "Suc _"] split: if_splits sum.splits prod.splits)
qed

text \<open>The invariant of runs.\<close>

definition sim_inv :: "(nat \<Rightarrow> nat list \<Rightarrow> nat list) \<Rightarrow> RiscvSimulator \<Rightarrow> nat list \<Rightarrow> RiscvSimulator \<Rightarrow> bool" where
  "sim_inv shuffle sim0 ks sim \<longleftrightarrow> cores_ok sim \<and> turn_frame sim0 sim \<and> mset ks = mset (GetReadyCpus shuffle sim)"

lemma sim_inv_ready:
  assumes "sim_inv shuffle sim0 ks sim" "permutes_cores shuffle"
  shows "\<forall>k\<in>set ks. k < length (cores sim) \<and> Ready (cores sim ! k)" "distinct ks" "length ks \<le> length (cores sim)"
proof -
  have m: "mset ks = mset (GetReadyCpus shuffle sim)" using assms(1) by (simp add: sim_inv_def)
  note G = GetReadyCpus_ok [OF assms(2)]
  show "\<forall>k\<in>set ks. k < length (cores sim) \<and> Ready (cores sim ! k)" using mset_eq_setD [OF m] G(1) by blast
  show "distinct ks" using mset_eq_imp_distinct_iff [OF m] G(2) by simp
  show "length ks \<le> length (cores sim)" using mset_eq_length [OF m] G(3) by simp
qed

lemma go_run_inv:
  assumes "go_run u shuffle ks0 sim0 n ks sim" "sim_inv shuffle sim0 ks0 sim0" "sane_uninit u" "permutes_cores shuffle"
  shows "sim_inv shuffle sim0 ks sim"
  using assms(1)
proof induction
  case (run_turn n ks sim ks' sim')
  have b: "\<forall>k\<in>set ks. k < length (cores sim)" using sim_inv_ready(1) [OF run_turn.IH assms(4)] by blast
  have ok: "cores_ok sim" "turn_frame sim0 sim" using run_turn.IH by (simp_all add: sim_inv_def)
  note T = go_turn_shape [OF run_turn.hyps(3) assms(3,4) ok(1) b]
  show ?case using T(1,2) T(5) [OF refl] turn_frame_trans [OF ok(2)] by (simp add: sim_inv_def)
qed (rule assms(2))

lemma go_run_progress:
  assumes "go_run u shuffle ks0 sim0 n ks sim" "sim_inv shuffle sim0 ks0 sim0" "sane_uninit u" "permutes_cores shuffle"
    and "debug_server sim0 = None" "\<And>m sim1. m < n \<Longrightarrow> go_run u shuffle ks0 sim0 m [] sim1 \<Longrightarrow> \<not> SleepingCores sim1"
  shows "rcode sim = 0 \<Longrightarrow> sim_instr_count sim0 + int n \<le> sim_instr_count sim"
  using assms(1,6)
proof induction
  case (run_turn n ks sim ks' sim')
  have I: "sim_inv shuffle sim0 ks sim" by (rule go_run_inv [OF run_turn.hyps(1) assms(2-4)])
  note R = sim_inv_ready [OF I assms(4)]
  have ok: "cores_ok sim" "turn_frame sim0 sim" using I by (simp_all add: sim_inv_def)
  have b: "\<forall>k\<in>set ks. k < length (cores sim)" and rd: "\<forall>k\<in>set ks. Ready (cores sim ! k)" using R(1) by blast+
  note T = go_turn_shape [OF run_turn.hyps(3) assms(3,4) ok(1) b]
  have "ks \<noteq> []" using run_turn.hyps(1,2) run_turn.prems(2) [of n sim] by (auto simp: go_on_def)
  then have len: "1 \<le> int (length ks)" by (cases ks) simp_all
  have "rcode sim = 0" using run_turn.hyps(2) by (simp add: go_on_def)
  moreover from this have "sim_instr_count sim0 + int n \<le> sim_instr_count sim"
    using run_turn.IH run_turn.prems(2) less_SucI by blast
  moreover have "debug_server sim = None" using ok(2) assms(5) by (simp add: turn_frame_def)
  ultimately show ?case using T(6) [OF _ rd R(2) _ run_turn.prems(1) refl] len by simp
qed simp

section \<open>Properties of runs\<close>

lemma go_loop_invariant:
  assumes "go_loop u shuffle fuel ks sim = Some (r, sim')" "sim_inv shuffle sim ks sim" "sane_uninit u" "permutes_cores shuffle"
  shows "cores_ok sim'" "turn_frame sim sim'"
    "0 \<le> max_instr_count (sim_cfg sim) \<Longrightarrow> sim_instr_count sim \<le> max_instr_count (sim_cfg sim) \<Longrightarrow>
      sim_instr_count sim' \<le> max_instr_count (sim_cfg sim) + int (length (cores sim))"
proof -
  let ?M = "max_instr_count (sim_cfg sim)" and ?n = "int (length (cores sim))"
  have turn: "cores_ok sim2 \<and> turn_frame sim sim2 \<and> (0 \<le> ?M \<longrightarrow> sim_instr_count sim2 \<le> ?M + ?n)"
    if "go_run u shuffle ks sim m ks1 sim1" "go_on ks1 sim1" "go_turn u shuffle ks1 sim1 = (q, sim2)" for m ks1 sim1 q sim2
  proof -
    have I: "sim_inv shuffle sim ks1 sim1" by (rule go_run_inv [OF that(1) assms(2-4)])
    note R = sim_inv_ready [OF I assms(4)]
    have ok: "cores_ok sim1" "turn_frame sim sim1" using I by (simp_all add: sim_inv_def)
    have b: "\<forall>k\<in>set ks1. k < length (cores sim1)" using R(1) by blast
    note T = go_turn_shape [OF that(3) assms(3,4) ok(1) b]
    have "0 \<le> ?M \<longrightarrow> sim_instr_count sim1 \<le> ?M" "length (cores sim1) = length (cores sim)"
      using that(2) ok(2) by (auto simp: go_on_def InstructionCountExceeded_def turn_frame_def split: if_splits)
    then show ?thesis using T(1,4) turn_frame_trans [OF ok(2) T(2)] R(3) by auto
  qed
  have at: "cores_ok sim1 \<and> turn_frame sim sim1 \<and> (0 \<le> ?M \<longrightarrow> sim_instr_count sim \<le> ?M \<longrightarrow> sim_instr_count sim1 \<le> ?M + ?n)"
    if "go_run u shuffle ks sim m ks1 sim1" for m ks1 sim1
    using that
  proof (cases rule: go_run.cases)
    case run_start
    then show ?thesis using assms(2) by (simp add: sim_inv_def)
  next
    case (run_turn n ks2 sim2)
    from turn [OF run_turn(2-4)] show ?thesis by simp
  qed
  have "cores_ok sim' \<and> turn_frame sim sim' \<and> (0 \<le> ?M \<longrightarrow> sim_instr_count sim \<le> ?M \<longrightarrow> sim_instr_count sim' \<le> ?M + ?n)"
    using go_loop_Some [OF assms(1) run_start]
  proof (elim disjE exE conjE)
    fix m ks' assume "go_run u shuffle ks sim m ks' sim'"
    then show ?thesis by (rule at)
  next
    fix m ks1 sim1 e
    assume "go_run u shuffle ks sim m ks1 sim1" "go_on ks1 sim1" "go_turn u shuffle ks1 sim1 = (Inl e, sim')"
    from turn [OF this] show ?thesis by simp
  qed
  then show "cores_ok sim'" "turn_frame sim sim'"
    "0 \<le> ?M \<Longrightarrow> sim_instr_count sim \<le> ?M \<Longrightarrow> sim_instr_count sim' \<le> ?M + ?n"
    by simp_all
qed

lemma Init_inv:
  assumes "\<And>i. wf_mstatus (csrs i MSTATUS AND 0x807fffff)"
  shows "cores_ok (Init cfg dev_order csrs u0 m con reads writes)"
  using assms by (auto simp: cores_ok_def Init_def Let_def DefaultAddressRange_def intro!: wf_core_new)

lemma Init_fields:
  "sim_cfg (Init cfg dev_order csrs u0 m con reads writes) = cfg" "length (cores (Init cfg dev_order csrs u0 m con reads writes)) = unat (num_cores cfg)"
  by (simp_all add: Init_def Let_def DefaultAddressRange_def)

lemma go_frame:
  assumes "\<And>i. wf_mstatus (csrs i MSTATUS AND 0x807fffff)" "sane_uninit u" "permutes_cores shuffle"
    and "Go lib u shuffle fuel (Init cfg dev_order csrs u0 m con reads writes) = Some (r, sim')"
  shows "(\<forall>c\<in>set (cores sim'). wf_core c) \<and> sim_cfg sim' = cfg \<and> length (cores sim') = unat (num_cores cfg) \<and>
    (0 \<le> max_instr_count cfg \<longrightarrow> sim_instr_count sim' \<le> max_instr_count cfg + int (unat (num_cores cfg))) \<and>
    (r = Inr 0 \<longrightarrow> (\<forall>c\<in>set (cores sim'). end_test c))"
proof -
  let ?init = "Init cfg dev_order csrs u0 m con reads writes"
  obtain q p where l: "LoadTestImage lib (?init\<lparr>rcode := 0\<rparr>) = (q, ?init\<lparr>rcode := 0, plat := p\<rparr>)"
    by (cases "load_images lib (SrcFiles cfg []) (plat ?init)") (simp add: LoadTestImage_def Init_fields)
  let ?s = "?init\<lparr>plat := p, rcode := 0, sim_instr_count := 0\<rparr>"
  have ok: "cores_ok ?init" by (rule Init_inv) (rule assms(1))
  have n0: "sim_instr_count ?init = 0" by (simp add: Init_def Let_def DefaultAddressRange_def)
  show ?thesis
  proof (cases "q = Inr 0")
    case False
    then show ?thesis
      using assms(4) l ok n0 by (cases q) (auto simp: Go_def Let_def cores_ok_def Init_fields)
  next
    case True
    define ks where "ks = GetReadyCpus shuffle (?init\<lparr>plat := p, rcode := 0\<rparr>)"
    have "ks = GetReadyCpus shuffle ?s" by (simp add: ks_def GetReadyCpus_def Let_def)
    then have I: "sim_inv shuffle ?s ks ?s" using ok by (simp add: sim_inv_def cores_ok_def)
    obtain q1 sim1 where g: "go_loop u shuffle fuel ks ?s = Some (q1, sim1)"
      using assms(4) l True by (auto simp: Go_def Let_def ks_def split: option.splits)
    note G = go_loop_invariant [OF g I assms(2,3)]
    have e: "(r, sim') = (case q1 of Inl e \<Rightarrow> (Inl e, sim1) | Inr _ \<Rightarrow>
        (if list_ex (\<lambda>s. \<not> Halted s) (cores sim1) then (Inr (-1), sim1\<lparr>rcode := -1\<rparr>) else (Inr (rcode sim1), sim1)))"
      using assms(4) l True g by (auto simp: Go_def Let_def ks_def split: sum.splits)
    then have "cores sim' = cores sim1 \<and> sim_cfg sim' = sim_cfg sim1 \<and> sim_instr_count sim' = sim_instr_count sim1"
      "r = Inr 0 \<longrightarrow> (\<forall>c\<in>set (cores sim1). end_test c)"
      by (auto simp: list_ex_iff Halted_def split: sum.splits if_splits)
    then show ?thesis using G(1-3) by (simp add: cores_ok_def turn_frame_def Init_fields)
  qed
qed

text \<open>
  C1. The invariant of a simulation. Suppose that the status register, which the constructor of a core
  does not set, is found with supported bits only in every new core, that a buffer for a core state has
  32 registers and that the shuffle of the cores is a permutation. However many cores, devices and turns
  there are, whatever the program and the gdb client do and however the run ends: when it ends, every
  core is well formed (register 0 is zero, only supported status bits are set, the level is user or
  machine), and configuration and number of cores are unchanged. With a limit on instructions, all cores
  together have executed at most one instruction per core more than the limit, which is compared with
  the total of all cores. The return code is 0 only if every core has ended its test.
\<close>

theorem simulation_invariant:
  assumes "\<And>i. wf_mstatus (csrs i MSTATUS AND 0x807fffff)" "sane_uninit u" "permutes_cores shuffle"
    and "Go lib u shuffle fuel (Init cfg dev_order csrs u0 m con reads writes) = Some (r, sim')"
  shows "(\<forall>c\<in>set (cores sim'). wf_core c) \<and> sim_cfg sim' = cfg \<and> length (cores sim') = unat (num_cores cfg) \<and>
    (0 \<le> max_instr_count cfg \<longrightarrow> sim_instr_count sim' \<le> max_instr_count cfg + int (unat (num_cores cfg))) \<and>
    (r = Inr 0 \<longrightarrow> (\<forall>c\<in>set (cores sim'). end_test c))"
  by (rule go_frame [OF assms])

text \<open>
  C3. Termination of the loop of \<open>Go\<close>. With a limit on instructions and without a debug server, every turn
  executes at least one instruction unless all cores that have not ended are asleep. So as many turns
  as instructions are left, and one more, are enough: either the loop ends, and more fuel does not
  change how, or within these turns it comes to wait for a device with every core asleep or ended.
\<close>

theorem go_terminates:
  assumes "cores_ok sim" "debug_server sim = None" "sane_uninit u" "permutes_cores shuffle"
    and limit: "0 \<le> max_instr_count (sim_cfg sim)" and fuel: "max_instr_count (sim_cfg sim) - sim_instr_count sim < int fuel"
  shows "(\<exists>x. \<forall>fuel'\<ge>fuel. go_loop u shuffle fuel' (GetReadyCpus shuffle sim) sim = Some x) \<or>
    (\<exists>n<fuel. \<exists>sim'. go_run u shuffle (GetReadyCpus shuffle sim) sim n [] sim' \<and> SleepingCores sim' \<and>
       (\<forall>c\<in>set (cores sim'). end_test c \<or> LowPowerMode c \<and> InterruptPending c = None))"
proof (cases "go_loop u shuffle fuel (GetReadyCpus shuffle sim) sim")
  case (Some x)
  then show ?thesis using go_loop_mono by blast
next
  case None
  let ?ks = "GetReadyCpus shuffle sim"
  have I: "sim_inv shuffle sim ?ks sim" using assms(1) by (simp add: sim_inv_def)
  obtain ks1 sim1 where r: "go_run u shuffle ?ks sim fuel ks1 sim1" and on: "go_on ks1 sim1"
    using go_loop_None [OF None run_start] by auto
  have "sim_cfg sim1 = sim_cfg sim" using go_run_inv [OF r I assms(3,4)] by (simp add: sim_inv_def turn_frame_def)
  then have "sim_instr_count sim1 \<le> max_instr_count (sim_cfg sim)" "rcode sim1 = 0"
    using on limit by (simp_all add: go_on_def InstructionCountExceeded_def)
  with go_run_progress [OF r I assms(3,4,2)] fuel
  obtain n sim' where n: "n < fuel" "go_run u shuffle ?ks sim n [] sim'" "SleepingCores sim'" by force
  have "mset [] = mset (GetReadyCpus shuffle sim')" using go_run_inv [OF n(2) I assms(3,4)] by (simp add: sim_inv_def)
  then have "\<not> Ready (cores sim' ! k)" if "k < length (cores sim')" for k
    using GetReadyCpus_ok(1) [OF assms(4), of k sim'] that by simp
  then have "\<forall>c\<in>set (cores sim'). end_test c \<or> LowPowerMode c \<and> InterruptPending c = None"
    by (metis Ready_def in_set_conv_nth)
  then show ?thesis using n by blast
qed
end
