(* ===== verification/Programs.thy ===== *)
theory Programs
  imports Simulation
begin

text \<open>
  Programs in memory. An instruction that lies in ordinary memory at the program counter is fetched,
  executed and written back by one step of the simulator; a jump to itself ends the test, and with it
  \<open>Go\<close>. The host is little endian here: \<open>StepCore\<close> reorders the bytes of an opcode in place, which
  does not work on others (\<open>apply_endianness_correct\<close> of \<open>Memory_Sys\<close>).
\<close>

unbundle bit_operations_syntax

section \<open>Fetch\<close>

lemma in_place_little: "ApplyEndianness_in_place False buf False m n = buf"
proof -
  have "foldl (\<lambda>d k. d[k := d ! endian_source True m k]) buf ks = buf" for ks
    by (induction ks) (simp_all add: endian_source_def)
  then show ?thesis by (simp add: ApplyEndianness_in_place_def)
qed

lemma assemble_low: "bit (assemble a) 0" "bit (assemble a) (Suc 0)"
proof -
  have I: "bit (fst (I_code c)) 0 \<and> bit (fst (I_code c)) (Suc 0)" for c by (cases c) simp_all
  show "bit (assemble a) 0" "bit (assemble a) (Suc 0)"
    by (cases a; simp add: bit_enc_fields I)+
qed

text \<open>Both low bits set: no compressed instruction.\<close>

lemma class16_unknown:
  assumes "bit enc 0" "bit enc (Suc 0)"
  shows "class_of_encoding16 s enc = UnknownInstruction"
proof -
  have low: "bit (3 :: u32) n \<longleftrightarrow> n < 2" for n
  proof -
    have "bit (mask 2 :: u32) n \<longleftrightarrow> n < 2" unfolding bit_mask_iff by auto
    moreover have "mask 2 = (3 :: u32)" by (simp add: mask_eq_exp_minus_1)
    ultimately show ?thesis by metis
  qed
  have three: "enc AND 3 = 3"
    by (rule bit_word_eqI, unfold bit_and_iff low less_2_cases_iff) (use assms in auto)
  have "push_bit 4 (drop_bit 13 enc AND 7) OR 3 \<notin>
    {0x31, 0x41, 0x00, 0x20, 0x60, 0x01, 0x11, 0x21, 0x51, 0x61, 0x71 :: u32}" (is "?x \<notin> _")
  proof -
    have "bit ?x (Suc 0)" by (simp add: bit_simps)
    then show ?thesis by (auto simp del: bit_or_iff)
  qed
  moreover have "enc \<noteq> 0" "enc \<noteq> 1" using assms by auto
  ultimately show ?thesis
    unfolding class_of_encoding16_def Let_def three by (simp add: switch_def)
qed

lemma take_word_bytes: "m \<le> n \<Longrightarrow> take m (word_bytes n w) = word_bytes m w"
  by (rule nth_equalityI) (simp_all add: nth_word_bytes)

lemma bytes_word_append_zeros: "bytes_word (bs @ replicate n 0) = (bytes_word bs :: u32)"
  by (induction bs) (simp_all, induction n, simp_all)

lemma span_of_take: "span_of f a n = map Some bs \<Longrightarrow> m \<le> n \<Longrightarrow> span_of f a m = map Some (take m bs)"
  using span_of_split [of f a m "n - m" bs] by simp

lemma fetch_assembled:
  assumes mem: "wf_mem p" "ram_span p pc 4" "\<not> host_endianness (memory p)"
    and code: "span_of (mem_byte p) pc 4 = map Some (word_bytes 4 (assemble a))"
  obtains p' where "fetch u s pc p = (Inr (NewInstruction s p' (assemble a) False (u_buf u)), p')"
    "same_setup p p'" "wf_mem p'" "mem_byte p' = mem_byte p"
proof -
  let ?e = "assemble a"
  have sp2: "ram_span p pc 2" using ram_span_sub [OF mem(2), of 0 2] mem(1) by (simp add: wf_mem_def)
  have c2: "span_of (mem_byte p) pc 2 = map Some (word_bytes 2 ?e)"
    using span_of_take [OF code, of 2] by (simp add: take_word_bytes)
  obtain p1 where p1: "ReadMemory s pc False False 2 True [0, 0, 0, 0] False False p =
      (Inr (0, put_bytes 0 (word_bytes 2 ?e) [0, 0, 0, 0]), p1)" "same_setup p p1" "wf_mem p1" "mem_byte p1 = mem_byte p"
    using ReadMemory_defined [OF mem(1) sp2 _ _ c2, of "[0, 0, 0, 0]" False True s False False False] by auto
  let ?b = "put_bytes 0 (word_bytes 2 ?e) [0, 0, 0, 0]"
  have h1: "\<not> host_endianness (memory p1)" using same_setup_fields [OF p1(2)] mem(3) by simp
  have b: "?b = word_bytes 2 ?e @ replicate 2 0"
    by (simp add: numeral_2_eq_2 put_bytes_def)
  have w1: "fetch_word p1 ?b 2 = take_bit 16 ?e"
    unfolding b using h1 by (simp add: fetch_word_def in_place_little host_word_def bytes_word_append_zeros bytes_word_bytes del: replicate.simps)
  have unk: "iclass (NewInstruction s p1 (take_bit 16 ?e) True (u_buf u)) = UnknownInstruction"
    using assemble_low [of a]
    by (simp add: NewInstruction_def NewInstruction16_def RiscvInstruction_new_def Let_def class16_unknown bit_take_bit_iff)
  have "ram_span p1 pc 4" "span_of (mem_byte p1) pc 4 = map Some (word_bytes 4 ?e)"
    using mem(2) code p1(4) by (simp_all add: ram_span_setup [OF p1(2)])
  then obtain p2 where p2: "ReadMemory s pc False False 4 True ?b False False p1 =
      (Inr (0, put_bytes 0 (word_bytes 4 ?e) ?b), p2)" "same_setup p1 p2" "wf_mem p2" "mem_byte p2 = mem_byte p1"
    using ReadMemory_defined [OF p1(3), of pc 4 ?b False True "word_bytes 4 ?e" s False False False] by auto
  have h2: "\<not> host_endianness (memory p2)" using same_setup_fields [OF p2(2)] h1 by simp
  have "put_bytes 0 (word_bytes 4 ?e) ?b = word_bytes 4 ?e" by (simp add: put_bytes_all)
  then have w2: "fetch_word p2 (put_bytes 0 (word_bytes 4 ?e) ?b) 4 = ?e"
    using h2 by (simp add: fetch_word_def in_place_little host_word_def bytes_word_bytes)
  show thesis
    using p1 p2 w1 w2 unk h1 same_setup_trans [OF p1(2) p2(2)]
    by (intro that [of p2]) (simp_all add: fetch_def Let_def in_place_little)
qed

section \<open>Steps\<close>

text \<open>
  Core \<open>k\<close> is about to execute \<open>a\<close>: it is running, no interrupt is to be taken, there is no debugger,
  and the four bytes of the instruction lie in ordinary memory at its program counter.
\<close>

definition runs_at :: "RiscvSimulator \<Rightarrow> nat \<Rightarrow> asm \<Rightarrow> bool" where
  "runs_at sim k a \<longleftrightarrow> k < length (cores sim) \<and> wf_core (cores sim ! k) \<and> \<not> end_test (cores sim ! k) \<and>
     \<not> LowPowerMode (cores sim ! k) \<and> InterruptPending (cores sim ! k) = None \<and> debug_server sim = None \<and>
     sim_instr_count sim < 2 ^ 31 - 1 \<and> wf_mem (plat sim) \<and> ram_span (plat sim) (fetch_pc (cores sim ! k)) 4 \<and>
     \<not> host_endianness (memory (plat sim)) \<and>
     span_of (mem_byte (plat sim)) (fetch_pc (cores sim ! k)) 4 = map Some (word_bytes 4 (assemble a))"

lemma StepCore_assembled:
  assumes at: "runs_at sim k a" and u: "length (X (u_state u)) = 32"
  obtains p' where "StepCore u k sim = run_instr k (fetched (RiscvState_Update (cores sim ! k) (u_state u)) p' a (u_buf u))
      (fetch_pc (cores sim ! k)) (sim\<lparr>plat := p'\<rparr>)"
    "same_setup (plat sim) p'" "wf_mem p'" "mem_byte p' = mem_byte (plat sim)"
proof -
  let ?c = "cores sim ! k"
  let ?s = "RiscvState_Update ?c (u_state u)"
  have wf: "wf_core ?c" and np: "InterruptPending ?c = None" "\<not> LowPowerMode ?c" using at by (simp_all add: runs_at_def)
  have pc: "fetch_pc ?s = fetch_pc ?c" by (simp add: fetch_pc_def copy_of_core [OF wf u])
  have mem: "wf_mem (plat sim)" "ram_span (plat sim) (fetch_pc ?c) 4" "\<not> host_endianness (memory (plat sim))"
    "span_of (mem_byte (plat sim)) (fetch_pc ?c) 4 = map Some (word_bytes 4 (assemble a))"
    using at by (simp_all add: runs_at_def)
  obtain p' where p': "fetch u ?s (fetch_pc ?c) (plat sim) = (Inr (fetched ?s p' a (u_buf u)), p')"
    "same_setup (plat sim) p'" "wf_mem p'" "mem_byte p' = mem_byte (plat sim)"
    by (rule fetch_assembled [OF mem]) (rule that)
  have eta: "(fetched ?s p' a (u_buf u))\<lparr>i_state := ?s, i_memory := p'\<rparr> = fetched ?s p' a (u_buf u)"
    by (simp add: NewInstruction_def RiscvInstruction_new_def Let_def)
  have "step_awake u k ?s sim = run_instr k ((fetched ?s p' a (u_buf u))\<lparr>i_state := ?s, i_memory := p'\<rparr>) (fetch_pc ?c) (sim\<lparr>plat := p'\<rparr>)"
    using at p'(1) by (simp add: step_awake_def pc DebugPreStepChecks_def runs_at_def)
  then have "step_awake u k ?s sim = run_instr k (fetched ?s p' a (u_buf u)) (fetch_pc ?c) (sim\<lparr>plat := p'\<rparr>)"
    unfolding eta .
  moreover obtain s where "StepCore u k sim = (if LowPowerMode s then (Inr (), sim) else step_awake u k s sim)"
    "LowPowerMode s \<longleftrightarrow> LowPowerMode ?c \<and> InterruptPending ?c = None" "s = ?s"
    by (rule StepCore_cases [OF wf u]) (use np that in blast)
  ultimately show thesis using p' np by (intro that [of p']) simp_all
qed

text \<open>An instruction without queued memory accesses, other than ECALL.\<close>

lemma run_instr_plain:
  assumes "Execute i = (Inr (), j)" "mOpsMemory j = []" "iclass i \<noteq> Utype ECALL" "debug_server sim = None"
    and "sim_instr_count sim < 2 ^ 31 - 1" "k < length (cores sim)"
    and c: "c = RiscvState_Update (i_state j) (cores sim ! k)" "\<not> end_test c" "\<not> LowPowerMode c"
  shows "run_instr k i pc sim = (Inr (), set_core k (c\<lparr>end_test := (PC c = pc)\<rparr>)
    (sim\<lparr>plat := i_memory j, sim_instr_count := sim_instr_count sim + 1\<rparr>))"
  using assms
  by (simp add: run_instr_def Writeback_def step_end_def Let_def DebugPostStepChecks_def SetEndTest_def set_core_def)

definition stepped :: "nat \<Rightarrow> RiscvSimulator \<Rightarrow> RiscvSimulator \<Rightarrow> u64 list \<Rightarrow> u64 \<Rightarrow> bool \<Rightarrow> bool" where
  "stepped k sim sim' x a e \<longleftrightarrow>
     (\<exists>c. cores sim' = (cores sim)[k := c] \<and> X c = x \<and> PC c = a \<and> end_test c = e \<and> wf_core c \<and> \<not> LowPowerMode c \<and>
        machine_state c = machine_state (cores sim ! k) \<and>
        (\<forall>r. r \<notin> {MCOUNTINHIBIT, MSTATUSH, MISA} \<longrightarrow> reg_value r c = reg_value r (cores sim ! k))) \<and>
     sim_instr_count sim' = sim_instr_count sim + 1 \<and> rcode sim' = rcode sim \<and> sim_cfg sim' = sim_cfg sim \<and>
     clock sim' = clock sim \<and> debug_server sim' = None \<and>
     same_setup (plat sim) (plat sim') \<and> wf_mem (plat sim') \<and> mem_byte (plat sim') = mem_byte (plat sim)"

lemma reg_value_fields [simp]: "reg_value r (s\<lparr>PC := a, X := x\<rparr>) = reg_value r s" "reg_value r (s\<lparr>end_test := b\<rparr>) = reg_value r s"
  by (rule reg_value_cong, simp)+

lemma step_plain:
  assumes at: "runs_at sim k a" and u: "length (X (u_state u)) = 32" and a: "asm_class a \<noteq> Utype ECALL"
    and ex: "\<And>s p. PC s = PC (cores sim ! k) \<Longrightarrow> X s = X (cores sim ! k) \<Longrightarrow> wf_core s \<Longrightarrow>
      \<exists>j. Execute (fetched s p a (u_buf u)) = (Inr (), j) \<and> mOpsMemory j = [] \<and> i_memory j = p \<and>
        i_state j = s\<lparr>PC := pc', X := x'\<rparr>"
  shows "\<exists>sim'. StepCore u k sim = (Inr (), sim') \<and> stepped k sim sim' x' pc' (pc' = fetch_pc (cores sim ! k))"
proof -
  let ?c = "cores sim ! k"
  let ?s = "RiscvState_Update ?c (u_state u)"
  have wf: "wf_core ?c" and run: "\<not> end_test ?c" "\<not> LowPowerMode ?c" "debug_server sim = None" "sim_instr_count sim < 2 ^ 31 - 1"
    "k < length (cores sim)" using at by (simp_all add: runs_at_def)
  have len: "length (X ?c) = 32" using wf by (simp add: wf_core_def)
  note S = copy_of_core [OF wf u]
  obtain p' where p': "StepCore u k sim = run_instr k (fetched ?s p' a (u_buf u)) (fetch_pc ?c) (sim\<lparr>plat := p'\<rparr>)"
    "same_setup (plat sim) p'" "wf_mem p'" "mem_byte p' = mem_byte (plat sim)"
    by (rule StepCore_assembled [OF at u])
  obtain j where j: "Execute (fetched ?s p' a (u_buf u)) = (Inr (), j)" "mOpsMemory j = []" "i_memory j = p'"
    "i_state j = ?s\<lparr>PC := pc', X := x'\<rparr>"
    using ex [OF S(4,5,1), of p'] by blast
  define c where "c = RiscvState_Update (i_state j) ?c"
  have wj: "wf_core (i_state j)" by (rule Execute_wf [OF _ j(1)]) (simp add: S)
  then have lj: "length (X (i_state j)) = 32" by (simp add: wf_core_def)
  note U = Update_fields [OF lj len, folded c_def]
  have fields: "X c = x'" "PC c = pc'" "machine_state c = machine_state ?c" "\<not> end_test c" "\<not> LowPowerMode c"
    using U run Update_fields [OF len u] by (simp_all add: j(4) LowPowerMode_def)
  have "wf_core c" unfolding c_def using wf_core_Update [OF wf lj] wj by (simp add: wf_core_def)
  moreover have "reg_value r c = reg_value r ?c" if "r \<notin> {MCOUNTINHIBIT, MSTATUSH, MISA}" for r
    using that reg_value_copy [OF wj len, of r] reg_value_copy [OF wf u, of r] by (simp add: c_def j(4))
  moreover have "StepCore u k sim = (Inr (), set_core k (c\<lparr>end_test := (PC c = fetch_pc ?c)\<rparr>)
      (sim\<lparr>plat := p', sim_instr_count := sim_instr_count sim + 1\<rparr>))"
    using run_instr_plain [OF j(1,2), of "sim\<lparr>plat := p'\<rparr>" k c] run fields a p'(1) j(3) by (simp add: c_def)
  ultimately show ?thesis
    using fields p' run unfolding stepped_def
    by (intro exI conjI) (rule refl | assumption | simp add: LowPowerMode_def)+
qed

text \<open>What an instruction that only writes a register makes of the state.\<close>

lemma writes_rd_shape:
  assumes "writes_rd (Execute (fetched s p a buf)) s p r v" "PC s = PC c" "X s = X c"
  shows "\<exists>j. Execute (fetched s p a buf) = (Inr (), j) \<and> mOpsMemory j = [] \<and> i_memory j = p \<and>
    i_state j = s\<lparr>PC := ucast (ucast (PC c) + 4 :: u32), X := X (SetGP r (ucast v) c)\<rparr>"
  using assms by (cases "Execute (fetched s p a buf)") (auto simp: writes_rd_def SetGP_def RiscvState_SetPC_def)

lemma GP_cong: "X s = X c \<Longrightarrow> GP r s = GP r c"
  by (simp add: GP_def)

lemma next_word_differs: "ucast (ucast a + 4 :: u32) \<noteq> (ucast (ucast a :: u32) :: u64)" for a :: u64
proof
  assume "ucast (ucast a + 4 :: u32) = (ucast (ucast a :: u32) :: u64)"
  from arg_cong [OF this, of "ucast :: u64 \<Rightarrow> u32"] show False by simp
qed

section \<open>Properties of programs\<close>

text \<open>
  C2. From memory to registers: when the encoding of a register-register instruction of RV32IM lies in
  ordinary memory at the program counter of a running core, a step of the simulator decodes and executes
  it and writes the core back: the destination holds the result the architecture defines, the program
  counter is at the next word, control registers, privilege, memory contents and other cores are
  unchanged, and one more instruction is counted. (Excepted are the operands for which the code has
  another or no result.)
\<close>

theorem step_register_instruction:
  assumes at: "runs_at sim k (AsmR c r a b)" and u: "length (X (u_state u)) = 32"
    and defined: "alu_defined c (ucast (GP (take_bit 5 b) (cores sim ! k)))"
  shows "\<exists>sim'. StepCore u k sim = (Inr (), sim') \<and>
    stepped k sim sim'
      (X (SetGP (take_bit 5 r) (ucast (alu_ref c (ucast (GP (take_bit 5 a) (cores sim ! k))) (ucast (GP (take_bit 5 b) (cores sim ! k)))))
        (cores sim ! k)))
      (ucast (ucast (PC (cores sim ! k)) + 4 :: u32)) False"
proof -
  let ?c = "cores sim ! k"
  let ?v = "alu_ref c (ucast (GP (take_bit 5 a) ?c)) (ucast (GP (take_bit 5 b) ?c))"
  have "\<exists>sim'. StepCore u k sim = (Inr (), sim') \<and> stepped k sim sim' (X (SetGP (take_bit 5 r) (ucast ?v) ?c))
      (ucast (ucast (PC ?c) + 4 :: u32)) (ucast (ucast (PC ?c) + 4 :: u32) = fetch_pc ?c)"
  proof (rule step_plain [OF at u])
    fix s :: RiscvState and p
    assume s: "PC s = PC ?c" "X s = X ?c"
    have "writes_rd (Execute (fetched s p (AsmR c r a b) (u_buf u))) s p (take_bit 5 r) ?v"
      using alu_register_step [of c b s p r a "u_buf u"] defined by (simp add: GP_cong [OF s(2)] del: alu_ref.simps)
    from writes_rd_shape [OF this s]
    show "\<exists>j. Execute (fetched s p (AsmR c r a b) (u_buf u)) = (Inr (), j) \<and> mOpsMemory j = [] \<and> i_memory j = p \<and>
        i_state j = s\<lparr>PC := ucast (ucast (PC ?c) + 4 :: u32), X := X (SetGP (take_bit 5 r) (ucast ?v) ?c)\<rparr>" .
  qed simp
  then show ?thesis by (simp add: fetch_pc_def next_word_differs)
qed
text \<open>A jump to itself.\<close>

lemma step_jump_to_self:
  assumes at: "runs_at sim k (AsmJAL r 0)" and u: "length (X (u_state u)) = 32"
    and aligned: "(ucast (PC (cores sim ! k)) :: u32) AND 3 = 0"
  shows "\<exists>sim'. StepCore u k sim = (Inr (), sim') \<and>
    stepped k sim sim' (X (SetGP (take_bit 5 r) (ucast (ucast (PC (cores sim ! k)) + 4 :: u32)) (cores sim ! k)))
      (fetch_pc (cores sim ! k)) True"
proof -
  let ?c = "cores sim ! k"
  have low: "(ucast (PC ?c) :: u32) AND 1 = 0"
  proof -
    have "(ucast (PC ?c) :: u32) AND 1 = (ucast (PC ?c) AND 3) AND 1" unfolding and.assoc by simp
    then show ?thesis by (simp only: aligned) simp
  qed
  have "\<exists>sim'. StepCore u k sim = (Inr (), sim') \<and> stepped k sim sim'
      (X (SetGP (take_bit 5 r) (ucast (ucast (PC ?c) + 4 :: u32)) ?c)) (fetch_pc ?c) (fetch_pc ?c = fetch_pc ?c)"
  proof (rule step_plain [OF at u])
    fix s :: RiscvState and p
    assume s: "PC s = PC ?c" "X s = X ?c" "wf_core s"
    have "transfers_to (Execute (fetched s p (AsmJAL r 0) (u_buf u))) s
        (SetGP (take_bit 5 r) (ucast (ucast (PC s) + 4 :: u32)) s) p (ucast (PC s))"
      using jal_step [OF s(3), of 0 p r "u_buf u"] by (simp del: assemble.simps)
    then show "\<exists>j. Execute (fetched s p (AsmJAL r 0) (u_buf u)) = (Inr (), j) \<and> mOpsMemory j = [] \<and> i_memory j = p \<and>
        i_state j = s\<lparr>PC := fetch_pc ?c, X := X (SetGP (take_bit 5 r) (ucast (ucast (PC ?c) + 4 :: u32)) ?c)\<rparr>"
      using aligned low s(1,2)
      by (cases "Execute (fetched s p (AsmJAL r 0) (u_buf u))")
        (auto simp: transfers_to_def fetch_pc_def SetGP_def RiscvState_SetPC_def split: if_splits)
  qed simp
  then show ?thesis by simp
qed

lemma go_jump_to_self:
  assumes load: "LoadTestImage lib sim = (Inr 0, sim1)" and one: "length (cores sim1) = 1"
    and at: "runs_at (sim1\<lparr>rcode := 0, sim_instr_count := 0\<rparr>) 0 (AsmJAL r 0)" and aligned: "(ucast (PC (cores sim1 ! 0)) :: u32) AND 3 = 0"
    and devices: "\<not> IsImplemented (mtimer (plat sim1))" "\<not> IsImplemented (uart1 (plat sim1))"
    and "sane_uninit u" "permutes_cores shuffle"
  shows "\<exists>sim'. (\<forall>fuel\<ge>1. Go lib u shuffle fuel sim = Some (Inr 0, sim')) \<and> sim_instr_count sim' = 1 \<and>
    end_test (cores sim' ! 0) \<and> PC (cores sim' ! 0) = fetch_pc (cores sim1 ! 0)"
proof -
  let ?s = "sim1\<lparr>rcode := 0, sim_instr_count := 0\<rparr>"
  have u: "length (X (u_state (u 0))) = 32" using assms(7) by (simp add: sane_uninit_def)
  obtain sim2 where step: "StepCore (u 0) 0 ?s = (Inr (), sim2)" and st: "stepped 0 ?s sim2
      (X (SetGP (take_bit 5 r) (ucast (ucast (PC (cores ?s ! 0)) + 4 :: u32)) (cores ?s ! 0))) (fetch_pc (cores ?s ! 0)) True"
    using step_jump_to_self [OF at u] aligned by auto
  obtain c where c: "cores sim2 = [c]" "PC c = fetch_pc (cores sim1 ! 0)" "end_test c" "\<not> LowPowerMode c"
    using st one by (cases "cores sim1") (auto simp: stepped_def)
  have rc: "rcode sim2 = 0" and dv: "\<not> IsImplemented (mtimer (plat sim2))" "\<not> IsImplemented (uart1 (plat sim2))"
    and n: "sim_instr_count sim2 = 1"
    using st devices same_setup_fields [of "plat sim1" "plat sim2"] by (simp_all add: stepped_def same_setup_def)
  have shuffle: "shuffle m [0] = [0]" for m
    using assms(8) [unfolded permutes_cores_def, rule_format, of m "[0]"] by simp
  have "Ready (cores sim1 ! 0)" using at by (simp add: runs_at_def Ready_def)
  then have ready: "GetReadyCpus shuffle (sim1\<lparr>rcode := 0\<rparr>) = [0]" using one shuffle by (simp add: GetReadyCpus_def)
  let ?t = "sim_AdvanceClock sim2"
  have dev: "ServiceDevices ?t = (Inr (), ?t)"
    using dv by (simp add: ServiceDevices_def service_timer_def service_uart_def sim_AdvanceClock_def thenS_def bindS_def)
  have idle: "GetReadyCpus shuffle ?t = []" "\<not> SleepingCores ?t" "rcode ?t = 0"
    using c rc by (simp_all add: GetReadyCpus_def sim_AdvanceClock_def Ready_def SleepingCores_def)
  have "StepCores u [0] ?s = (Inr (), sim2)" using step by simp
  then have turn: "go_turn u shuffle [0] ?s = (Inr [], ?t)"
    using dev idle(1) by (simp add: go_turn_def)
  have on: "go_on [0] ?s" by (simp add: go_on_def InstructionCountExceeded_def)
  have stop: "\<not> go_on [] ?t" using idle by (simp add: go_on_def)
  have "Go lib u shuffle fuel sim = Some (Inr 0, ?t)" if "1 \<le> fuel" for fuel
  proof -
    obtain f where f: "fuel = Suc f" using \<open>1 \<le> fuel\<close> by (cases fuel) simp_all
    have "go_loop u shuffle fuel [0] ?s = Some (Inr (), ?t)"
      unfolding f using on turn stop by (simp add: go_loop.simps)
    then show ?thesis
      using LoadTestImage_rcode [OF load, of 0] ready c idle by (simp add: Go_def Let_def sim_AdvanceClock_def Halted_def)
  qed
  then show ?thesis using c n by (intro exI [of _ ?t]) (simp add: sim_AdvanceClock_def)
qed
text \<open>
  A single program file and a core that runs: the file can be loaded into ordinary memory, and with its
  sections in memory the bytes of \<open>a\<close> lie at the program counter of the only core.
\<close>

definition starts :: "elf_lib \<Rightarrow> string \<Rightarrow> RiscvSimulator \<Rightarrow> asm \<Rightarrow> bool" where
  "starts lib name sim a \<longleftrightarrow>
     load_files (sim_cfg sim) = [name] \<and> elf_version_ok lib \<and> length name < 1024 \<and> wf_file (file_of lib name) \<and>
     fits (plat sim) (loaded_sections (file_of lib name)) \<and> wf_mem (plat sim) \<and> \<not> host_endianness (memory (plat sim)) \<and>
     length (cores sim) = 1 \<and> wf_core (cores sim ! 0) \<and> \<not> end_test (cores sim ! 0) \<and> \<not> LowPowerMode (cores sim ! 0) \<and>
     InterruptPending (cores sim ! 0) = None \<and> debug_server sim = None \<and>
     ram_span (plat sim) (fetch_pc (cores sim ! 0)) 4 \<and>
     span_of (with_sections (loaded_sections (file_of lib name)) (mem_byte (plat sim))) (fetch_pc (cores sim ! 0)) 4
       = map Some (word_bytes 4 (assemble a))"

lemma starts_loaded:
  assumes "starts lib name sim a"
  obtains p where "LoadTestImage lib sim = (Inr 0, sim\<lparr>plat := p\<rparr>)"
    "runs_at (sim\<lparr>plat := p, rcode := 0, sim_instr_count := 0\<rparr>) 0 a" "same_setup (plat sim) p"
proof -
  have "elf_version_ok lib" "length name < 1024" "wf_file (file_of lib name)" "wf_mem (plat sim)"
    "fits (plat sim) (loaded_sections (file_of lib name))" and files: "load_files (sim_cfg sim) = [name]"
    using assms unfolding starts_def by blast+
  from Load_sections [OF this(1-5)] obtain p where p: "Load lib name (plat sim) = (Inr 0, p)" "same_setup (plat sim) p" "wf_mem p"
    "mem_byte p = with_sections (loaded_sections (file_of lib name)) (mem_byte (plat sim))"
    by blast
  show thesis
  proof
    show "LoadTestImage lib sim = (Inr 0, sim\<lparr>plat := p\<rparr>)" using p(1) files by (simp add: LoadTestImage_def SrcFiles_def)
    show "runs_at (sim\<lparr>plat := p, rcode := 0, sim_instr_count := 0\<rparr>) 0 a"
      using assms p(3,4) same_setup_fields [OF p(2)] ram_span_setup [OF p(2)] by (simp add: runs_at_def starts_def)
  qed (rule p(2))
qed

lemma go_file_jump_to_self:
  assumes start: "starts lib name sim (AsmJAL r 0)" and aligned: "(ucast (PC (cores sim ! 0)) :: u32) AND 3 = 0"
    and devices: "\<not> IsImplemented (mtimer (plat sim))" "\<not> IsImplemented (uart1 (plat sim))"
    and outside: "sane_uninit u" "permutes_cores shuffle"
  shows "\<exists>sim'. (\<forall>fuel\<ge>1. Go lib u shuffle fuel sim = Some (Inr 0, sim')) \<and> sim_instr_count sim' = 1 \<and>
    end_test (cores sim' ! 0) \<and> PC (cores sim' ! 0) = fetch_pc (cores sim ! 0)"
proof -
  obtain p where p: "LoadTestImage lib sim = (Inr 0, sim\<lparr>plat := p\<rparr>)"
    "runs_at (sim\<lparr>plat := p, rcode := 0, sim_instr_count := 0\<rparr>) 0 (AsmJAL r 0)" "same_setup (plat sim) p"
    by (rule starts_loaded [OF start])
  have "mtimer p = mtimer (plat sim)" "uart1 p = uart1 (plat sim)"
    using same_setup_fields [OF p(3)] p(3) by (simp_all add: same_setup_def)
  then show ?thesis
    using go_jump_to_self [OF p(1) _ _ _ _ _ outside, of r] p(2) start aligned devices by (simp add: starts_def)
qed

text \<open>
  C4. A run from the file to its end. When the sections of an ELF file put a jump to itself at the program
  counter of the only core, \<open>Go\<close> loads the file, executes the jump, takes it as the end of the test, and
  returns 0 after one instruction; one turn of the loop is enough, in whatever order cores are stepped.
\<close>

theorem jump_to_self_ends:
  assumes start: "starts lib name sim (AsmJAL r 0)" and aligned: "(ucast (PC (cores sim ! 0)) :: u32) AND 3 = 0"
    and devices: "\<not> IsImplemented (mtimer (plat sim))" "\<not> IsImplemented (uart1 (plat sim))"
    and outside: "sane_uninit u" "permutes_cores shuffle"
  shows "\<exists>sim'. (\<forall>fuel\<ge>1. Go lib u shuffle fuel sim = Some (Inr 0, sim')) \<and> sim_instr_count sim' = 1 \<and>
    end_test (cores sim' ! 0) \<and> PC (cores sim' ! 0) = fetch_pc (cores sim ! 0)"
  by (rule go_file_jump_to_self [OF assms])

text \<open>
  A small system: one core at address 0x1000, and a file with one instruction for that address.
\<close>

definition demo_cfg :: SimConfig where
  "demo_cfg = AddSrcFile ''test.elf'' (SetResetAddress 0x1000 SimConfig_new)"

definition demo_uninit :: uninit where
  "demo_uninit = \<lparr>u_state = demo_core, u_buf = [0, 0, 0, 0, 0, 0, 0, 0]\<rparr>"

definition demo_console :: console where
  "demo_console = \<lparr>stdin_polls = [], console_out = []\<rparr>"

definition demo_sim :: RiscvSimulator where
  "demo_sim = Init demo_cfg id (\<lambda>_ r. if r = MTVEC then 0x200 else 0) demo_uninit (Memory_new 32 False demo_host) demo_console [] []"

definition demo_lib :: "asm \<Rightarrow> elf_lib" where
  "demo_lib a = demo_libelf (demo_file (word_bytes 4 (assemble a)))"

lemma demo_sim_fields:
  "cores demo_sim = [demo_core]" "debug_server demo_sim = None" "sim_instr_count demo_sim = 0" "rcode demo_sim = 0"
  "sim_cfg demo_sim = demo_cfg" "wf_mem (plat demo_sim)" "ram_span (plat demo_sim) a n \<longleftrightarrow> 0 < n \<and> unat a + n \<le> 2 ^ 32"
  "\<not> host_endianness (memory (plat demo_sim))" "mtimer (plat demo_sim) = MachineTimer_new" "uart1 (plat demo_sim) = UART_pl011_new"
  by (auto simp: demo_sim_def Init_def Let_def DefaultAddressRange_def SetupDebugServer_def demo_cfg_def AddSrcFile_def
      SetResetAddress_def SimConfig_new_def demo_core_def SetPhysicalAddressRange_def SetPhysicalSize_def Memory_new_def
      wf_mem_def ram_span_def PM_BLOCK_SIZE_def PhysicalAddressRange_def)

lemma demo_starts: "starts (demo_lib a) ''test.elf'' demo_sim a"
proof -
  let ?bs = "word_bytes 4 (assemble a)"
  have f: "file_of (demo_lib a) n = demo_file ?bs" for n by (simp add: demo_lib_def demo_libelf_def)
  have pc: "fetch_pc demo_core = 0x1000" by (simp add: fetch_pc_def demo_regs)
  have "\<not> end_test demo_core" "\<not> LowPowerMode demo_core" "InterruptPending demo_core = None"
    by (simp_all add: demo_core_def RiscvState_new_def SetMISA_def Let_def State.defs State_new_def LowPowerMode_def MACHINE_MODE_def
        InterruptPending_def reg_value_def)
  moreover have "load_files demo_cfg = [''test.elf'']" by (simp add: demo_cfg_def AddSrcFile_def SetResetAddress_def SimConfig_new_def)
  moreover have "elf_version_ok (demo_lib a)" by (simp add: demo_lib_def demo_libelf_def)
  moreover have "span_of (upd_span (mem_byte (plat demo_sim)) 0x1000 (word_bytes 4 (assemble a))) 0x1000 4
      = map Some (word_bytes 4 (assemble a))"
    using span_upd_span_same [of "word_bytes 4 (assemble a)" "mem_byte (plat demo_sim)" "0x1000"] by simp
  moreover have "?bs \<noteq> []" by (simp flip: length_0_conv)
  ultimately show ?thesis
    using demo_wf demo_file_sections [of ?bs]
    by (simp add: starts_def f demo_sim_fields pc fits_def with_sections_def)
qed

lemma demo_loaded:
  obtains p where "runs_at (demo_sim\<lparr>plat := p\<rparr>) 0 a"
proof -
  obtain p where "runs_at (demo_sim\<lparr>plat := p, rcode := 0, sim_instr_count := 0\<rparr>) 0 a" by (rule starts_loaded [OF demo_starts])
  then show thesis by (intro that [of p]) (simp add: runs_at_def demo_sim_fields)
qed

lemma demo_outside: "sane_uninit (\<lambda>_. demo_uninit)" "permutes_cores (\<lambda>_ ks. ks)" "length (X (u_state demo_uninit)) = 32"
  using demo_wf by (simp_all add: sane_uninit_def permutes_cores_def demo_uninit_def wf_core_def)

lemma demo_no_devices: "\<not> IsImplemented MachineTimer_new" "\<not> IsImplemented UART_pl011_new"
  by (simp_all add: IsImplemented_def MachineTimer_new_def UART_pl011_new_def UART_pl011_Reset_def memmap_device.defs memmap_device_new_def)

theorem step_register_instruction_witness:
  "\<exists>sim sim'. runs_at sim 0 (AsmR SUB 5 6 7) \<and> StepCore demo_uninit 0 sim = (Inr (), sim') \<and>
     PC (cores sim' ! 0) = 0x1004 \<and> sim_instr_count sim' = 1"
proof -
  obtain p where p: "runs_at (demo_sim\<lparr>plat := p\<rparr>) 0 (AsmR SUB 5 6 7)" by (rule demo_loaded)
  have "alu_defined SUB v" for v by (simp add: alu_defined_def)
  from step_register_instruction [OF p demo_outside(3) this] obtain sim' where
    "StepCore demo_uninit 0 (demo_sim\<lparr>plat := p\<rparr>) = (Inr (), sim')" "PC (cores sim' ! 0) = 0x1004" "sim_instr_count sim' = 1"
    by (auto simp: stepped_def demo_sim_fields demo_regs)
  with p show ?thesis by blast
qed

theorem jump_to_self_ends_witness:
  "\<exists>sim'. Go (demo_lib (AsmJAL 0 0)) (\<lambda>_. demo_uninit) (\<lambda>_ ks. ks) 1 demo_sim = Some (Inr 0, sim') \<and>
     sim_instr_count sim' = 1 \<and> PC (cores sim' ! 0) = 0x1000"
  using jump_to_self_ends [OF demo_starts _ _ _ demo_outside(1,2)]
  by (auto simp: demo_sim_fields demo_regs demo_no_devices fetch_pc_def)

text \<open>
  The witness of the invariant and of termination is the same program.
\<close>

theorem simulation_invariant_witness:
  "\<exists>sim'. Go (demo_lib (AsmJAL 0 0)) (\<lambda>_. demo_uninit) (\<lambda>_ ks. ks) 1 demo_sim = Some (Inr 0, sim') \<and>
     (\<forall>c\<in>set (cores sim'). wf_core c \<and> end_test c)"
proof -
  obtain sim' where go: "Go (demo_lib (AsmJAL 0 0)) (\<lambda>_. demo_uninit) (\<lambda>_ ks. ks) 1 demo_sim = Some (Inr 0, sim')"
    using go_file_jump_to_self [OF demo_starts _ _ _ demo_outside(1,2)] by (auto simp: demo_sim_fields demo_regs demo_no_devices)
  have "wf_mstatus ((if MSTATUS = MTVEC then 0x200 else 0) AND 0x807fffff)" by (simp add: wf_mstatus_def)
  from simulation_invariant [OF this demo_outside(1,2) go [unfolded demo_sim_def]] go show ?thesis by blast
qed

theorem go_terminates_witness:
  "(\<exists>x. \<forall>fuel'\<ge>1001. go_loop (\<lambda>_. demo_uninit) (\<lambda>_ ks. ks) fuel' (GetReadyCpus (\<lambda>_ ks. ks) demo_sim) demo_sim = Some x) \<or>
    (\<exists>n<1001. \<exists>sim'. go_run (\<lambda>_. demo_uninit) (\<lambda>_ ks. ks) (GetReadyCpus (\<lambda>_ ks. ks) demo_sim) demo_sim n [] sim' \<and> SleepingCores sim' \<and>
       (\<forall>c\<in>set (cores sim'). end_test c \<or> LowPowerMode c \<and> InterruptPending c = None))"
proof (rule go_terminates [OF _ _ demo_outside(1,2)])
  show "cores_ok demo_sim" "debug_server demo_sim = None" by (simp_all add: cores_ok_def demo_sim_fields demo_wf)
  show "0 \<le> max_instr_count (sim_cfg demo_sim)" "max_instr_count (sim_cfg demo_sim) - sim_instr_count demo_sim < int 1001"
    by (simp_all add: demo_sim_fields demo_cfg_def AddSrcFile_def SetResetAddress_def SimConfig_new_def)
qed
end
