(* ===== verification/Sleeping.thy ===== *)
theory Sleeping
  imports Programs
begin

text \<open>
  Waiting for devices. While no core is ready and one is asleep, the loop of \<open>Go\<close> only advances the
  clock and the devices: the timer wakes core 0 when its time has come, and without a device that
  could raise an interrupt the loop goes on forever.
\<close>

unbundle bit_operations_syntax

section \<open>Idle turns\<close>

definition tick :: "RiscvSimulator \<Rightarrow> RiscvSimulator" where
  "tick sim = sim\<lparr>clock := clock sim + 1, plat := (plat sim)\<lparr>mtimer := AdvanceTimer (mtimer (plat sim))\<rparr>\<rparr>"

text \<open>The loop waits: nothing is ready, something is asleep, no error and no limit reached.\<close>

definition waiting :: "RiscvSimulator \<Rightarrow> bool" where
  "waiting sim \<longleftrightarrow> rcode sim = 0 \<and> \<not> InstructionCountExceeded sim \<and> SleepingCores sim \<and> list_all (\<lambda>c. \<not> Ready c) (cores sim)"

lemma no_ready: "list_all (\<lambda>c. \<not> Ready c) (cores sim) \<Longrightarrow> GetReadyCpus shuffle sim = []"
  by (simp add: GetReadyCpus_def list_all_length)

lemma waiting_cong:
  "cores sim' = cores sim \<Longrightarrow> rcode sim' = rcode sim \<Longrightarrow> sim_cfg sim' = sim_cfg sim \<Longrightarrow>
   sim_instr_count sim' = sim_instr_count sim \<Longrightarrow> waiting sim' = waiting sim"
  by (simp add: waiting_def InstructionCountExceeded_def SleepingCores_def)

lemma waiting_on: "waiting sim \<Longrightarrow> go_on [] sim"
  by (simp add: waiting_def go_on_def)

lemma idle_turn:
  "go_turn u shuffle [] sim =
    (case ServiceDevices (sim_AdvanceClock sim) of (Inl e, s) \<Rightarrow> (Inl e, s) | (Inr _, s) \<Rightarrow> (Inr (GetReadyCpus shuffle s), s))"
  by (simp add: go_turn_def thenS_def bindS_def split: prod.split sum.split)

lemma idle_turn_timer:
  assumes "IsImplemented (mtimer (plat sim))" "\<not> IsImplemented (uart1 (plat sim))"
  shows "go_turn u shuffle [] sim =
    (if MachineTimer_InterruptPending (AdvanceTimer (mtimer (plat sim)))
     then (case signal_core0 MACHINE_TIMER_INT (tick sim) of (Inl e, s) \<Rightarrow> (Inl e, s) | (Inr _, s) \<Rightarrow> (Inr (GetReadyCpus shuffle s), s))
     else (Inr (GetReadyCpus shuffle (tick sim)), tick sim))"
  using assms
  by (auto simp: idle_turn ServiceDevices_def service_timer_def service_uart_def sim_AdvanceClock_def tick_def thenS_def bindS_def
      signal_core0_def set_core_def Let_def split: prod.split sum.split)

lemma tick_fields [simp]:
  "cores (tick sim) = cores sim" "rcode (tick sim) = rcode sim" "sim_cfg (tick sim) = sim_cfg sim"
  "sim_instr_count (tick sim) = sim_instr_count sim" "mtimer (plat (tick sim)) = AdvanceTimer (mtimer (plat sim))"
  "uart1 (plat (tick sim)) = uart1 (plat sim)" "clock (tick sim) = clock sim + 1"
  by (simp_all add: tick_def)

lemma ticks_fields [simp]:
  "cores ((tick ^^ n) sim) = cores sim" "rcode ((tick ^^ n) sim) = rcode sim" "sim_cfg ((tick ^^ n) sim) = sim_cfg sim"
  "sim_instr_count ((tick ^^ n) sim) = sim_instr_count sim" "mtimer (plat ((tick ^^ n) sim)) = (AdvanceTimer ^^ n) (mtimer (plat sim))"
  "uart1 (plat ((tick ^^ n) sim)) = uart1 (plat sim)" "clock ((tick ^^ n) sim) = clock sim + of_nat n"
  by (induction n) (simp_all add: add_ac)

lemma waiting_ticks [simp]:
  "waiting (tick sim) = waiting sim" "waiting ((tick ^^ n) sim) = waiting sim" "waiting (sim_AdvanceClock sim) = waiting sim"
  by (rule waiting_cong; simp add: sim_AdvanceClock_def)+

lemma IsImplemented_AdvanceTimer [simp]: "IsImplemented ((AdvanceTimer ^^ n) t) = IsImplemented t"
  by (simp add: AdvanceTimer_power IsImplemented_def)

lemma waits_for_timer:
  assumes "waiting sim" "IsImplemented (mtimer (plat sim))" "\<not> IsImplemented (uart1 (plat sim))"
    and "\<And>m. 0 < m \<Longrightarrow> m \<le> n \<Longrightarrow> \<not> MachineTimer_InterruptPending ((AdvanceTimer ^^ m) (mtimer (plat sim)))"
  shows "go_run u shuffle [] sim n [] ((tick ^^ n) sim)"
  using assms(4)
proof (induction n)
  case 0
  show ?case using run_start by simp
next
  case (Suc n)
  let ?s = "(tick ^^ n) sim"
  have w: "waiting ?s" "waiting (tick ?s)" using assms(1) by simp_all
  have "\<not> MachineTimer_InterruptPending (AdvanceTimer (mtimer (plat ?s)))" using Suc.prems [of "Suc n"] by simp
  then have "go_turn u shuffle [] ?s = (Inr [], tick ?s)"
    using idle_turn_timer [of ?s u shuffle] assms(2,3) w(2) by (simp add: no_ready waiting_def)
  with Suc.IH Suc.prems waiting_on [OF w(1)] show ?case by (auto intro: run_turn)
qed

section \<open>Properties\<close>

text \<open>
  C9. Waking up. Core 0 is asleep with timer interrupts enabled, every other core has ended or sleeps,
  and the timer needs \<open>n\<close> ticks to reach its compare value: then after exactly \<open>n\<close> turns of the loop,
  in which no instruction is executed, core 0 is ready, with the timer interrupt as the one to take, and
  no other core has changed.
\<close>

theorem timer_wakes_core:
  assumes "waiting sim" and c: "cores sim = c # cs" "\<not> end_test c" "InterruptPending c = None"
    and en: "bit (reg_value MSTATUS c) 3" "bit (reg_value MIE c) 7"
    and dev: "IsImplemented (mtimer (plat sim))" "\<not> IsImplemented (uart1 (plat sim))" "t = mtimer (plat sim)"
    and time: "0 < n" "unat (timer t) + n * unat (timer_advance t) < 2 ^ 64"
      "unat (timer t) + (n - 1) * unat (timer_advance t) < unat (timer_compare t)"
      "unat (timer_compare t) \<le> unat (timer t) + n * unat (timer_advance t)"
    and sh: "permutes_cores shuffle"
  shows "\<exists>ks sim'. go_run u shuffle [] sim n ks sim' \<and> 0 \<in> set ks \<and> tl (cores sim') = cs \<and>
    InterruptPending (cores sim' ! 0) = Some MACHINE_TIMER_INT \<and> Ready (cores sim' ! 0) \<and>
    sim_instr_count sim' = sim_instr_count sim \<and> clock sim' = clock sim + of_nat n"
proof -
  obtain m where n: "n = Suc m" using time(1) by (cases n) simp_all
  let ?s = "(tick ^^ m) sim" and ?c = "Signal MACHINE_TIMER_INT c"
  have "\<not> MachineTimer_InterruptPending ((AdvanceTimer ^^ i) t)" if "i \<le> m" for i
  proof -
    have "i * unat (timer_advance t) \<le> m * unat (timer_advance t)" using that by (rule mult_le_mono1)
    then have "unat (timer t) + i * unat (timer_advance t) < unat (timer_compare t)" using time(3) [unfolded n diff_Suc_1] by linarith
    moreover from this have "unat (timer t) + i * unat (timer_advance t) < 2 ^ 64"
      using unsigned_less [where 'a = nat, of "timer_compare t"] by simp
    ultimately show ?thesis by (simp only: timer_pending_after) simp
  qed
  then have "go_run u shuffle [] sim m [] ?s" using waits_for_timer [OF assms(1) dev(1,2), of m] dev(3) by simp
  moreover have "go_on [] ?s" using assms(1) by (intro waiting_on) simp
  moreover have "MachineTimer_InterruptPending (AdvanceTimer (mtimer (plat ?s)))"
  proof -
    have "timer_compare t \<noteq> 0" using time(3) by auto
    then show ?thesis using time(2,4) timer_pending_after [of t n] by (simp add: n dev(3))
  qed
  then have "go_turn u shuffle [] ?s = (Inr (GetReadyCpus shuffle (set_core 0 ?c (tick ?s))), set_core 0 ?c (tick ?s))"
    using idle_turn_timer [of ?s u shuffle] dev c(1) by (simp add: signal_core0_def)
  ultimately have run: "go_run u shuffle [] sim n (GetReadyCpus shuffle (set_core 0 ?c (tick ?s))) (set_core 0 ?c (tick ?s))"
    unfolding n by (rule run_turn)
  have "InterruptPending ?c = Some MACHINE_TIMER_INT"
    using c(3) en by (auto simp: InterruptPending_iff Signal_def bit_simps split: if_splits)
  moreover have "end_test ?c = end_test c" by (simp add: Signal_def)
  ultimately have "InterruptPending ?c = Some MACHINE_TIMER_INT \<and> Ready ?c" using c(2) by (simp add: Ready_def)
  then show ?thesis
    using run c(1) GetReadyCpus_ok(1) [OF sh, of 0 "set_core 0 ?c (tick ?s)"] n by (intro exI conjI) (assumption | simp)+
qed

definition demo_asleep :: RiscvState where
  "demo_asleep = SetLowPowerMode (demo_core\<lparr>csr_file := (csr_file demo_core)(MSTATUS := 8, MIE := 0x80)\<rparr>)"

definition demo_waiting :: RiscvSimulator where
  "demo_waiting = demo_sim\<lparr>cores := [demo_asleep],
     plat := (plat demo_sim)\<lparr>mtimer := (MapDevice MachineTimer_Reset 0x2000000 0xffff MachineTimer_new)\<lparr>timer_compare := 3\<rparr>\<rparr>\<rparr>"

lemma demo_asleep_regs:
  "reg_value MSTATUS demo_asleep = 8" "reg_value MIE demo_asleep = 0x80" "reg_value MIP demo_asleep = 0"
  "\<not> end_test demo_asleep" "LowPowerMode demo_asleep"
  by (simp_all add: demo_asleep_def SetLowPowerMode_def reg_value_def LowPowerMode_def demo_core_def RiscvState_new_def SetMISA_def
      Let_def State.defs State_new_def MACHINE_MODE_def)

theorem timer_wakes_core_witness:
  "\<exists>ks sim'. go_run (\<lambda>_. demo_uninit) (\<lambda>_ ks. ks) [] demo_waiting 3 ks sim' \<and> 0 \<in> set ks"
proof -
  have p: "InterruptPending demo_asleep = None" by (simp add: InterruptPending_iff demo_asleep_regs)
  have w: "waiting demo_waiting"
    by (simp add: waiting_def demo_waiting_def demo_sim_fields InstructionCountExceeded_def SleepingCores_def Ready_def demo_asleep_regs p
        demo_cfg_def AddSrcFile_def SetResetAddress_def SimConfig_new_def)
  have t: "IsImplemented (mtimer (plat demo_waiting))" "\<not> IsImplemented (uart1 (plat demo_waiting))"
    "timer (mtimer (plat demo_waiting)) = 0" "timer_advance (mtimer (plat demo_waiting)) = 1" "timer_compare (mtimer (plat demo_waiting)) = 3"
    using demo_no_devices(2)
    by (simp_all add: demo_waiting_def demo_sim_fields MapDevice_def IsImplemented_def MachineTimer_Reset_def MachineTimer_new_def
        memmap_device.defs memmap_device_new_def)
  have "\<exists>ks sim'. go_run (\<lambda>_. demo_uninit) (\<lambda>_ ks. ks) [] demo_waiting 3 ks sim' \<and> 0 \<in> set ks \<and> tl (cores sim') = [] \<and>
    InterruptPending (cores sim' ! 0) = Some MACHINE_TIMER_INT \<and> Ready (cores sim' ! 0) \<and>
    sim_instr_count sim' = sim_instr_count demo_waiting \<and> clock sim' = clock demo_waiting + of_nat 3"
    by (rule timer_wakes_core [OF w _ demo_asleep_regs(4) p _ _ t(1,2) refl _ _ _ _ demo_outside(2)])
      (simp_all add: t demo_asleep_regs, simp add: demo_waiting_def)
  then show ?thesis by blast
qed

text \<open>Without devices nothing ends the wait: no amount of fuel is enough.\<close>

lemma sleeps_forever:
  assumes "waiting sim" "\<not> IsImplemented (mtimer (plat sim))" "\<not> IsImplemented (uart1 (plat sim))"
  shows "go_loop u shuffle fuel [] sim = None"
  using assms
proof (induction fuel arbitrary: sim)
  case 0
  then show ?case using waiting_on by (simp add: go_loop.simps)
next
  case (Suc fuel)
  let ?s = "sim_AdvanceClock sim"
  have w: "waiting ?s" using Suc.prems(1) by simp
  have "go_turn u shuffle [] sim = (Inr [], ?s)"
    using Suc.prems w by (simp add: idle_turn ServiceDevices_def service_timer_def service_uart_def sim_AdvanceClock_def thenS_def
        bindS_def no_ready waiting_def)
  moreover have "go_loop u shuffle fuel [] ?s = None"
    using w Suc.prems by (intro Suc.IH) (simp_all add: sim_AdvanceClock_def)
  ultimately show ?case using waiting_on [OF Suc.prems(1)] by (simp add: go_loop.simps [of u shuffle "Suc fuel"])
qed

end
