(* ===== verification/Signature.thy ===== *)
theory Signature
  imports Programs
begin

text \<open>
  The signature file of a test, written by \<open>WriteTestSignature\<close> after the run: the region of memory between
  two configured addresses as lines of sixteen bytes, the byte at the highest address first.
\<close>

unbundle bit_operations_syntax

text \<open>The text a signature with the bytes \<open>bs\<close> should have, in lines of sixteen.\<close>

fun signature_text :: "nat \<Rightarrow> buffer \<Rightarrow> string" where
  "signature_text 0 bs = []"
| "signature_text (Suc n) bs = concat (map hex2 (rev (take 16 bs))) @ [CHR 0x0A] @ signature_text n (drop 16 bs)"

lemma signature_loop_ok:
  assumes "wf_mem p" "ram_span p a (16 * n)" "span_of (mem_byte p) a (16 * n) = map Some bs" "length tbuf = 16"
    "\<not> host_endianness (memory p)" "0 < n"
  shows "\<exists>p'. signature_loop n a tbuf out p = (Inr (0, out @ signature_text n bs), p') \<and> same_setup p p' \<and> wf_mem p' \<and>
    mem_byte p' = mem_byte p"
  using assms
proof (induction n arbitrary: a tbuf out p bs)
  case (Suc n)
  have bits: "size_in_bits (memory p) < 64" using Suc.prems(1) by (simp add: wf_mem_def)
  have sp: "ram_span p a 16" using ram_span_sub [OF Suc.prems(2), of 0 16] bits by simp
  note split = span_of_split [of "mem_byte p" a 16 "16 * n" bs]
  have bs: "span_of (mem_byte p) a 16 = map Some (take 16 bs)" "span_of (mem_byte p) (a + 16) (16 * n) = map Some (drop 16 bs)"
    using split Suc.prems(3) by simp_all
  have len: "length (take 16 bs) = 16" using arg_cong [OF Suc.prems(3), of length] by simp
  have pre: "ram_span p a (length (take 16 bs))" "length (take 16 bs) \<le> 32" "length tbuf = length (take 16 bs)"
    "span_of (mem_byte p) a (length (take 16 bs)) = map Some (take 16 bs)"
    using sp bs(1) Suc.prems(4) unfolding len by simp_all
  obtain p1 where r: "ReadPhysicalMemory a (int (length (take 16 bs))) tbuf False True p = (Inr (0, take 16 bs), p1)"
    "same_setup p p1" "wf_mem p1" "mem_byte p1 = mem_byte p"
    by (rule ReadPhysicalMemory_ram [OF Suc.prems(1) pre(1,2,4,3), of False True])
  have h: "\<not> host_endianness (memory p1)" using same_setup_fields [OF r(2)] Suc.prems(5) by simp
  let ?out = "out @ signature_line False (take 16 bs)"
  have line: "signature_line False (take 16 bs) = concat (map hex2 (rev (take 16 bs))) @ [CHR 0x0A]" by (simp add: signature_line_def)
  have step: "signature_loop (Suc n) a tbuf out p = signature_loop n (a + 16) (take 16 bs) ?out p1"
    using r(1) h unfolding len by simp
  show ?case
  proof (cases "n = 0")
    case True
    then show ?thesis using step r line by auto
  next
    case False
    have "ram_span p1 (a + 16) (16 * n)"
      using ram_span_sub [OF Suc.prems(2), of 16 "16 * n"] bits False by (simp add: ram_span_setup [OF r(2)])
    moreover have "span_of (mem_byte p1) (a + 16) (16 * n) = map Some (drop 16 bs)" using bs(2) r(4) by simp
    ultimately obtain p2 where "signature_loop n (a + 16) (take 16 bs) ?out p1 = (Inr (0, ?out @ signature_text n (drop 16 bs)), p2)"
      "same_setup p1 p2" "wf_mem p2" "mem_byte p2 = mem_byte p1"
      using Suc.IH [OF r(3), of "a + 16" "drop 16 bs" "take 16 bs" ?out] len h False by auto
    then show ?thesis using step r line same_setup_trans [OF r(2)] by auto
  qed
qed simp

text \<open>The size is taken as an \<open>int\<close> of the difference of the addresses.\<close>

lemma smod_16: "k smod 16 = 0 \<longleftrightarrow> 16 dvd k" for k :: int
  by (cases "k = 0") (simp_all add: signed_modulo_int_def sgn_eq_0_iff flip: dvd_eq_mod_eq_0)

lemma size_16: "16 dvd sint (ucast w :: u32) \<longleftrightarrow> 16 dvd unat w" for w :: u64
proof -
  have "take_bit 4 (sint (ucast w :: u32)) = take_bit 4 (uint w)"
    by (simp add: sint_uint unsigned_ucast_eq take_bit_signed_take_bit)
  then have "16 dvd sint (ucast w :: u32) \<longleftrightarrow> 16 dvd uint w"
    using take_bit_eq_0_iff [of 4 "sint (ucast w :: u32)"] take_bit_eq_0_iff [of 4 "uint w"] by simp
  also have "\<dots> \<longleftrightarrow> 16 dvd unat w" using int_dvd_int_iff [of 16 "unat w"] by simp
  finally show ?thesis .
qed

lemma size_small: "m < 2 ^ 31 \<Longrightarrow> sint (ucast (of_nat m :: u64) :: u32) = int m"
  by (simp add: sint_uint unsigned_ucast_eq unsigned_of_nat take_bit_nat_eq_self signed_take_bit_int_eq_self)

text \<open>
  C36. The signature. With a region of whole lines in ordinary memory, all of it written, and a little
  endian host, the file holds exactly the bytes of the region, sixteen on a line with the highest
  address first, the return code is 0, and memory keeps its contents. Without a start address there
  is no file, and a region that is not a whole number of lines is an error without a file.
\<close>

theorem test_signature:
  assumes "length tbuf = 16" "lo = signature_start_address (sim_cfg sim)"
  shows "(lo \<noteq> 0 \<and> 0 < n \<and> 16 * n < 2 ^ 31 \<and> signature_end_address (sim_cfg sim) = lo + of_nat (16 * n) \<and> wf_mem (plat sim) \<and>
      ram_span (plat sim) lo (16 * n) \<and> \<not> host_endianness (memory (plat sim)) \<and>
      span_of (mem_byte (plat sim)) lo (16 * n) = map Some bs \<longrightarrow>
      (\<exists>p'. WriteTestSignature tbuf sim = (Inr (0, Some (signature_text n bs)), sim\<lparr>plat := p'\<rparr>) \<and>
        same_setup (plat sim) p' \<and> mem_byte p' = mem_byte (plat sim))) \<and>
    (lo = 0 \<longrightarrow> WriteTestSignature tbuf sim = (Inr (0, None), sim)) \<and>
    (lo \<noteq> 0 \<and> \<not> 16 dvd unat (signature_end_address (sim_cfg sim) - lo) \<longrightarrow> WriteTestSignature tbuf sim = (Inr (-1, None), sim))"
proof (intro conjI impI)
  assume a: "lo \<noteq> 0 \<and> 0 < n \<and> 16 * n < 2 ^ 31 \<and> signature_end_address (sim_cfg sim) = lo + of_nat (16 * n) \<and> wf_mem (plat sim) \<and>
      ram_span (plat sim) lo (16 * n) \<and> \<not> host_endianness (memory (plat sim)) \<and>
      span_of (mem_byte (plat sim)) lo (16 * n) = map Some bs"
  then obtain p' where p': "signature_loop n lo tbuf [] (plat sim) = (Inr (0, signature_text n bs), p')" "same_setup (plat sim) p'"
    "mem_byte p' = mem_byte (plat sim)"
    using signature_loop_ok [of "plat sim" lo n bs tbuf "[]"] assms(1) by auto
  have "sint (ucast (signature_end_address (sim_cfg sim) - lo) :: u32) = int (16 * n)"
    using a size_small [of "16 * n"] by (simp only: add_diff_cancel_left')
  moreover have "nat (int (16 * n) div 16) = n" by simp
  ultimately have "WriteTestSignature tbuf sim = (Inr (0, Some (signature_text n bs)), sim\<lparr>plat := p'\<rparr>)"
    using a p'(1) smod_16 [of "int (16 * n)"] assms(2) by (simp only: WriteTestSignature_def Let_def) simp
  with p' show "\<exists>p'. WriteTestSignature tbuf sim = (Inr (0, Some (signature_text n bs)), sim\<lparr>plat := p'\<rparr>) \<and>
        same_setup (plat sim) p' \<and> mem_byte p' = mem_byte (plat sim)" by blast
next
  assume "lo = 0"
  then show "WriteTestSignature tbuf sim = (Inr (0, None), sim)" using assms(2) by (simp add: WriteTestSignature_def)
next
  assume "lo \<noteq> 0 \<and> \<not> 16 dvd unat (signature_end_address (sim_cfg sim) - lo)"
  then show "WriteTestSignature tbuf sim = (Inr (-1, None), sim)"
    using assms(2) by (simp add: WriteTestSignature_def Let_def smod_16 size_16)
qed

theorem test_signature_witness:
  "\<exists>sim p'. signature_start_address (sim_cfg sim) = 0x2000 \<and>
     WriteTestSignature (replicate 16 0) sim = (Inr (0, Some (''000000000000000000000000000000ab'' @ [CHR 0x0A])), sim\<lparr>plat := p'\<rparr>)"
proof -
  let ?bs = "0xab # replicate 15 0 :: buffer"
  have sp: "ram_span (plat demo_sim) 0x2000 (length ?bs)" by (simp add: demo_sim_fields)
  obtain p where p: "same_setup (plat demo_sim) p" "wf_mem p" "mem_byte p = upd_span (mem_byte (plat demo_sim)) 0x2000 ?bs"
    by (rule WritePhysicalMemory_ram [OF demo_sim_fields(6) sp, of False]) (simp, rule that)
  have b: "span_of (mem_byte p) 0x2000 16 = map Some ?bs"
    using span_upd_span_same [of ?bs "mem_byte (plat demo_sim)" "0x2000"] by (simp add: p(3) del: replicate.simps)
  have h: "\<not> host_endianness (memory p)" "ram_span p 0x2000 16"
    using same_setup_fields [OF p(1)] ram_span_setup [OF p(1)] by (simp_all add: demo_sim_fields)
  define sim where "sim = demo_sim\<lparr>plat := p, sim_cfg := SetSignatureAddressRange 0x2000 0x2010 demo_cfg\<rparr>"
  have z: "hex2 0 = ''00''" "hex2 0xab = ''ab''" by (simp_all add: hex2_def hex_char_def)
  have t: "signature_text 1 ?bs = ''000000000000000000000000000000ab'' @ [CHR 0x0A]"
    by (simp add: z numeral_eq_Suc)
  have f: "plat sim = p" "signature_start_address (sim_cfg sim) = 0x2000" "signature_end_address (sim_cfg sim) = 0x2010"
    by (simp_all add: sim_def SetSignatureAddressRange_def)
  have "\<exists>p'. WriteTestSignature (replicate 16 0) sim = (Inr (0, Some (signature_text 1 ?bs)), sim\<lparr>plat := p'\<rparr>) \<and>
      same_setup (plat sim) p' \<and> mem_byte p' = mem_byte (plat sim)"
  proof (rule conjunct1 [OF test_signature [of "replicate 16 0" "0x2000" sim 1 ?bs], THEN mp])
    show "length (replicate 16 (0 :: u8)) = 16" "0x2000 = signature_start_address (sim_cfg sim)" by (simp_all add: f)
    show "0x2000 \<noteq> (0 :: u64) \<and> 0 < (1 :: nat) \<and> 16 * 1 < (2 ^ 31 :: nat) \<and> signature_end_address (sim_cfg sim) = 0x2000 + of_nat (16 * 1) \<and>
      wf_mem (plat sim) \<and> ram_span (plat sim) 0x2000 (16 * 1) \<and> \<not> host_endianness (memory (plat sim)) \<and>
      span_of (mem_byte (plat sim)) 0x2000 (16 * 1) = map Some ?bs"
      using p(2) b h by (simp add: f)
  qed
  then show ?thesis using f(2) unfolding t by blast
qed
end
