(* ===== verification/Elf_Save.thy ===== *)
theory Elf_Save
  imports Elf_IO
begin

text \<open>
  Saving memory and loading it again: what the writer puts into the file, what the reader gets out of it
  when libelf shows the file as it was written, and how large the blocks of a file are.
\<close>

unbundle bit_operations_syntax

section \<open>Blocks of the store\<close>

text \<open>No block is in the table that has never been given its arrays.\<close>

definition all_allocated :: "PhysicalMemory \<Rightarrow> bool" where
  "all_allocated pm \<longleftrightarrow> list_all (\<lambda>(k, b). allocated b) (physical_memory_by_block pm)"

definition block_data :: "platform \<Rightarrow> u64 \<Rightarrow> buffer" where
  "block_data p a = the (mptr (block_at (phys_mem (memory p)) a))"

lemma AList_update_same: "map_of xs k = Some v \<Longrightarrow> AList.update k v xs = xs"
  by (induction xs) (auto split: if_splits)

lemma listed_block:
  assumes "wf_mem p" "all_allocated (phys_mem (memory p))" "a \<in> set (TestBlockAddresses [] (memory p))"
  obtains b m where "map_of (physical_memory_by_block (phys_mem (memory p))) a = Some b" "mptr b = Some m" "length m = 32"
    "Offset a = 0"
proof -
  let ?xs = "physical_memory_by_block (phys_mem (memory p))"
  obtain b where b: "(a, b) \<in> set ?xs" using assms(3) by (auto simp: TestBlockAddresses_def AddressList_def)
  have d: "distinct (map fst ?xs)" and w: "wf_block b" "Offset a = 0" and al: "allocated b"
    using assms(1,2) b by (auto simp: wf_mem_def wf_pm_def all_allocated_def list_all_iff)
  have "map_of ?xs a = Some b" using d b by simp
  moreover obtain m m0 where "mptr b = Some m" "length m = 32" using w(1) al by (rule wf_allocated) 
  ultimately show thesis using w(2) by (rule that)
qed

lemma block_section:
  assumes "wf_mem p" "all_allocated (phys_mem (memory p))" "a \<in> set (TestBlockAddresses [] (memory p))"
  shows "section_bytes a 32 False p = (Inr (block_data p a), p)" "length (block_data p a) = 32"
proof -
  obtain b m where b: "map_of (physical_memory_by_block (phys_mem (memory p))) a = Some b" "mptr b = Some m" "length m = 32"
    "Offset a = 0"
    by (rule listed_block [OF assms])
  then show "section_bytes a 32 False p = (Inr (block_data p a), p)" "length (block_data p a) = 32"
    by (simp_all add: section_bytes_def PM_BLOCK_SIZE_def Memory_ReadInitialState_def PhysicalMemory_ReadInitialState_def
        MemBlock_ReadInitialState_def block_at_def block_data_def put_block_def AList_update_same)
qed

lemma listed_aligned:
  assumes "wf_mem p" "a \<in> set (TestBlockAddresses [] (memory p))"
  shows "unat a mod 32 = 0" "a AND 31 = 0" "a AND block_mask 5 = a"
proof -
  have "Offset a = 0"
    using assms by (auto simp: TestBlockAddresses_def AddressList_def wf_mem_def wf_pm_def list_all_iff)
  then show u: "unat a mod 32 = 0" by (simp add: Offset_eq)
  then have "unat (a AND 31) = unat (0 :: u64)" by (simp add: unat_and_31)
  then show z: "a AND 31 = 0" by (rule unsigned_word_eqI)
  have m: "block_mask 5 = NOT 31" by (simp add: block_mask_def)
  show "a AND block_mask 5 = a" by (simp only: m word_and_not_eq_diff z) simp
qed

lemma file_block_loop_id:
  "distinct as \<Longrightarrow> (\<And>a. a \<in> set as \<Longrightarrow> a AND msk = a) \<Longrightarrow> set as \<inter> set seen = {} \<Longrightarrow>
    file_block_loop as msk seen acc = acc @ as"
  by (induction as arbitrary: seen acc) (auto simp: Let_def)

text \<open>A byte in use is in the data of its block.\<close>

lemma used_in_block:
  assumes "mem_byte p x = Some v"
  shows "block_data p (BlockAddress x) ! (unat x mod 32) = v"
  using assms by (auto simp: mem_byte_def pm_byte_def block_byte_def block_data_def nat_Offset split: option.splits if_splits)

section \<open>The writer\<close>

definition good_target :: "elf_target \<Rightarrow> bool" where
  "good_target t \<longleftrightarrow> t_opens t \<and> t_begins t \<and> t_ehdr t \<and> t_phdr t \<and> t_update t \<and> t_section t = (\<lambda>_. True)"

definition name_offset :: "elf_section \<Rightarrow> nat" where
  "name_offset s = unat (sh_name (the (sec_hdr s)))"

text \<open>The sections of the writer are program sections, and their names are found in its table.\<close>

definition wf_writer :: "elf_data \<Rightarrow> bool" where
  "wf_writer ed \<longleftrightarrow> wf_names (section_names ed) \<and> section_count ed = length (e_sections ed) \<and>
     nbytes (section_names ed) \<le> 1 + 11 * length (e_sections ed) \<and>
     list_all (\<lambda>s. \<exists>h. sec_hdr s = Some h \<and> sh_type h = SHT_PROGBITS \<and> list_all (\<lambda>c. c \<noteq> None) (sec_data s)) (e_sections ed) \<and>
     list_all2 (\<lambda>k r. name_at (section_names ed) k = Some r) (map name_offset (e_sections ed))
       (map (\<lambda>i. ''.text'' @ decimal (Suc i)) [0..<length (e_sections ed)])"

text \<open>Where a section goes and what it holds.\<close>

definition placed :: "elf_section \<Rightarrow> u64 \<times> buffer" where
  "placed s = (sec_addr s, contents s)"

lemma add_section_ok:
  assumes "good_target t" "wf_writer ed" "length (e_sections ed) < 0xff00"
  obtains ed' s where "elfio_add_section t a False bs ed = (0, ed')" "wf_writer ed'" "e_sections ed' = e_sections ed @ [s]"
    "placed s = (a, bs)" "ehdr ed' = ehdr ed" "filename ed' = filename ed" "for_write ed' = for_write ed"
proof -
  let ?n = "length (e_sections ed)" and ?nm = "''.text'' @ decimal (Suc (length (e_sections ed)))"
  obtain off names where add: "add_section_name (section_names ed) ?nm = (off, names)" by fastforce
  let ?s = "\<lparr>sec_hdr = Some \<lparr>sh_name = of_nat off, sh_type = SHT_PROGBITS,
      sh_flags = SHF_ALLOC OR SHF_EXECINSTR, sh_addr = a, sh_size = 0\<rparr>, sec_data = [Some bs]\<rparr>"
  let ?ed = "ed\<lparr>section_count := Suc ?n, section_names := names, e_sections := e_sections ed @ [?s]\<rparr>"
  have plain: "plain_name ?nm" using plain_section_name [of False "Suc ?n"] by simp
  have w: "wf_names (section_names ed)" "section_count ed = ?n" "nbytes (section_names ed) \<le> 1 + 11 * ?n"
    "list_all2 (\<lambda>k r. name_at (section_names ed) k = Some r) (map name_offset (e_sections ed))
       (map (\<lambda>i. ''.text'' @ decimal (Suc i)) [0..<?n])"
    using assms(2) by (simp_all add: wf_writer_def)
  have nb: "nbytes names = nbytes (section_names ed) + length ?nm + 1" "off = nbytes (section_names ed)"
    using nbytes_add [OF add] by blast+
  have "length (decimal (Suc ?n)) \<le> 5" by (rule length_decimal) (use assms(3) in simp_all)
  then have len: "nbytes names \<le> 1 + 11 * Suc ?n" using nb(1) w(3) by simp
  have "off < 2 ^ 32" using w(3) assms(3) unfolding nb(2) by simp
  then have "unat (of_nat off :: u32) = off" by (simp add: unat_of_nat)
  then have off: "name_offset ?s = off" by (simp add: name_offset_def)
  have found: "list_all2 (\<lambda>k r. name_at names k = Some r) (map name_offset (e_sections ed @ [?s]))
      (map (\<lambda>i. ''.text'' @ decimal (Suc i)) [0..<length (e_sections ed @ [?s])])"
    using section_names_table.all_found [OF w(1) plain add w(4)] off by simp
  have "elfio_add_section t a False bs ed = (0, ?ed)"
    using assms(1) add w(2) by (simp add: elfio_add_section_def good_target_def Let_def)
  moreover have "wf_writer ?ed"
    using assms(2) found len section_names_table.add_inv [OF w(1) plain add] by (simp add: wf_writer_def)
  moreover have "placed ?s = (a, bs)" by (simp add: placed_def sec_addr_def contents_def)
  ultimately show thesis by (intro that [of ?ed ?s]) simp_all
qed

lemma save_loop_ok:
  assumes "good_target t" "wf_writer ed" "length (e_sections ed) + length as < 0xff00"
    "\<And>a. a \<in> set as \<Longrightarrow> a AND 31 = 0 \<and> section_bytes a 32 False p = (Inr (D a), p)"
  shows "\<exists>ed'. save_loop t 32 as ed p = (Inr (0, ed'), p) \<and> wf_writer ed' \<and>
    map placed (e_sections ed') = map placed (e_sections ed) @ map (\<lambda>a. (a, D a)) as \<and>
    ehdr ed' = ehdr ed \<and> filename ed' = filename ed \<and> for_write ed' = for_write ed"
  using assms(2-)
proof (induction as arbitrary: ed)
  case (Cons a as)
  obtain ed1 s where s: "elfio_add_section t a False (D a) ed = (0, ed1)" "wf_writer ed1" "e_sections ed1 = e_sections ed @ [s]"
    "placed s = (a, D a)" "ehdr ed1 = ehdr ed" "filename ed1 = filename ed" "for_write ed1 = for_write ed"
    by (rule add_section_ok [OF assms(1) Cons.prems(1), of a "D a"]) (use Cons.prems(2) in simp, rule that)
  then show ?case
    using Cons.IH [of ed1] Cons.prems(2,3) by (fastforce simp: InvalidRegionAccess_def Let_def)
qed simp

text \<open>The image of a writer at its end: its sections, and the table of names with its own name in it.\<close>

lemma writer_image:
  assumes "good_target t" "wf_writer ed" "length (e_sections ed) < 0xff00" "ehdr ed = Some eh"
  obtains names tab where "elf_writer_fini t ed = Inr (0, Some \<lparr>im_ehdr = eh, im_p_type = PT_PHDR,
      im_sections = e_sections ed @ [tab], im_shstrndx = Suc (length (e_sections ed))\<rparr>)"
    "contents tab = chars_bytes (snames names)" "length (snames names) < 2 ^ 31"
    "\<exists>h. sec_hdr tab = Some h" "name_at names (name_offset tab) = Some ''.shstrtab''"
    "list_all2 (\<lambda>k r. name_at names k = Some r) (map name_offset (e_sections ed))
       (map (\<lambda>i. ''.text'' @ decimal (Suc i)) [0..<length (e_sections ed)])"
proof -
  obtain off names where add: "add_section_name (section_names ed) ''.shstrtab'' = (off, names)" by fastforce
  let ?tab = "\<lparr>sec_hdr = Some \<lparr>sh_name = of_nat off, sh_type = SHT_STRTAB, sh_flags = SHF_STRINGS OR SHF_ALLOC,
      sh_addr = 0, sh_size = 0\<rparr>, sec_data = [Some (chars_bytes (take (nbytes names) (snames names)))]\<rparr>"
  have plain: "plain_name ''.shstrtab''" by (simp add: plain_name_def)
  have w: "wf_names (section_names ed)" "nbytes (section_names ed) \<le> 1 + 11 * length (e_sections ed)"
    "list_all2 (\<lambda>k r. name_at (section_names ed) k = Some r) (map name_offset (e_sections ed))
       (map (\<lambda>i. ''.text'' @ decimal (Suc i)) [0..<length (e_sections ed)])"
    using assms(2) by (simp_all add: wf_writer_def)
  have nb: "nbytes names = nbytes (section_names ed) + 10" "off = nbytes (section_names ed)"
    using nbytes_add [OF add] by simp_all
  have wn: "wf_names names" by (rule section_names_table.add_inv [OF w(1) plain add])
  then have len: "length (snames names) < 2 ^ 31" using nb(1) w(2) assms(3) by (simp add: wf_names_def)
  have "off < 2 ^ 32" using w(2) assms(3) unfolding nb(2) by simp
  then have "name_offset ?tab = off" by (simp add: name_offset_def unat_of_nat)
  then have "name_at names (name_offset ?tab) = Some ''.shstrtab''"
    using section_names_table.lookup_new [OF w(1) plain add] by simp
  moreover have "elf_writer_fini t ed = Inr (0, Some \<lparr>im_ehdr = eh, im_p_type = PT_PHDR,
      im_sections = e_sections ed @ [?tab], im_shstrndx = Suc (length (e_sections ed))\<rparr>)"
    using assms(1,4) add by (simp add: elf_writer_fini_def good_target_def Let_def)
  moreover have "contents ?tab = chars_bytes (snames names)" using wn by (simp add: contents_def wf_names_def)
  moreover have "list_all2 (\<lambda>k r. name_at names k = Some r) (map name_offset (e_sections ed))
       (map (\<lambda>i. ''.text'' @ decimal (Suc i)) [0..<length (e_sections ed)])"
    by (rule list_all2_mono [OF w(3)]) (rule section_names_table.lookup_old [OF w(1) plain add])
  ultimately show thesis using len by (intro that [of ?tab names]) simp_all
qed

section \<open>The file as it is shown\<close>

text \<open>
  What libelf documents of a file it has written: the sections are there in order with their data, with
  the sizes filled in, the table of names is the section the header names, and below the number
  from which extended numbering is used the header counts all sections and the null section.
\<close>

definition sized :: "elf_section \<Rightarrow> elf_section" where
  "sized s = s\<lparr>sec_hdr := map_option (\<lambda>h. h\<lparr>sh_size := of_nat (length (contents s))\<rparr>) (sec_hdr s)\<rparr>"

definition shows_image :: "elf_file \<Rightarrow> elf_image \<Rightarrow> bool" where
  "shows_image f im \<longleftrightarrow> f_opens f \<and> f_begins f \<and> f_is_elf f \<and> f_has_strndx f \<and>
     f_sections f = map sized (im_sections im) \<and>
     (Suc (length (im_sections im)) < ELF_MAX_SECTIONS \<longrightarrow> f_e_shnum f = Some (of_nat (Suc (length (im_sections im))))) \<and>
     (case f_strtab f of
        Some (Some d) \<Rightarrow>
          d_off d = 0 \<and>
          (case d_buf d of
             None \<Rightarrow> False
           | Some b \<Rightarrow> d_size d = length b \<and> chars_bytes b = contents (im_sections im ! (im_shstrndx im - 1)))
      | _ \<Rightarrow> False)"

lemma chars_bytes_inj: "chars_bytes s = chars_bytes t \<longleftrightarrow> s = t"
proof -
  have "inj (\<lambda>c :: char. of_nat (of_char c) :: u8)"
  proof (rule injI)
    fix c d :: char
    assume "(of_nat (of_char c) :: u8) = of_nat (of_char d)"
    then have "unat (of_nat (of_char c) :: u8) = unat (of_nat (of_char d) :: u8)" by simp
    then have "(of_char c :: nat) = of_char d" by (simp add: unat_of_nat)
    then show "c = d" by simp
  qed
  then show ?thesis by (simp add: chars_bytes_def inj_map_eq_map)
qed

lemma sized_fields:
  "contents (sized s) = contents s"
  "sec_hdr s = Some h \<Longrightarrow> sec_hdr (sized s) = Some (h\<lparr>sh_size := of_nat (length (contents s))\<rparr>)"
  "sec_hdr s = Some h \<Longrightarrow> sec_addr (sized s) = sec_addr s"
  "sec_hdr s = Some h \<Longrightarrow> name_offset (sized s) = name_offset s"
  by (simp_all add: sized_def contents_def sec_addr_def name_offset_def)

lemma shown_name:
  assumes "f_strtab f = Some (Some d)" "d_off d = 0" "d_size d = length b" "d_buf d = Some b"
    "sec_hdr s = Some h" "c_string (drop (name_offset s) b) = Some r" "length r < 1024"
  shows "name_of f s = Some r"
  using assms c_string_nonempty [OF assms(6)] by (simp add: name_of_def elfio_strptr_def name_offset_def)

lemma sized_readable:
  assumes "name_of f (sized s) = Some r" "sec_hdr s = Some h" "length (contents s) < 2 ^ 31"
  shows "readable f (sized s)"
proof -
  have "unat (of_nat (length (contents s)) :: u64) = length (contents s)"
    using assms(3) by (simp add: unat_of_nat)
  then show ?thesis using assms by (simp add: readable_def sized_fields)
qed

lemma text_not_skipped: "\<not> skip_name (''.text'' @ r)"
  by (simp add: skip_name_def strncmp_eq_def)

lemma shown_sections:
  assumes im: "im = \<lparr>im_ehdr = eh, im_p_type = PT_PHDR, im_sections = ss @ [tab], im_shstrndx = Suc (length ss)\<rparr>"
    and f: "shows_image f im" "Suc (Suc (length ss)) < ELF_MAX_SECTIONS"
    and tab: "contents tab = chars_bytes (snames names)" "length (snames names) < 2 ^ 31" "sec_hdr tab = Some th"
      "name_at names (name_offset tab) = Some ''.shstrtab''"
    and ss: "\<And>i. i < length ss \<Longrightarrow> \<exists>h. sec_hdr (ss ! i) = Some h \<and> is_data_type (sh_type h)"
      "\<And>i. i < length ss \<Longrightarrow> contents (ss ! i) \<noteq> [] \<and> length (contents (ss ! i)) < 2 ^ 31"
      "\<And>i. i < length ss \<Longrightarrow> name_at names (name_offset (ss ! i)) = Some (''.text'' @ decimal (Suc i))"
  shows "wf_file f" "map placed (loaded_sections f) = map placed ss"
proof -
  obtain d b where d: "f_strtab f = Some (Some d)" "d_off d = 0" "d_buf d = Some b" "d_size d = length b"
    "chars_bytes b = contents tab"
    using f(1) by (auto simp: shows_image_def im nth_append split: option.splits)
  have b: "b = snames names" using d(5) tab(1) by (simp add: chars_bytes_inj)
  have name: "name_of f (sized s) = Some r"
    if "sec_hdr s = Some h" "name_at names (name_offset s) = Some r" "length r < 1024" for s h r
    by (rule shown_name [OF d(1,2,4,3)]) (use that b in \<open>auto simp: sized_fields name_at_def\<close>)
  have T: "\<exists>h r. sec_hdr s = Some h \<and> is_data_type (sh_type h) \<and> name_of f (sized s) = Some (''.text'' @ r)"
    "contents s \<noteq> [] \<and> length (contents s) < 2 ^ 31" if "s \<in> set ss" for s
  proof -
    from \<open>s \<in> set ss\<close> obtain i where i: "i < length ss" "ss ! i = s" by (auto simp: in_set_conv_nth)
    show "contents s \<noteq> [] \<and> length (contents s) < 2 ^ 31" using ss(2) i by auto
    obtain h where h: "sec_hdr s = Some h" "is_data_type (sh_type h)" using ss(1) i by auto
    have "length (decimal (Suc i)) \<le> 5" by (rule length_decimal) (use i f(2) in \<open>simp_all add: ELF_MAX_SECTIONS_def\<close>)
    then have "name_of f (sized s) = Some (''.text'' @ decimal (Suc i))"
      by (intro name [OF h(1)]) (use ss(3) i in auto)
    then show "\<exists>h r. sec_hdr s = Some h \<and> is_data_type (sh_type h) \<and> name_of f (sized s) = Some (''.text'' @ r)" using h by blast
  qed
  have tn: "name_of f (sized tab) = Some ''.shstrtab''" by (rule name [OF tab(3,4)]) simp
  have "readable f (sized tab)"
    by (rule sized_readable [OF tn tab(3)]) (use tab(1,2) in \<open>simp add: chars_bytes_def\<close>)
  moreover have "readable f (sized s)" if "s \<in> set ss" for s
    using T [OF that] by (auto intro: sized_readable)
  ultimately have rd: "list_all (readable f) (map sized (ss @ [tab]))" by (simp add: list_all_iff)
  have sections: "f_sections f = map sized (ss @ [tab])" using f(1) by (simp add: shows_image_def im)
  have "f_e_shnum f = Some (of_nat (Suc (Suc (length ss))))"
    using f by (simp add: shows_image_def im)
  moreover have "f_opens f \<and> f_begins f \<and> f_is_elf f \<and> f_has_strndx f" using f(1) by (simp add: shows_image_def)
  ultimately show "wf_file f" using rd d(1) f(2) by (simp add: wf_file_def sections ELF_MAX_SECTIONS_def)
  have "loaded f (sized s)" if "s \<in> set ss" for s
    using T [OF that] by (auto simp: loaded_def sized_fields text_not_skipped simp del: append_Cons append.simps)
  moreover have "\<not> loaded f (sized tab)"
    using tn by (auto simp: loaded_def skip_name_def strncmp_eq_def split: option.splits)
  ultimately have "loaded_sections f = map sized ss"
    by (simp add: loaded_sections_def sections filter_True)
  moreover have "placed (sized s) = placed s" if "s \<in> set ss" for s
    using T(1) [OF that] by (auto simp: placed_def sized_fields)
  ultimately show "map placed (loaded_sections f) = map placed ss" by simp
qed

section \<open>Memory from blocks\<close>

lemma with_sections_placed:
  "with_sections ss m = fold (\<lambda>(a, bs) m. upd_span m a bs) (map placed ss) m"
  by (simp add: with_sections_def placed_def fold_map comp_def)

lemma upd_block:
  assumes "unat a mod 32 = 0" "length bs = 32"
  shows "upd_span m a bs x = (if BlockAddress x = a then Some (bs ! (unat x mod 32)) else m x)"
proof -
  have a: "BlockAddress a = a" using assms(1) by (simp add: BlockAddress_eq)
  have "unat (x - a) < 32 \<longleftrightarrow> BlockAddress x = a"
    using span_in_block [of a 32 x] assms(1) a by simp
  moreover have "unat (x - a) = unat x mod 32" if "BlockAddress x = a"
    using span_in_block_diff [of x a] that a assms(1) by simp
  ultimately show ?thesis using assms(2) by (auto simp: upd_span_def)
qed

lemma upd_blocks:
  "(\<And>a. a \<in> set as \<Longrightarrow> unat a mod 32 = 0 \<and> length (D a) = 32) \<Longrightarrow>
    fold (\<lambda>(a, bs) m. upd_span m a bs) (map (\<lambda>a. (a, D a)) as) m x
      = (if BlockAddress x \<in> set as then Some (D (BlockAddress x) ! (unat x mod 32)) else m x)"
  by (induction as arbitrary: m) (auto simp: upd_block)

section \<open>Saving and loading\<close>

text \<open>What saving a memory needs: a store without untouched blocks, few enough blocks, and a file that can be written.\<close>

definition can_save :: "elf_lib \<Rightarrow> string \<Rightarrow> platform \<Rightarrow> bool" where
  "can_save lib name p \<longleftrightarrow> elf_version_ok lib \<and> length name < 1024 \<and> good_target (target_of lib name) \<and>
     wf_mem p \<and> all_allocated (phys_mem (memory p)) \<and> length (TestBlockAddresses [] (memory p)) + 2 < ELF_MAX_SECTIONS"

lemma Save_blocks:
  assumes "can_save lib name p"
  defines "blocks \<equiv> TestBlockAddresses [] (memory p)"
  obtains im where "Save lib name entry False p = (Inr (0, Some im), p)"
    "\<And>f. shows_image f im \<Longrightarrow> wf_file f \<and> map placed (loaded_sections f) = map (\<lambda>a. (a, block_data p a)) blocks"
    "e_entry (im_ehdr im) = entry"
proof -
  have ok: "elf_version_ok lib" "length name < 1024" "good_target (target_of lib name)" "wf_mem p"
    "all_allocated (phys_mem (memory p))" "length blocks + 2 < ELF_MAX_SECTIONS"
    using assms(1) by (simp_all add: can_save_def blocks_def)
  have al: "unat a mod 32 = 0" "a AND 31 = 0" "a AND block_mask 5 = a" if "a \<in> set blocks" for a
    using listed_aligned [OF ok(4)] that unfolding blocks_def by blast+
  have bd: "section_bytes a 32 False p = (Inr (block_data p a), p)" "length (block_data p a) = 32" if "a \<in> set blocks" for a
    using block_section [OF ok(4,5)] that unfolding blocks_def by blast+
  have "distinct blocks"
    using test_block_addresses_complete [of "memory p"] ok(4) unfolding blocks_def wf_mem_def by blast
  then have file_blocks: "SetFileBlockAddresses [] blocks (block_mask 5) = blocks"
    using al(3) by (simp add: SetFileBlockAddresses_def file_block_loop_id)
  define eh where "eh = \<lparr>e_data = ELFDATA2LSB, e_machine = EM_RISCV, e_type = ET_EXEC, e_version = EV_CURRENT, e_entry = entry\<rparr>"
  obtain ed where ed: "elfio_init lib name True entry = Inr (0, ed)" "wf_writer ed" "e_sections ed = []" "ehdr ed = Some eh"
    "filename ed = name" "for_write ed"
    using ok(1-3) by (simp add: elfio_init_def elfio_init_for_write_def good_target_def Let_def wf_writer_def eh_def
        init_string_table_def wf_names_def)
  from save_loop_ok [OF ok(3) ed(2), of blocks p "block_data p"] obtain ed' where
    ed': "save_loop (target_of lib name) 32 blocks ed p = (Inr (0, ed'), p)" "wf_writer ed'"
      "map placed (e_sections ed') = map (\<lambda>a. (a, block_data p a)) blocks" "ehdr ed' = Some eh" "filename ed' = name" "for_write ed'"
    using ed(3-) ok(6) al(2) bd(1) by (auto simp: ELF_MAX_SECTIONS_def)
  let ?ss = "e_sections ed'"
  have len: "length ?ss = length blocks" using arg_cong [OF ed'(3), of length] by simp
  obtain names tab th where im: "elf_writer_fini (target_of lib name) ed' = Inr (0, Some \<lparr>im_ehdr = eh, im_p_type = PT_PHDR,
      im_sections = ?ss @ [tab], im_shstrndx = Suc (length ?ss)\<rparr>)"
    and tab: "contents tab = chars_bytes (snames names)" "length (snames names) < 2 ^ 31" "sec_hdr tab = Some th"
      "name_at names (name_offset tab) = Some ''.shstrtab''"
    and found: "list_all2 (\<lambda>k r. name_at names k = Some r) (map name_offset ?ss) (map (\<lambda>i. ''.text'' @ decimal (Suc i)) [0..<length ?ss])"
    by (rule writer_image [OF ok(3) ed'(2) _ ed'(4)]) (use ok(6) len in \<open>auto simp: ELF_MAX_SECTIONS_def\<close>)
  let ?im = "\<lparr>im_ehdr = eh, im_p_type = PT_PHDR, im_sections = ?ss @ [tab], im_shstrndx = Suc (length ?ss)\<rparr>"
  have "Save lib name entry False p = (Inr (0, Some ?im), p)"
    using ed(1) ed'(1,5,6) im ok(6) file_blocks
    by (simp add: Save_def SaveToELF_def elfio_fini_def ChooseFileBlockSize_def Let_def PM_BLOCK_SIZE_LOG2_def flip: blocks_def)
  moreover have "wf_file f \<and> map placed (loaded_sections f) = map (\<lambda>a. (a, block_data p a)) blocks" if "shows_image f ?im" for f
  proof -
    have h: "\<exists>h. sec_hdr (?ss ! i) = Some h \<and> is_data_type (sh_type h)" if "i < length ?ss" for i
      using ed'(2) that by (fastforce simp: wf_writer_def list_all_length is_data_type_def)
    have c: "contents (?ss ! i) \<noteq> [] \<and> length (contents (?ss ! i)) < 2 ^ 31" if "i < length ?ss" for i
    proof -
      have "placed (?ss ! i) = (blocks ! i, block_data p (blocks ! i))"
        using arg_cong [OF ed'(3), of "\<lambda>xs. xs ! i"] that len by simp
      moreover have "length (block_data p (blocks ! i)) = 32" using bd(2) that len by simp
      ultimately show ?thesis by (auto simp: placed_def)
    qed
    have n: "name_at names (name_offset (?ss ! i)) = Some (''.text'' @ decimal (Suc i))" if "i < length ?ss" for i
      using found that by (auto simp: list_all2_conv_all_nth)
    have "Suc (Suc (length ?ss)) < ELF_MAX_SECTIONS" using ok(6) len by simp
    from shown_sections [OF refl that this tab h c n] show ?thesis using ed'(3) by simp
  qed
  moreover have "e_entry (im_ehdr ?im) = entry" by (simp add: eh_def)
  ultimately show thesis by (rule that)
qed

lemma Save_Load:
  assumes "can_save lib name p"
  shows "\<exists>im. Save lib name entry False p = (Inr (0, Some im), p) \<and>
    (\<forall>lib' name' q. elf_version_ok lib' \<and> length name' < 1024 \<and> shows_image (file_of lib' name') im \<and> wf_mem q \<and>
       (\<forall>a\<in>set (TestBlockAddresses [] (memory p)). ram_span q a 32) \<longrightarrow>
      (\<exists>q'. Load lib' name' q = (Inr 0, q') \<and> same_setup q q' \<and>
        (\<forall>x v. mem_byte p x = Some v \<longrightarrow> mem_byte q' x = Some v) \<and>
        (\<forall>x. BlockAddress x \<notin> set (TestBlockAddresses [] (memory p)) \<longrightarrow> mem_byte q' x = mem_byte q x)))"
proof -
  let ?blocks = "TestBlockAddresses [] (memory p)"
  have ok: "wf_mem p" "all_allocated (phys_mem (memory p))" using assms by (simp_all add: can_save_def)
  obtain im where im: "Save lib name entry False p = (Inr (0, Some im), p)"
    "\<And>f. shows_image f im \<Longrightarrow> wf_file f \<and> map placed (loaded_sections f) = map (\<lambda>a. (a, block_data p a)) ?blocks"
    by (rule Save_blocks [OF assms]) (rule that)
  have bd: "unat a mod 32 = 0 \<and> length (block_data p a) = 32" if "a \<in> set ?blocks" for a
    using listed_aligned(1) [OF ok(1) that] block_section(2) [OF ok that] by blast
  have "\<exists>q'. Load lib' name' q = (Inr 0, q') \<and> same_setup q q' \<and> (\<forall>x v. mem_byte p x = Some v \<longrightarrow> mem_byte q' x = Some v) \<and>
      (\<forall>x. BlockAddress x \<notin> set ?blocks \<longrightarrow> mem_byte q' x = mem_byte q x)"
    if v: "elf_version_ok lib'" "length name' < 1024" "shows_image (file_of lib' name') im" "wf_mem q"
      "\<forall>a\<in>set ?blocks. ram_span q a 32" for lib' name' q
  proof -
    let ?f = "file_of lib' name'"
    from im(2) [OF v(3)] have wf: "wf_file ?f" and pl: "map placed (loaded_sections ?f) = map (\<lambda>a. (a, block_data p a)) ?blocks"
      by blast+
    have "ram_span q (sec_addr s) (length (contents s))" if "s \<in> set (loaded_sections ?f)" for s
    proof -
      have "placed s \<in> set (map (\<lambda>a. (a, block_data p a)) ?blocks)" using that unfolding pl [symmetric] by simp
      then show ?thesis using v(5) bd by (auto simp: placed_def)
    qed
    then have "fits q (loaded_sections ?f)" by (simp add: fits_def list_all_iff)
    from Load_sections [OF v(1,2) wf v(4) this] obtain q' where q': "Load lib' name' q = (Inr 0, q')" "same_setup q q'"
      "mem_byte q' = with_sections (loaded_sections ?f) (mem_byte q)"
      by blast
    have after: "mem_byte q' x = (if BlockAddress x \<in> set ?blocks then Some (block_data p (BlockAddress x) ! (unat x mod 32))
        else mem_byte q x)" for x
      unfolding q'(3) with_sections_placed pl by (rule upd_blocks) (rule bd)
    have "mem_byte q' x = Some v" if "mem_byte p x = Some v" for x v
      using after [of x] used_in_block [OF that] that test_block_addresses_complete [of "memory p"] ok(1)
      by (simp add: wf_mem_def mem_byte_def)
    then show ?thesis using q'(1,2) after by auto
  qed
  with im(1) show ?thesis by blast
qed

text \<open>
  C6. Saving and loading: suppose that the file can be opened, every block of the store is allocated and the
  blocks in use with the null section and the string table stay below the section limit of 0xff00. A
  memory saved without compression leaves the memory as it was, every block in use is written, data
  included, and when the file written is shown by libelf as it was written, loading it into any memory where its blocks are ordinary
  memory succeeds, gives every byte that was in use its value again, and changes nothing outside the
  blocks that were in use.
\<close>

theorem save_load_roundtrip:
  assumes "can_save lib name p"
  shows "\<exists>im. Save lib name entry False p = (Inr (0, Some im), p) \<and>
    (\<forall>lib' name' q. elf_version_ok lib' \<and> length name' < 1024 \<and> shows_image (file_of lib' name') im \<and> wf_mem q \<and>
       (\<forall>a\<in>set (TestBlockAddresses [] (memory p)). ram_span q a 32) \<longrightarrow>
      (\<exists>q'. Load lib' name' q = (Inr 0, q') \<and> same_setup q q' \<and>
        (\<forall>x v. mem_byte p x = Some v \<longrightarrow> mem_byte q' x = Some v) \<and>
        (\<forall>x. BlockAddress x \<notin> set (TestBlockAddresses [] (memory p)) \<longrightarrow> mem_byte q' x = mem_byte q x)))"
  by (rule Save_Load [OF assms])

text \<open>A view of any image that libelf may give, and a memory with a few bytes in it.\<close>

definition demo_view :: "elf_image \<Rightarrow> elf_file" where
  "demo_view im =
     (let b = map (\<lambda>w. char_of (unat w)) (contents (im_sections im ! (im_shstrndx im - 1)))
      in \<lparr>f_opens = True, f_begins = True, f_is_elf = True, f_has_strndx = True,
          f_strtab = Some (Some \<lparr>d_off = 0, d_size = length b, d_buf = Some b\<rparr>),
          f_e_shnum = Some (of_nat (Suc (length (im_sections im)))), f_sections = map sized (im_sections im)\<rparr>)"

definition demo_written :: platform where
  "demo_written = set_phys_mem (store_write False 0x1010 [1, 2] (PhysicalMemory_new demo_host)) demo_platform"

lemma demo_view_shows: "shows_image (demo_view im) im"
proof -
  have "chars_bytes (map (\<lambda>w. char_of (unat w)) bs) = bs" for bs
  proof -
    have "unat (w :: u8) < 256" for w using unsigned_less [of w, where ?'a = nat] by simp
    then show ?thesis by (simp add: chars_bytes_def comp_def take_bit_nat_eq_self map_idI)
  qed
  then show ?thesis by (simp add: shows_image_def demo_view_def Let_def)
qed

lemma demo_written_ok:
  "wf_mem demo_written" "mem_byte demo_written 0x1010 = Some 1" "all_allocated (phys_mem (memory demo_written))"
  "TestBlockAddresses [] (memory demo_written) = [0x1000]"
proof -
  let ?pm = "store_write False 0x1010 [1, 2] (PhysicalMemory_new demo_host)"
  have "wf_pm ?pm" by (rule pms.wr_ok) simp_all
  then show "wf_mem demo_written"
    using wf_mem_setup [OF memory_set_phys(2) demo_platform_ok(1), of ?pm] by (simp add: demo_written_def)
  have "pm_byte ?pm = upd_span (pm_byte (PhysicalMemory_new demo_host)) 0x1010 [1, 2]"
    by (rule pms.wr_byte) simp_all
  then show "mem_byte demo_written 0x1010 = Some 1" by (simp add: demo_written_def mem_byte_def upd_span_def)
  then have pm: "pm_byte ?pm 0x1010 = Some 1" by (simp add: demo_written_def mem_byte_def)
  obtain r b h where w: "MemBlock_Write 0x1010 [1, 2] 2 False MemBlock_new demo_host = (r, b, h)"
    by (rule prod_cases3)
  have "Offset 0x1010 = 16" "BlockAddress 0x1010 = 0x1000" by (simp_all add: Offset_def BlockAddress_def)
  moreover from this w have "r \<noteq> Inl SPLIT_ACCESS"
    by (simp add: MemBlock_Write_def ValidateAccess_def PM_BLOCK_SIZE_def Let_def case_prod_unfold split: if_splits) auto
  ultimately have one: "physical_memory_by_block ?pm = [(0x1000, b)]"
    using w by (auto simp: store_write_def PhysicalMemory_Write_def BlockWrite_def write_at_def PhysicalMemory_new_def
        block_at_def put_block_def split: sum.splits MBLOCK_ERROR.splits)
  have "block_byte b 16 = Some 1"
    using pm one \<open>Offset 0x1010 = 16\<close> \<open>BlockAddress 0x1010 = 0x1000\<close> by (simp add: pm_byte_def block_at_def)
  then show "all_allocated (phys_mem (memory demo_written))"
    by (auto simp: all_allocated_def demo_written_def one allocated_def block_byte_def split: option.splits)
  have "0 < ByteCount b" by (rule ByteCount_pos [of 16]) (simp_all add: \<open>block_byte b 16 = Some 1\<close>)
  then show "TestBlockAddresses [] (memory demo_written) = [0x1000]"
    by (simp add: TestBlockAddresses_def AddressList_def demo_written_def one)
qed

theorem save_load_roundtrip_witness:
  "\<exists>im q'. Save (demo_libelf (demo_file [1, 2, 3, 4])) ''dump.elf'' 0x1000 False demo_written = (Inr (0, Some im), demo_written) \<and>
     Load (demo_libelf (demo_view im)) ''dump.elf'' demo_platform = (Inr 0, q') \<and> mem_byte q' 0x1010 = Some 1"
proof -
  have "can_save (demo_libelf (demo_file [1, 2, 3, 4])) ''dump.elf'' demo_written"
    using demo_written_ok by (simp add: can_save_def demo_libelf_def good_target_def demo_target_def ELF_MAX_SECTIONS_def)
  from save_load_roundtrip [OF this, of "0x1000"] obtain im where
    im: "Save (demo_libelf (demo_file [1, 2, 3, 4])) ''dump.elf'' 0x1000 False demo_written = (Inr (0, Some im), demo_written)" and
    ld: "\<And>lib' name' q. elf_version_ok lib' \<and> length name' < 1024 \<and> shows_image (file_of lib' name') im \<and> wf_mem q \<and>
       (\<forall>a\<in>set (TestBlockAddresses [] (memory demo_written)). ram_span q a 32) \<Longrightarrow>
      \<exists>q'. Load lib' name' q = (Inr 0, q') \<and> (\<forall>x v. mem_byte demo_written x = Some v \<longrightarrow> mem_byte q' x = Some v)"
    by (elim exE conjE) (rule that, assumption, blast)
  from ld [of "demo_libelf (demo_view im)" "''dump.elf''" demo_platform] demo_written_ok(2,4) demo_view_shows [of im]
  show ?thesis using im by (fastforce simp: demo_libelf_def)
qed

section \<open>The size of blocks in a file\<close>

lemma unat_and_block_mask:
  assumes "k < 64"
  shows "unat (a AND block_mask k) = unat a div 2 ^ k * 2 ^ k"
proof -
  have "block_mask k = NOT (mask k)" by (simp add: block_mask_def mask_eq_exp_minus_1 push_bit_eq_mult)
  then have "a AND block_mask k = a - take_bit k a" by (simp add: word_and_not_eq_diff take_bit_eq_mask)
  moreover have "unat (take_bit k a) = unat a mod 2 ^ k" by (simp only: unsigned_take_bit_eq) (simp add: take_bit_eq_mod)
  ultimately show ?thesis by (simp add: unat_sub_if' minus_mod_eq_div_mult)
qed

lemma and_block_mask_mono: "k < 64 \<Longrightarrow> a \<le> b \<Longrightarrow> a AND block_mask k \<le> b AND block_mask k"
  by (simp add: word_le_nat_alt unat_and_block_mask div_le_mono)

text \<open>Merging neighbours of a sorted list gives every block but the one at the start exactly once.\<close>

lemma merged_blocks_sorted:
  assumes "k < 64" "sorted as" "\<And>a. a \<in> set as \<Longrightarrow> cur \<le> a AND block_mask k"
  shows "distinct (merged_blocks (block_mask k) cur as) \<and>
    set (merged_blocks (block_mask k) cur as) = (\<lambda>a. a AND block_mask k) ` set as - {cur}"
  using assms(2,3)
proof (induction as arbitrary: cur)
  case (Cons a as)
  let ?n = "a AND block_mask k"
  have above: "?n \<le> x AND block_mask k" if "x \<in> set as" for x
    using Cons.prems(1) that by (intro and_block_mask_mono [OF assms(1)]) simp
  show ?case
  proof (cases "?n = cur")
    case True
    then show ?thesis using Cons.IH [of cur] Cons.prems by (auto simp: Let_def)
  next
    case False
    then have "cur < ?n" using Cons.prems(2) [of a] by simp
    then have "cur \<notin> (\<lambda>x. x AND block_mask k) ` set as" using above by fastforce
    then show ?thesis using Cons.IH [of ?n] Cons.prems(1) above False by (auto simp: Let_def)
  qed
qed simp

lemma estimate_sorted:
  assumes "k < 64" "sorted as"
  shows "snd (estimateELFFileSize as k) = card ((\<lambda>a. a AND block_mask k) ` set as - {0})"
  using merged_blocks_sorted [OF assms, of 0] distinct_card [of "merged_blocks (block_mask k) 0 as"]
  by (simp add: estimateELFFileSize_def Let_def)

lemma file_blocks_count:
  "length (SetFileBlockAddresses [] as msk) = card ((\<lambda>a. a AND msk) ` set as)"
  using file_block_loop_ok [of "[]" "[]" as msk] distinct_card [of "SetFileBlockAddresses [] as msk"]
  by (simp add: SetFileBlockAddresses_def)

lemma blocks_of_32_bits:
  assumes "k < 32" "\<And>a. a \<in> set as \<Longrightarrow> unat a < 2 ^ 32"
  shows "card ((\<lambda>a. a AND block_mask k) ` set as - {0}) < 2 ^ (32 - k)"
proof -
  let ?S = "(\<lambda>a. a AND block_mask k) ` set as - {0}"
  have S: "unat x div 2 ^ k \<in> {1..<2 ^ (32 - k)}" "unat x = unat x div 2 ^ k * 2 ^ k" if x: "x \<in> ?S" for x
  proof -
    obtain a where a: "a \<in> set as" "x = a AND block_mask k" "x \<noteq> 0" using x by auto
    have u: "unat x = unat a div 2 ^ k * 2 ^ k" unfolding a(2) using assms(1) by (intro unat_and_block_mask) simp
    then have d: "unat x div 2 ^ k = unat a div 2 ^ k" by simp
    then show e: "unat x = unat x div 2 ^ k * 2 ^ k" using u by metis
    have "unat x \<noteq> 0" using a(3) by (simp add: unat_eq_0)
    then have "0 < unat x div 2 ^ k" using e by (metis mult_0 neq0_conv)
    moreover have "2 ^ (32 - k) * 2 ^ k = (2 :: nat) ^ 32" using assms(1) by (simp flip: power_add)
    then have "unat a div 2 ^ k < 2 ^ (32 - k)" using assms(2) [OF a(1)] by (intro less_mult_imp_div_less) metis
    ultimately show "unat x div 2 ^ k \<in> {1..<2 ^ (32 - k)}" using d by simp
  qed
  have "inj_on (\<lambda>x. unat x div 2 ^ k) ?S"
  proof (rule inj_onI)
    fix x y
    assume "x \<in> ?S" "y \<in> ?S" "unat x div 2 ^ k = unat y div 2 ^ k"
    then have "unat x = unat y" using S(2) by metis
    then show "x = y" by (rule unsigned_word_eqI)
  qed
  moreover have "(\<lambda>x. unat x div 2 ^ k) ` ?S \<subseteq> {1..<2 ^ (32 - k)}" using S(1) by blast
  ultimately have "card ?S \<le> card {1..<(2 :: nat) ^ (32 - k)}" by (rule card_inj_on_le) simp
  then have "card ?S \<le> 2 ^ (32 - k) - 1" by simp
  also have "\<dots> < (2 :: nat) ^ (32 - k)" by simp
  finally show ?thesis .
qed

lemma choice_found:
  assumes "snd (estimateELFFileSize as 20) < ELF_MAX_SECTIONS"
  obtains bits where "bits \<in> {12, 13, 14, 15, 16, 20}" "snd (estimateELFFileSize as bits) < ELF_MAX_SECTIONS"
    "trial_loop trial_block_sizes as res = (bits, snd (estimateELFFileSize as bits))"
proof -
  have "\<exists>bits\<in>{12, 13, 14, 15, 16, 20}. snd (estimateELFFileSize as bits) < ELF_MAX_SECTIONS \<and>
      trial_loop trial_block_sizes as res = (bits, snd (estimateELFFileSize as bits))"
    using assms by (simp add: trial_block_sizes_def Let_def)
  then show thesis using that by blast
qed

text \<open>
  The size of blocks: for the blocks of a memory of 32 address bits, in order, a size is always found, of 32 bytes
  or of 4 kilobytes to 1 megabyte, so the shift that would overflow is not reached; the number of
  sections written is below the limit or equal to it, and at most one more than estimated.
\<close>

theorem block_size_choice:
  assumes "sorted as" "\<forall>a\<in>set as. unat a < 2 ^ 32"
  shows "\<exists>bits n. ChooseFileBlockSize as = Some (bits, n) \<and> bits \<in> {5, 12, 13, 14, 15, 16, 20} \<and> n < ELF_MAX_SECTIONS \<and>
    length (SetFileBlockAddresses [] as (block_mask bits)) \<le> Suc n"
proof (cases "length as < ELF_MAX_SECTIONS")
  case True
  have "card ((\<lambda>a. a AND block_mask 5) ` set as) \<le> length as"
    using card_image_le [of "set as"] card_length [of as] by (meson List.finite_set le_trans)
  then show ?thesis using True by (simp add: ChooseFileBlockSize_def PM_BLOCK_SIZE_LOG2_def file_blocks_count Let_def)
next
  case False
  have est: "snd (estimateELFFileSize as k) = card ((\<lambda>a. a AND block_mask k) ` set as - {0})" if "k < 64" for k
    by (rule estimate_sorted [OF that assms(1)])
  have "snd (estimateELFFileSize as 20) < 2 ^ 12"
    using blocks_of_32_bits [of 20 as] assms(2) est [of 20] by simp
  then obtain bits where b: "bits \<in> {12, 13, 14, 15, 16, 20}" "snd (estimateELFFileSize as bits) < ELF_MAX_SECTIONS"
    "trial_loop trial_block_sizes as (PM_BLOCK_SIZE_LOG2, length as) = (bits, snd (estimateELFFileSize as bits))"
    using choice_found [of as] by (auto simp: ELF_MAX_SECTIONS_def)
  have "card ((\<lambda>a. a AND block_mask bits) ` set as) \<le> Suc (snd (estimateELFFileSize as bits))"
    using est [of bits] b(1) card_Suc_Diff1 [of "(\<lambda>a. a AND block_mask bits) ` set as" 0]
    by (cases "0 \<in> (\<lambda>a. a AND block_mask bits) ` set as") auto
  then show ?thesis
    using False b by (auto simp: ChooseFileBlockSize_def file_blocks_count Let_def)
qed

theorem block_size_choice_witness:
  "\<exists>bits n. ChooseFileBlockSize [0x20, 0x40] = Some (bits, n) \<and> bits \<in> {5, 12, 13, 14, 15, 16, 20} \<and>
    length (SetFileBlockAddresses [] [0x20, 0x40] (block_mask bits)) \<le> Suc n"
proof -
  have "sorted [0x20, 0x40 :: u64]" "\<forall>a\<in>set [0x20, 0x40 :: u64]. unat a < 2 ^ 32" by simp_all
  from block_size_choice [OF this] show ?thesis by blast
qed

end
