(* ===== verification/Main_Program.thy ===== *)
theory Main_Program
  imports Programs
begin

text \<open>
  The command line, \<open>src/program_options.C\<close>, and the main program, \<open>src/main.C\<close>. boost splits the command line
  and converts numbers: what it hands over is the record \<open>options\<close>, or nothing when it throws an error of its
  own. The texts of addresses, ranges, port and core are read by the code with \<open>sscanf\<close> and are
  modelled. What the simulation needs from outside is bundled in \<open>world\<close>. Messages and times are left out.
\<close>

unbundle bit_operations_syntax

section \<open>The command line\<close>

record options =
  o_help :: bool
  o_version :: bool
  o_sim_config_file :: "string list option"
  o_sim_load_file :: "string list option"
  o_sim_dump_file :: "string option"
  o_num_cores :: "u32 option"
  o_max_instrs :: "u32 option"
  o_show_disassembly :: bool
  o_show_updates :: bool
  o_reset_address :: "string option"
  o_isa_test :: bool
  o_signature_address_range :: "string option"
  o_dram_range :: "string option"
  o_timer :: "string option"
  o_uart :: "string option"
  o_port :: "string option"
  o_core :: "string option"

definition COMMAND_LINE_ERROR :: int where "COMMAND_LINE_ERROR = 1"
definition SUCCESS :: int where "SUCCESS = 0"
definition ERROR_UNHANDLED_EXCEPTION :: int where "ERROR_UNHANDLED_EXCEPTION = 2"

text \<open>An early return with its code, or behaviour that is not defined (a number too large for \<open>sscanf\<close>).\<close>

datatype opt_stop = Ret int | OptUB

definition scanned_or_error :: "'a scanned \<Rightarrow> (SimConfig, opt_stop, 'a) smx" where
  "scanned_or_error r = (case r of Scanned v \<Rightarrow> returnS v | Failed \<Rightarrow> throwS (Ret COMMAND_LINE_ERROR) | Overflow \<Rightarrow> throwS OptUB)"

text \<open>The formats \<open>0x%llx\<close> and \<open>%d\<close>.\<close>

definition scan_0x_llx :: "string \<Rightarrow> u64 scanned" where
  "scan_0x_llx s =
     (if take 2 s = ''0x''
      then (case scan_as as_u64 True (drop 2 s) of Scanned (v, _) \<Rightarrow> Scanned v | Failed \<Rightarrow> Failed | Overflow \<Rightarrow> Overflow)
      else Failed)"

definition scan_d :: "string \<Rightarrow> int scanned" where
  "scan_d s = (case scan_as as_int False s of Scanned (v, _) \<Rightarrow> Scanned v | Failed \<Rightarrow> Failed | Overflow \<Rightarrow> Overflow)"

fun find_dots :: "string \<Rightarrow> nat option" where
  "find_dots s =
     (if take 2 s = ''..'' then Some 0
      else case s of [] \<Rightarrow> None | c # s' \<Rightarrow> map_option Suc (find_dots s'))"

declare find_dots.simps [simp del]

definition scan_range :: "string \<Rightarrow> (SimConfig, opt_stop, u64 \<times> u64) smx" where
  "scan_range rs =
     (case find_dots rs of
        None \<Rightarrow> throwS (Ret COMMAND_LINE_ERROR)
      | Some pos \<Rightarrow>
          bindS (scanned_or_error (scan_0x_llx (take pos rs)))
            (\<lambda>address_lo. bindS (scanned_or_error (scan_0x_llx (drop (pos + 2) rs)))
              (\<lambda>address_hi. returnS (address_lo, address_hi))))"

definition with_option :: "'a option \<Rightarrow> ('a \<Rightarrow> (SimConfig, opt_stop, unit) smx) \<Rightarrow> (SimConfig, opt_stop, unit) smx" where
  "with_option v f = (case v of None \<Rightarrow> returnS () | Some x \<Rightarrow> f x)"

definition set_files :: "options \<Rightarrow> (SimConfig, opt_stop, unit) smx" where
  "set_files vm =
     thenS (with_option (o_sim_load_file vm) (\<lambda>obj_files. modifyS (\<lambda>cfg. foldl (\<lambda>cfg f. AddSrcFile f cfg) cfg obj_files)))
       (with_option (o_sim_dump_file vm) (\<lambda>f. modifyS (SetDumpFile f)))"

definition set_addresses :: "options \<Rightarrow> (SimConfig, opt_stop, unit) smx" where
  "set_addresses vm =
     thenS (with_option (o_num_cores vm) (\<lambda>n. modifyS (SetCoreCount n)))
     (thenS (with_option (o_reset_address vm) (\<lambda>rs. bindS (scanned_or_error (scan_0x_llx rs)) (\<lambda>a. modifyS (SetResetAddress a))))
     (thenS (if o_isa_test vm then modifyS SetISAtest else returnS ())
     (thenS (with_option (o_signature_address_range vm)
               (\<lambda>rs. bindS (scan_range rs) (\<lambda>(lo, hi). modifyS (SetSignatureAddressRange lo hi))))
     (with_option (o_dram_range vm)
               (\<lambda>rs. bindS (scan_range rs) (\<lambda>(lo, hi). modifyS (SetAddressRange lo hi)))))))"

definition set_devices :: "options \<Rightarrow> (SimConfig, opt_stop, unit) smx" where
  "set_devices vm =
     thenS (with_option (o_timer vm) (\<lambda>rs. bindS (scanned_or_error (scan_0x_llx rs)) (\<lambda>a. modifyS (cfg_MapDevice ''MACHINE_TIMER'' a))))
       (with_option (o_uart vm) (\<lambda>rs. bindS (scanned_or_error (scan_0x_llx rs)) (\<lambda>a. modifyS (cfg_MapDevice ''UART_PL011'' a))))"

text \<open>The maximum is converted from unsigned to signed.\<close>

definition set_progress :: "options \<Rightarrow> (SimConfig, opt_stop, unit) smx" where
  "set_progress vm =
     thenS (if o_show_disassembly vm then modifyS (SetShowProgress True) else returnS ())
     (thenS (if o_show_updates vm then modifyS (\<lambda>cfg. SetShowProgress True (SetShowUpdates True cfg)) else returnS ())
     (with_option (o_max_instrs vm) (\<lambda>n. modifyS (SetMaxInstrs (sint n)))))"

text \<open>The core is compared with the number of cores as an unsigned number.\<close>

definition set_debug :: "options \<Rightarrow> (SimConfig, opt_stop, unit) smx" where
  "set_debug vm =
     bindS (case o_port vm of None \<Rightarrow> returnS (-1) | Some ts \<Rightarrow> scanned_or_error (scan_d ts))
       (\<lambda>port. bindS (case o_core vm of
                 None \<Rightarrow> returnS 0
               | Some ts \<Rightarrow>
                   bindS (scanned_or_error (scan_d ts))
                     (\<lambda>id. bindS (getS num_cores)
                       (\<lambda>n. if n \<le> (word_of_int id :: u32) then throwS (Ret COMMAND_LINE_ERROR) else returnS (word_of_int id))))
         (\<lambda>core_id. modifyS (SetDebugServerParms (word_of_int port) core_id)))"

text \<open>
  Version and help end with the code of success. The option of the configuration file is declared with a
  list of strings and asked for as one string, which boost refuses with an exception that is not one of
  its option errors.
\<close>

definition apply_options :: "options \<Rightarrow> (SimConfig, opt_stop, unit) smx" where
  "apply_options vm =
     (if o_version vm then throwS (Ret SUCCESS)
      else if o_help vm then throwS (Ret SUCCESS)
      else if o_sim_config_file vm \<noteq> None then throwS (Ret ERROR_UNHANDLED_EXCEPTION)
      else thenS (set_files vm) (thenS (set_addresses vm) (thenS (set_devices vm) (thenS (set_progress vm) (set_debug vm)))))"

definition process_options :: "options option \<Rightarrow> (SimConfig, sim_throw, int) smx" where
  "process_options parsed cfg =
     (case parsed of
        None \<Rightarrow> (Inr COMMAND_LINE_ERROR, cfg)
      | Some vm \<Rightarrow>
          (case apply_options vm cfg of
             (Inr _, cfg) \<Rightarrow> (Inr SUCCESS, cfg)
           | (Inl (Ret c), cfg) \<Rightarrow> (Inr c, cfg)
           | (Inl OptUB, cfg) \<Rightarrow> (Inl UB, cfg)))"

section \<open>The configuration file\<close>

text \<open>
  A parsed file: the main entries, a load file being required, and the units in their order with the
  values boost gets from them.
\<close>

datatype config_unit =
    Dram_range "u64 option" "u64 option"
  | Uart_pl011 "u64 option"
  | Timer "u64 option"
  | Debug "int option" "int option"
  | Other_unit

record config_tree =
  c_load_file :: "string option"
  c_num_cores :: "u32 option"
  c_max_instrs :: "u32 option"
  c_show_disasm :: "bool option"
  c_reset_address :: "u64 option"
  c_units :: "config_unit list"

definition or_default :: "'a option \<Rightarrow> 'a \<Rightarrow> 'a" where
  "or_default v d = (case v of None \<Rightarrow> d | Some x \<Rightarrow> x)"

fun config_unit_step :: "SimConfig \<Rightarrow> config_unit \<Rightarrow> SimConfig" where
  "config_unit_step cfg (Dram_range lo hi) = SetAddressRange (or_default lo 0) (or_default hi 0xffffffff) cfg"
| "config_unit_step cfg (Uart_pl011 a) = cfg_MapDevice ''UART_PL011'' (or_default a 0) cfg"
| "config_unit_step cfg (Timer a) = cfg_MapDevice ''MACHINE_TIMER'' (or_default a 0) cfg"
| "config_unit_step cfg (Debug port cid) =
     SetDebugServerParms (word_of_int (or_default port (-1))) (word_of_int (or_default cid 0)) cfg"
| "config_unit_step cfg Other_unit = cfg"

text \<open>What the file sets in the parameter, \<open>None\<close> when boost throws.\<close>

definition config_settings :: "config_tree \<Rightarrow> SimConfig \<Rightarrow> SimConfig option" where
  "config_settings t cfg =
     (case c_load_file t of
        None \<Rightarrow> None
      | Some load_file \<Rightarrow>
          let cfg = AddSrcFile load_file cfg;
              cfg = SetCoreCount (or_default (c_num_cores t) 1) cfg;
              cfg = SetMaxInstrs (sint (or_default (c_max_instrs t) 1000)) cfg;
              cfg = SetShowProgress (or_default (c_show_disasm t) True) cfg;
              cfg = SetResetAddress (or_default (c_reset_address t) 0) cfg
          in Some (foldl config_unit_step cfg (c_units t)))"

text \<open>The parameter is a copy: the configuration of the caller stays as it is.\<close>

definition process_config_file :: "config_tree option \<Rightarrow> SimConfig \<Rightarrow> int option \<times> SimConfig" where
  "process_config_file tree my_sim_cfg =
     (case tree of
        None \<Rightarrow> (None, my_sim_cfg)
      | Some t \<Rightarrow> (map_option (\<lambda>_. 0) (config_settings t my_sim_cfg), my_sim_cfg))"

section \<open>The main program\<close>

record world =
  w_lib :: elf_lib
  w_dev_order :: "(u64 \<times> string) list \<Rightarrow> (u64 \<times> string) list"
  w_csrs :: "nat \<Rightarrow> csr_reg \<Rightarrow> u64"
  w_u0 :: uninit
  w_mem :: Memory
  w_console :: console
  w_reads :: "string option list"
  w_writes :: "bool list"
  w_u :: "nat \<Rightarrow> uninit"
  w_shuffle :: "nat \<Rightarrow> nat list \<Rightarrow> nat list"
  w_tbuf :: buffer

definition new_simulator :: "world \<Rightarrow> SimConfig \<Rightarrow> RiscvSimulator" where
  "new_simulator w cfg = Init cfg (w_dev_order w) (w_csrs w) (w_u0 w) (w_mem w) (w_console w) (w_reads w) (w_writes w)"

text \<open>The exit code, the signature file and the image that were written.\<close>

record outcome =
  exit_code :: int
  signature_file :: "string option"
  dump_image :: "elf_image option"

text \<open>Only run time errors are caught.\<close>

definition stopped :: "elf_stop \<Rightarrow> string option \<Rightarrow> elf_stop + outcome" where
  "stopped e sig = (if e = Throw RuntimeError then Inr \<lparr>exit_code = -1, signature_file = sig, dump_image = None\<rparr> else Inl e)"

definition after_go :: "world \<Rightarrow> SimConfig \<Rightarrow> RiscvSimulator \<Rightarrow> elf_stop + outcome" where
  "after_go w my_sim_cfg sim =
     (case WriteTestSignature (w_tbuf w) sim of
        (Inl e, sim) \<Rightarrow> stopped (Throw e) None
      | (Inr (r, sig), sim) \<Rightarrow>
          if r = 0 \<and> dump_file my_sim_cfg \<noteq> []
          then (case DumpTest (w_lib w) (dump_file my_sim_cfg) sim of
                  (Inl e, sim) \<Rightarrow> stopped e sig
                | (Inr (r, im), sim) \<Rightarrow> Inr \<lparr>exit_code = r, signature_file = sig, dump_image = im\<rparr>)
          else Inr \<lparr>exit_code = r, signature_file = sig, dump_image = None\<rparr>)"

definition run_simulation :: "world \<Rightarrow> nat \<Rightarrow> SimConfig \<Rightarrow> (elf_stop + outcome) option" where
  "run_simulation w fuel my_sim_cfg =
     (case Go (w_lib w) (w_u w) (w_shuffle w) fuel (new_simulator w my_sim_cfg) of
        None \<Rightarrow> None
      | Some (Inl e, sim) \<Rightarrow> Some (stopped (Throw e) None)
      | Some (Inr _, sim) \<Rightarrow> Some (after_go w my_sim_cfg sim))"

definition dimebox_main :: "world \<Rightarrow> nat \<Rightarrow> options option \<Rightarrow> (elf_stop + outcome) option" where
  "dimebox_main w fuel parsed =
     (case process_options parsed SimConfig_new of
        (Inl e, cfg) \<Rightarrow> Some (Inl (Throw e))
      | (Inr c, cfg) \<Rightarrow>
          if c \<noteq> 0 then Some (Inr \<lparr>exit_code = -1, signature_file = None, dump_image = None\<rparr>)
          else run_simulation w fuel cfg)"

section \<open>What the options set\<close>

text \<open>A text for a number: hexadecimal with its prefix, two of them as a range, and decimal.\<close>

definition hex_text :: "string \<Rightarrow> u64 \<Rightarrow> bool" where
  "hex_text s a \<longleftrightarrow> (\<exists>ds. s = ''0x'' @ digit_text ds \<and> text_of True ds (unat a))"

definition range_text :: "string \<Rightarrow> u64 \<times> u64 \<Rightarrow> bool" where
  "range_text s r \<longleftrightarrow> (\<exists>t u. s = t @ ''..'' @ u \<and> hex_text t (fst r) \<and> hex_text u (snd r))"

definition dec_text :: "string \<Rightarrow> nat \<Rightarrow> bool" where
  "dec_text s n \<longleftrightarrow> (\<exists>ds. s = digit_text ds \<and> text_of False ds n) \<and> n < 2 ^ 31"

lemma scan_hex_text: "hex_text s a \<Longrightarrow> scan_0x_llx s = Scanned a"
proof -
  assume "hex_text s a"
  then obtain ds where ds: "s = ''0x'' @ digit_text ds" "text_of True ds (unat a)" by (auto simp: hex_text_def)
  have "unat a < 2 ^ 64" using unsigned_less [of a, where ?'a = nat] by simp
  then show ?thesis
    using ds scan_digits [OF ds(2), of "[]"] by (simp add: scan_0x_llx_def scan_as_def as_u64_def stops_def)
qed

lemma scan_dec_text: "dec_text s n \<Longrightarrow> scan_d s = Scanned (int n)"
  using scan_digits [of False _ n "[]"] by (auto simp: dec_text_def scan_d_def scan_as_def as_int_def stops_def)

lemma find_dots_at: "CHR ''.'' \<notin> set s \<Longrightarrow> find_dots (s @ ''..'' @ t) = Some (length s)"
proof (induction s)
  case Nil
  then show ?case by (subst find_dots.simps) simp
next
  case (Cons c s)
  then show ?case by (subst find_dots.simps) auto
qed

lemma hex_text_no_dot: "hex_text s a \<Longrightarrow> CHR ''.'' \<notin> set s"
proof
  assume "hex_text s a" "CHR ''.'' \<in> set s"
  then obtain ds d where "text_of True ds (unat a)" "d \<in> set ds" "CHR ''.'' = hex_char d"
    by (auto simp: hex_text_def digit_text_def)
  then have "hex_digit CHR ''.'' \<noteq> None" by (simp add: text_of_def list_all_iff)
  then show False by (simp add: hex_digit_def isdigit_def)
qed

lemma scan_range_text: "range_text s r \<Longrightarrow> scan_range s = returnS r"
proof -
  assume "range_text s r"
  then obtain t u where s: "s = t @ ''..'' @ u" "hex_text t (fst r)" "hex_text u (snd r)" by (auto simp: range_text_def)
  have "scan_range s = bindS (scanned_or_error (scan_0x_llx t))
      (\<lambda>lo. bindS (scanned_or_error (scan_0x_llx u)) (\<lambda>hi. returnS (lo, hi)))"
    using find_dots_at [OF hex_text_no_dot [OF s(2)], of u] by (simp add: scan_range_def s(1))
  then show ?thesis
    by (simp add: scan_hex_text [OF s(2)] scan_hex_text [OF s(3)] scanned_or_error_def fun_eq_iff)
qed

text \<open>The effect of the steps on the configuration, for options whose texts are texts of numbers.\<close>

lemma with_option_modify: "with_option v (\<lambda>x. modifyS (f x)) = modifyS (case v of None \<Rightarrow> id | Some x \<Rightarrow> f x)"
  by (auto simp: with_option_def fun_eq_iff split: option.split)

lemma with_option_hex:
  "rel_option hex_text t v \<Longrightarrow> with_option t (\<lambda>rs. bindS (scanned_or_error (scan_0x_llx rs)) (\<lambda>a. modifyS (f a)))
    = modifyS (case v of None \<Rightarrow> id | Some a \<Rightarrow> f a)"
  by (cases t; cases v) (auto simp: with_option_def fun_eq_iff scan_hex_text scanned_or_error_def)

lemma with_option_range:
  "rel_option range_text t v \<Longrightarrow> with_option t (\<lambda>rs. bindS (scan_range rs) (\<lambda>(lo, hi). modifyS (f lo hi)))
    = modifyS (case v of None \<Rightarrow> id | Some (lo, hi) \<Rightarrow> f lo hi)"
  by (cases t; cases v) (auto simp: with_option_def fun_eq_iff scan_range_text split: prod.split)

lemma then_modify: "thenS (modifyS f) (modifyS g) = modifyS (\<lambda>s. g (f s))"
  by (simp add: fun_eq_iff)

lemma if_modify: "(if b then modifyS f else returnS ()) = modifyS (if b then f else id)"
  by (simp add: fun_eq_iff)

lemma foldl_AddSrcFile: "foldl (\<lambda>cfg f. AddSrcFile f cfg) cfg fs = cfg\<lparr>load_files := load_files cfg @ fs\<rparr>"
  by (induction fs arbitrary: cfg) (simp_all add: AddSrcFile_def)

definition map_devices :: "u64 option \<Rightarrow> u64 option \<Rightarrow> (u64 \<times> string) list \<Rightarrow> (u64 \<times> string) list" where
  "map_devices ti ua ds =
     (let ds = (case ti of None \<Rightarrow> ds | Some a \<Rightarrow> AList.update a ''MACHINE_TIMER'' ds)
      in case ua of None \<Rightarrow> ds | Some a \<Rightarrow> AList.update a ''UART_PL011'' ds)"

text \<open>
  What a set of options asks for, in one record: \<open>ra\<close>, \<open>sr\<close>, \<open>dr\<close>, \<open>ti\<close>, \<open>ua\<close>, \<open>po\<close> and \<open>co\<close> are the numbers behind the
  texts for the reset address, the two ranges, the devices, the port and the core.
\<close>

definition configured ::
    "options \<Rightarrow> u64 option \<Rightarrow> (u64 \<times> u64) option \<Rightarrow> (u64 \<times> u64) option \<Rightarrow> u64 option \<Rightarrow> u64 option \<Rightarrow> nat option \<Rightarrow> nat option
      \<Rightarrow> SimConfig \<Rightarrow> SimConfig" where
  "configured vm ra sr dr ti ua po co cfg =
     \<lparr>load_files = load_files cfg @ or_default (o_sim_load_file vm) [],
      dump_file = or_default (o_sim_dump_file vm) (dump_file cfg),
      reset_address = or_default ra (reset_address cfg),
      num_cores = or_default (o_num_cores vm) (num_cores cfg),
      dram = dram cfg @ (case dr of None \<Rightarrow> [] | Some (lo, hi) \<Rightarrow> [\<lparr>range_lo = lo, range_hi = hi\<rparr>]),
      cfg_devices = map_devices ti ua (cfg_devices cfg),
      disasm_enable = (disasm_enable cfg \<or> o_show_disassembly vm \<or> o_show_updates vm),
      show_updates = (show_updates cfg \<or> o_show_updates vm),
      max_instr_count = (case o_max_instrs vm of None \<Rightarrow> max_instr_count cfg | Some n \<Rightarrow> sint n),
      gdb_port = (case po of None \<Rightarrow> -1 | Some n \<Rightarrow> of_nat n),
      gdb_core_id = (case co of None \<Rightarrow> 0 | Some n \<Rightarrow> of_nat n),
      signature_start_address = (case sr of None \<Rightarrow> signature_start_address cfg | Some (lo, hi) \<Rightarrow> lo),
      signature_end_address = (case sr of None \<Rightarrow> signature_end_address cfg | Some (lo, hi) \<Rightarrow> hi),
      isa_test = (isa_test cfg \<or> o_isa_test vm \<or> sr \<noteq> None)\<rparr>"

definition before_debug ::
    "options \<Rightarrow> u64 option \<Rightarrow> (u64 \<times> u64) option \<Rightarrow> (u64 \<times> u64) option \<Rightarrow> u64 option \<Rightarrow> u64 option \<Rightarrow> SimConfig \<Rightarrow> SimConfig" where
  "before_debug vm ra sr dr ti ua cfg =
     (configured vm ra sr dr ti ua None None cfg)\<lparr>gdb_port := gdb_port cfg, gdb_core_id := gdb_core_id cfg\<rparr>"

lemma set_options:
  assumes "rel_option hex_text (o_reset_address vm) ra" "rel_option range_text (o_signature_address_range vm) sr"
    "rel_option range_text (o_dram_range vm) dr" "rel_option hex_text (o_timer vm) ti" "rel_option hex_text (o_uart vm) ua"
  shows "thenS (set_files vm) (thenS (set_addresses vm) (thenS (set_devices vm) (thenS (set_progress vm) k))) cfg
    = k (before_debug vm ra sr dr ti ua cfg)"
proof -
  have f: "set_files vm cfg = (Inr (), cfg\<lparr>load_files := load_files cfg @ or_default (o_sim_load_file vm) [],
      dump_file := or_default (o_sim_dump_file vm) (dump_file cfg)\<rparr>)" for cfg
    by (simp add: set_files_def with_option_modify then_modify foldl_AddSrcFile or_default_def SetDumpFile_def split: option.split)
  have a: "set_addresses vm cfg = (Inr (), cfg\<lparr>num_cores := or_default (o_num_cores vm) (num_cores cfg),
      reset_address := or_default ra (reset_address cfg), isa_test := (isa_test cfg \<or> o_isa_test vm \<or> sr \<noteq> None),
      signature_start_address := (case sr of None \<Rightarrow> signature_start_address cfg | Some (lo, hi) \<Rightarrow> lo),
      signature_end_address := (case sr of None \<Rightarrow> signature_end_address cfg | Some (lo, hi) \<Rightarrow> hi),
      dram := dram cfg @ (case dr of None \<Rightarrow> [] | Some (lo, hi) \<Rightarrow> [\<lparr>range_lo = lo, range_hi = hi\<rparr>])\<rparr>)" for cfg
    unfolding set_addresses_def with_option_hex [OF assms(1)] with_option_range [OF assms(2)] with_option_range [OF assms(3)]
      with_option_modify if_modify then_modify
    by (auto simp: or_default_def SetCoreCount_def SetResetAddress_def SetISAtest_def SetSignatureAddressRange_def
        SetAddressRange_def split: option.split)
  have d: "set_devices vm cfg = (Inr (), cfg\<lparr>cfg_devices := map_devices ti ua (cfg_devices cfg)\<rparr>)" for cfg
    unfolding set_devices_def with_option_hex [OF assms(4)] with_option_hex [OF assms(5)] then_modify
    by (simp add: map_devices_def cfg_MapDevice_def Let_def split: option.split)
  have p: "set_progress vm cfg = (Inr (), cfg\<lparr>disasm_enable := (disasm_enable cfg \<or> o_show_disassembly vm \<or> o_show_updates vm),
      show_updates := (show_updates cfg \<or> o_show_updates vm),
      max_instr_count := (case o_max_instrs vm of None \<Rightarrow> max_instr_count cfg | Some n \<Rightarrow> sint n)\<rparr>)" for cfg
    unfolding set_progress_def with_option_modify if_modify then_modify
    by (auto simp: SetShowProgress_def SetShowUpdates_def SetMaxInstrs_def split: option.split)
  show ?thesis
    unfolding thenS_Inr [OF f] thenS_Inr [OF a] thenS_Inr [OF d] thenS_Inr [OF p]
    by (cases cfg) (simp add: before_debug_def configured_def cong del: option.case_cong_weak)
qed

lemma set_debug_numbers:
  assumes "rel_option dec_text (o_port vm) po" "rel_option dec_text (o_core vm) co"
    "\<And>n. co = Some n \<Longrightarrow> n < unat (num_cores cfg)"
  shows "set_debug vm cfg = (Inr (), cfg\<lparr>gdb_port := (case po of None \<Rightarrow> -1 | Some n \<Rightarrow> of_nat n),
    gdb_core_id := (case co of None \<Rightarrow> 0 | Some n \<Rightarrow> of_nat n)\<rparr>)"
proof -
  have port: "(case o_port vm of None \<Rightarrow> returnS (-1) | Some ts \<Rightarrow> scanned_or_error (scan_d ts)) =
      (returnS (case po of None \<Rightarrow> -1 | Some n \<Rightarrow> int n) :: (SimConfig, opt_stop, int) smx)"
    using assms(1) by (cases rule: option.rel_cases) (auto simp: scan_dec_text scanned_or_error_def)
  have core: "(case o_core vm of None \<Rightarrow> returnS 0 | Some ts \<Rightarrow> bindS (scanned_or_error (scan_d ts))
      (\<lambda>id. bindS (getS num_cores) (\<lambda>n. if n \<le> (word_of_int id :: u32) then throwS (Ret COMMAND_LINE_ERROR) else returnS (word_of_int id)))) cfg
      = (Inr (case co of None \<Rightarrow> 0 | Some n \<Rightarrow> of_nat n), cfg)"
    using assms(2)
  proof (cases rule: option.rel_cases)
    case (Some ts n)
    then have "n < 2 ^ 32" using assms(3) [of n] unsigned_less [of "num_cores cfg", where ?'a = nat] by simp
    then have "\<not> num_cores cfg \<le> of_nat n" using assms(3) Some by (simp add: word_le_nat_alt unat_of_nat)
    then show ?thesis using Some scan_dec_text [OF Some(3)] by (simp add: scanned_or_error_def)
  qed simp
  have "set_debug vm cfg = (Inr (), SetDebugServerParms (word_of_int (case po of None \<Rightarrow> -1 | Some n \<Rightarrow> int n))
      (case co of None \<Rightarrow> 0 | Some n \<Rightarrow> of_nat n) cfg)"
    unfolding set_debug_def port bindS_Inr [OF returnS_apply] by (subst bindS_Inr, rule core) simp
  then show ?thesis by (simp add: SetDebugServerParms_def split: option.split)
qed

lemma options_configure:
  assumes plain: "\<not> o_help vm" "\<not> o_version vm" "o_sim_config_file vm = None"
    and texts: "rel_option hex_text (o_reset_address vm) ra" "rel_option range_text (o_signature_address_range vm) sr"
      "rel_option range_text (o_dram_range vm) dr" "rel_option hex_text (o_timer vm) ti" "rel_option hex_text (o_uart vm) ua"
    and debug: "rel_option dec_text (o_port vm) po" "rel_option dec_text (o_core vm) co"
      "\<And>n. co = Some n \<Longrightarrow> n < unat (or_default (o_num_cores vm) (num_cores cfg))"
  shows "process_options (Some vm) cfg = (Inr 0, configured vm ra sr dr ti ua po co cfg)"
proof -
  have "apply_options vm cfg = set_debug vm (before_debug vm ra sr dr ti ua cfg)"
    using plain by (simp add: apply_options_def set_options [OF texts])
  also have "\<dots> = (Inr (), configured vm ra sr dr ti ua po co cfg)"
    using set_debug_numbers [OF debug(1,2), of "before_debug vm ra sr dr ti ua cfg"] debug(3)
    by (simp add: before_debug_def configured_def)
  finally show ?thesis by (simp add: process_options_def SUCCESS_def)
qed

text \<open>
  C38. The options: when neither help, version nor a configuration file is asked for, the texts of addresses and
  ranges are hexadecimal with their prefix, those of port and core are decimal, and the core exists,
  the options are accepted and give exactly the configuration they ask for, every other setting unchanged.
\<close>

theorem options_applied:
  assumes plain: "\<not> o_help vm" "\<not> o_version vm" "o_sim_config_file vm = None"
    and texts: "rel_option hex_text (o_reset_address vm) ra" "rel_option range_text (o_signature_address_range vm) sr"
      "rel_option range_text (o_dram_range vm) dr" "rel_option hex_text (o_timer vm) ti" "rel_option hex_text (o_uart vm) ua"
    and debug: "rel_option dec_text (o_port vm) po" "rel_option dec_text (o_core vm) co"
      "\<And>n. co = Some n \<Longrightarrow> n < unat (or_default (o_num_cores vm) (num_cores cfg))"
  shows "process_options (Some vm) cfg = (Inr 0, configured vm ra sr dr ti ua po co cfg)"
  by (rule options_configure [OF assms])

definition demo_options :: options where
  "demo_options = \<lparr>o_help = False, o_version = False, o_sim_config_file = None, o_sim_load_file = Some [''test.elf''],
     o_sim_dump_file = None, o_num_cores = Some 2, o_max_instrs = None, o_show_disassembly = False, o_show_updates = True,
     o_reset_address = Some ''0x1000'', o_isa_test = False, o_signature_address_range = Some ''0x20..0x40'', o_dram_range = None,
     o_timer = Some ''0x8'', o_uart = None, o_port = Some ''99'', o_core = Some ''1''\<rparr>"

lemma demo_texts:
  "hex_text ''0x1000'' 0x1000" "hex_text ''0x20'' 0x20" "hex_text ''0x40'' 0x40" "hex_text ''0x8'' 8" "dec_text ''99'' 99" "dec_text ''1'' 1"
proof -
  have "hex_text (''0x'' @ digit_text ds) (of_nat (digits_value 16 ds))"
    if "ds \<noteq> []" "list_all (\<lambda>d. d < 16) ds" "digits_value 16 ds < 2 ^ 64" for ds
    using that by (auto simp: hex_text_def text_of_def unat_of_nat)
  note h = this
  show "hex_text ''0x1000'' 0x1000" "hex_text ''0x20'' 0x20" "hex_text ''0x40'' 0x40" "hex_text ''0x8'' 8"
    using h [of "[1, 0, 0, 0]"] h [of "[2, 0]"] h [of "[4, 0]"] h [of "[8]"] by (simp_all add: digits_value_def digit_text_def hex_char_def)
  have "dec_text (digit_text ds) (digits_value 10 ds)"
    if "ds \<noteq> []" "list_all (\<lambda>d. d < 10) ds" "digits_value 10 ds < 2 ^ 31" for ds
    using that by (auto simp: dec_text_def text_of_def)
  from this [of "[9, 9]"] this [of "[1]"] show "dec_text ''99'' 99" "dec_text ''1'' 1" by (simp_all add: digits_value_def digit_text_def hex_char_def)
qed

lemma range_textI: "hex_text t a \<Longrightarrow> hex_text u b \<Longrightarrow> range_text (t @ ''..'' @ u) (a, b)"
  by (auto simp: range_text_def)

theorem options_applied_witness:
  "process_options (Some demo_options) SimConfig_new =
     (Inr 0, configured demo_options (Some 0x1000) (Some (0x20, 0x40)) None (Some 8) None (Some 99) (Some 1) SimConfig_new)"
  using options_applied [of demo_options "Some 0x1000" "Some (0x20, 0x40)" None "Some 8" None "Some 99" "Some 1" SimConfig_new]
    demo_texts range_textI [OF demo_texts(2,3)]
  by (simp add: demo_options_def or_default_def)

section \<open>What the program returns\<close>

text \<open>
  The code of the simulation is not the code of the program: without a signature and a dump file the program
  returns 0 however the simulation ended.
\<close>

lemma go_code_lost:
  assumes "process_options parsed SimConfig_new = (Inr 0, cfg)"
    "Go (w_lib w) (w_u w) (w_shuffle w) fuel (new_simulator w cfg) = Some (Inr r, sim)"
    "signature_start_address (sim_cfg sim) = 0" "dump_file cfg = []"
  shows "dimebox_main w fuel parsed = Some (Inr \<lparr>exit_code = 0, signature_file = None, dump_image = None\<rparr>)"
  using assms by (simp add: dimebox_main_def run_simulation_def after_go_def WriteTestSignature_def Let_def)

text \<open>Help and version do not end the program: a simulation of the default configuration follows.\<close>

lemma help_simulates: "o_help vm \<or> o_version vm \<Longrightarrow> dimebox_main w fuel (Some vm) = run_simulation w fuel SimConfig_new"
  by (auto simp: dimebox_main_def process_options_def apply_options_def SUCCESS_def)

text \<open>A configuration file is always refused; and if it were read, its settings would be lost.\<close>

lemma config_file_refused:
  "\<not> o_help vm \<Longrightarrow> \<not> o_version vm \<Longrightarrow> o_sim_config_file vm \<noteq> None \<Longrightarrow>
    dimebox_main w fuel (Some vm) = Some (Inr \<lparr>exit_code = -1, signature_file = None, dump_image = None\<rparr>)"
  by (simp add: dimebox_main_def process_options_def apply_options_def ERROR_UNHANDLED_EXCEPTION_def)

lemma config_file_settings_lost: "snd (process_config_file tree cfg) = cfg"
  by (simp add: process_config_file_def split: option.split)

text \<open>From the command line to the end: the options of a file and a reset address, and a program that ends itself.\<close>

lemma main_runs_program:
  assumes options: "process_options parsed SimConfig_new = (Inr 0, cfg)"
    and start: "starts (w_lib w) name (new_simulator w cfg) (AsmJAL r 0)"
    and aligned: "(ucast (PC (cores (new_simulator w cfg) ! 0)) :: u32) AND 3 = 0"
    and devices: "\<not> IsImplemented (mtimer (plat (new_simulator w cfg)))" "\<not> IsImplemented (uart1 (plat (new_simulator w cfg)))"
    and outside: "sane_uninit (w_u w)" "permutes_cores (w_shuffle w)" "\<And>i. wf_mstatus (w_csrs w i MSTATUS AND 0x807fffff)"
    and files: "signature_start_address cfg = 0" "dump_file cfg = []" and fuel: "1 \<le> fuel"
  shows "dimebox_main w fuel parsed = Some (Inr \<lparr>exit_code = 0, signature_file = None, dump_image = None\<rparr>)"
proof -
  obtain sim where go: "Go (w_lib w) (w_u w) (w_shuffle w) fuel (new_simulator w cfg) = Some (Inr 0, sim)"
    using go_file_jump_to_self [OF start aligned devices outside(1,2)] fuel by blast
  have "sim_cfg sim = cfg"
    using go_frame [OF outside(3,1,2) go [unfolded new_simulator_def]] by blast
  then show ?thesis using go_code_lost [OF options go] files by simp
qed

end
