(* ===== verification/Registers.thy ===== *)
theory Registers
  imports Core_State
begin

text \<open>
  The register classes of \<open>include/registers.h\<close>. A value that no constructor has initialised is \<open>None\<close>,
  and reading it is undefined (\<open>UB\<close>). The contract of a register that holds one value is the locale
  \<open>value_register\<close>; the four classes the core is built from are its instances. The floating point
  register keeps bit patterns: a \<open>float\<close> is a word of 32 bits, a \<open>double\<close> a word of 64 bits, and the union
  \<open>flpack\<close> reads one as the other in the byte order of the host (\<open>big\<close> for big endian). The last section
  shows that the list of words which \<open>Core_State\<close> uses for the general purpose registers is a correct
  abstraction of the array of register objects.
\<close>

unbundle bit_operations_syntax

section \<open>The base class\<close>

record REGISTER_BASE =
  is_set :: bool
  is_reserved :: bool

definition REGISTER_BASE_new :: REGISTER_BASE where
  "REGISTER_BASE_new = \<lparr>is_set = False, is_reserved = False\<rparr>"

definition IsSet :: "'a REGISTER_BASE_scheme \<Rightarrow> bool" where "IsSet r = is_set r"
definition reg_Set :: "'a REGISTER_BASE_scheme \<Rightarrow> 'a REGISTER_BASE_scheme" where "reg_Set r = r\<lparr>is_set := True\<rparr>"
definition IsReserved :: "'a REGISTER_BASE_scheme \<Rightarrow> bool" where "IsReserved r = is_reserved r"

definition SetReserved :: "bool \<Rightarrow> 'a REGISTER_BASE_scheme \<Rightarrow> 'a REGISTER_BASE_scheme" where
  "SetReserved do_reserve r = r\<lparr>is_reserved := do_reserve\<rparr>"

text \<open>Reading a member that may be uninitialised.\<close>

definition determinate :: "'v option \<Rightarrow> sim_throw + 'v" where
  "determinate v = (case v of None \<Rightarrow> Inl UB | Some x \<Rightarrow> Inr x)"

section \<open>Class GPRegister\<close>

record GPRegister = REGISTER_BASE + gp_rval :: "u64 option"

definition GPRegister_new :: GPRegister where
  "GPRegister_new = REGISTER_BASE.extend REGISTER_BASE_new \<lparr>gp_rval = None\<rparr>"

definition GPRegister_Value :: "GPRegister \<Rightarrow> sim_throw + u64" where
  "GPRegister_Value r = determinate (gp_rval r)"

definition GPRegister_SetValue :: "u64 \<Rightarrow> GPRegister \<Rightarrow> u64 \<times> GPRegister" where
  "GPRegister_SetValue nval r = (nval, reg_Set (r\<lparr>gp_rval := Some nval\<rparr>))"

section \<open>Class Register\<close>

record Register = REGISTER_BASE + rval_hi :: "u64 option" rval :: "u64 option"

definition Register_new :: Register where
  "Register_new = REGISTER_BASE.extend REGISTER_BASE_new \<lparr>rval_hi = None, rval = None\<rparr>"

definition Register_new1 :: "u64 \<Rightarrow> Register" where
  "Register_new1 nval = Register_new\<lparr>rval := Some nval\<rparr>"

definition Register_new2 :: "u64 \<Rightarrow> u64 \<Rightarrow> Register" where
  "Register_new2 nval_hi nval_lo = Register_new\<lparr>rval_hi := Some nval_hi, rval := Some nval_lo\<rparr>"

definition Register_Value :: "'a Register_scheme \<Rightarrow> sim_throw + u64" where
  "Register_Value r = determinate (rval r)"

definition Register_ValueHi :: "'a Register_scheme \<Rightarrow> sim_throw + u64" where
  "Register_ValueHi r = determinate (rval_hi r)"

definition Register_SetValue :: "u64 \<Rightarrow> 'a Register_scheme \<Rightarrow> u64 \<times> 'a Register_scheme" where
  "Register_SetValue nval r = (nval, reg_Set (r\<lparr>rval := Some nval\<rparr>))"

definition Register_SetValueHi :: "u64 \<Rightarrow> 'a Register_scheme \<Rightarrow> u64 \<times> 'a Register_scheme" where
  "Register_SetValueHi nval_hi r = (nval_hi, reg_Set (r\<lparr>rval_hi := Some nval_hi\<rparr>))"

section \<open>Class FloatRegister\<close>

datatype float_type = FL_UNKNOWN | FL_BYTE | FL_HALFWORD | FL_SINGLE | FL_DOUBLE | FL_QUAD

record FloatRegister = Register + ftype :: float_type

definition FloatRegister_new :: FloatRegister where
  "FloatRegister_new = Register.extend Register_new \<lparr>ftype = FL_UNKNOWN\<rparr>"

definition SetType :: "float_type \<Rightarrow> FloatRegister \<Rightarrow> float_type \<times> FloatRegister" where
  "SetType t r = (t, r\<lparr>ftype := t\<rparr>)"

text \<open>The union: \<open>fl_foo[0]\<close> occupies the first four of the eight bytes.\<close>

definition flpack_single :: "bool \<Rightarrow> u64 \<Rightarrow> u32" where
  "flpack_single big ull_foo = ucast (if big then drop_bit 32 ull_foo else ull_foo)"

definition flpack_of_single :: "bool \<Rightarrow> u32 \<Rightarrow> u64" where
  "flpack_of_single big fval = (if big then push_bit 32 (ucast fval) else ucast fval)"

definition Single :: "bool \<Rightarrow> FloatRegister \<Rightarrow> sim_throw + u32" where
  "Single big r = map_sum id (flpack_single big) (Register_Value r)"

definition Double :: "FloatRegister \<Rightarrow> sim_throw + u64" where "Double r = Register_Value r"
definition DoubleHi :: "FloatRegister \<Rightarrow> sim_throw + u64" where "DoubleHi r = Register_ValueHi r"

definition SetSingle :: "bool \<Rightarrow> u32 \<Rightarrow> FloatRegister \<Rightarrow> (sim_throw + u32) \<times> FloatRegister" where
  "SetSingle big fval r =
     (let r' = r\<lparr>rval := Some (flpack_of_single big fval), rval_hi := Some 0, ftype := FL_SINGLE\<rparr> in (Single big r', r'))"

definition SetUnsigned :: "u32 \<Rightarrow> FloatRegister \<Rightarrow> u32 \<times> FloatRegister" where
  "SetUnsigned fval r = (fval, r\<lparr>rval := Some (ucast fval), rval_hi := Some 0\<rparr>)"

definition SetHalf :: "u64 \<Rightarrow> FloatRegister \<Rightarrow> u32 \<times> FloatRegister" where
  "SetHalf hval r = (ucast hval, r\<lparr>rval := Some hval, rval_hi := Some 0\<rparr>)"

definition SetDouble :: "u64 \<Rightarrow> FloatRegister \<Rightarrow> (sim_throw + u64) \<times> FloatRegister" where
  "SetDouble fval r =
     (let r' = r\<lparr>rval := Some fval, rval_hi := Some 0, ftype := FL_DOUBLE\<rparr> in (Double r', r'))"

definition SetUnsignedLong :: "u64 \<Rightarrow> FloatRegister \<Rightarrow> u64 \<times> FloatRegister" where
  "SetUnsignedLong fval r = (fval, r\<lparr>rval := Some fval, rval_hi := Some 0\<rparr>)"

section \<open>Classes ProgramCounter, AddressRegister and ControlRegister\<close>

record ProgramCounter = REGISTER_BASE + pc_rval :: "u64 option"

definition ProgramCounter_new :: ProgramCounter where
  "ProgramCounter_new = REGISTER_BASE.extend REGISTER_BASE_new \<lparr>pc_rval = None\<rparr>"

definition pc_validate :: "ProgramCounter \<Rightarrow> sim_throw + unit" where
  "pc_validate r = (if \<not> IsSet r then Inl (SimExc INTERNAL_ERROR) else Inr ())"

definition ProgramCounter_Value :: "ProgramCounter \<Rightarrow> sim_throw + u64" where
  "ProgramCounter_Value r = (case pc_validate r of Inl e \<Rightarrow> Inl e | Inr _ \<Rightarrow> determinate (pc_rval r))"

definition ProgramCounter_SetValue :: "u64 \<Rightarrow> ProgramCounter \<Rightarrow> u64 \<times> ProgramCounter" where
  "ProgramCounter_SetValue nval r = (nval, reg_Set (r\<lparr>pc_rval := Some nval\<rparr>))"

definition ProgramCounter_assign :: "u64 \<Rightarrow> ProgramCounter \<Rightarrow> ProgramCounter" where
  "ProgramCounter_assign rhs r = reg_Set (snd (ProgramCounter_SetValue rhs r))"

record AddressRegister = REGISTER_BASE + ar_rval :: "u64 option"

definition AddressRegister_new :: AddressRegister where
  "AddressRegister_new = REGISTER_BASE.extend REGISTER_BASE_new \<lparr>ar_rval = None\<rparr>"

definition AddressRegister_Value :: "AddressRegister \<Rightarrow> sim_throw + u64" where
  "AddressRegister_Value r = determinate (ar_rval r)"

definition AddressRegister_SetValue :: "u64 \<Rightarrow> AddressRegister \<Rightarrow> u64 \<times> AddressRegister" where
  "AddressRegister_SetValue nval r = (nval, reg_Set (r\<lparr>ar_rval := Some nval\<rparr>))"

definition AddressRegister_assign :: "u64 \<Rightarrow> AddressRegister \<Rightarrow> AddressRegister" where
  "AddressRegister_assign rhs r = reg_Set (snd (AddressRegister_SetValue rhs r))"

record ControlRegister = REGISTER_BASE + cr_rval :: "u64 option"

definition ControlRegister_new :: ControlRegister where
  "ControlRegister_new = REGISTER_BASE.extend REGISTER_BASE_new \<lparr>cr_rval = None\<rparr>"

definition ControlRegister_Value :: "ControlRegister \<Rightarrow> sim_throw + u64" where
  "ControlRegister_Value r = determinate (cr_rval r)"

definition ControlRegister_SetValue :: "u64 \<Rightarrow> ControlRegister \<Rightarrow> u64 \<times> ControlRegister" where
  "ControlRegister_SetValue nval r = (nval, reg_Set (r\<lparr>cr_rval := Some nval\<rparr>))"

definition ControlRegister_assign :: "u64 \<Rightarrow> ControlRegister \<Rightarrow> ControlRegister" where
  "ControlRegister_assign rhs r = reg_Set (snd (ControlRegister_SetValue rhs r))"

section \<open>The contract\<close>

locale value_register =
  fixes val :: "'r \<Rightarrow> sim_throw + u64"
    and setval :: "u64 \<Rightarrow> 'r \<Rightarrow> u64 \<times> 'r"
    and isset :: "'r \<Rightarrow> bool"
    and reserved :: "'r \<Rightarrow> bool"
  assumes returns: "fst (setval v r) = v"
    and reads_back: "val (snd (setval v r)) = Inr v"
    and marks: "isset (snd (setval v r))"
    and keeps_reserved: "reserved (snd (setval v r)) = reserved r"
    and overwrites: "snd (setval v (snd (setval w r))) = snd (setval v r)"
begin

lemma last_write: "vs \<noteq> [] \<Longrightarrow> fold (\<lambda>v r. snd (setval v r)) vs r = snd (setval (last vs) r)"
  by (induction vs arbitrary: r rule: list_nonempty_induct) (simp_all add: overwrites)

lemma history:
  assumes "vs \<noteq> []"
  shows "val (fold (\<lambda>v r. snd (setval v r)) vs r) = Inr (last vs)"
    and "isset (fold (\<lambda>v r. snd (setval v r)) vs r)"
    and "reserved (fold (\<lambda>v r. snd (setval v r)) vs r) = reserved r"
  by (simp_all add: last_write [OF assms] reads_back marks keeps_reserved)

end

lemmas register_defs = determinate_def reg_Set_def IsSet_def IsReserved_def REGISTER_BASE_new_def

interpretation gpr: value_register GPRegister_Value GPRegister_SetValue IsSet IsReserved
  by unfold_locales (simp_all add: GPRegister_Value_def GPRegister_SetValue_def register_defs)

interpretation fpr: value_register Register_Value Register_SetValue IsSet IsReserved
  by unfold_locales (simp_all add: Register_Value_def Register_SetValue_def register_defs)

interpretation fpr_hi: value_register Register_ValueHi Register_SetValueHi IsSet IsReserved
  by unfold_locales (simp_all add: Register_ValueHi_def Register_SetValueHi_def register_defs)

interpretation pcr: value_register ProgramCounter_Value ProgramCounter_SetValue IsSet IsReserved
  by unfold_locales (simp_all add: ProgramCounter_Value_def ProgramCounter_SetValue_def pc_validate_def register_defs)

interpretation adr: value_register AddressRegister_Value AddressRegister_SetValue IsSet IsReserved
  by unfold_locales (simp_all add: AddressRegister_Value_def AddressRegister_SetValue_def register_defs)

interpretation ctr: value_register ControlRegister_Value ControlRegister_SetValue IsSet IsReserved
  by unfold_locales (simp_all add: ControlRegister_Value_def ControlRegister_SetValue_def register_defs)

section \<open>Registers before and after their first write\<close>

text \<open>Only the program counter notices that it was never written; the others read an indeterminate value.\<close>

lemma never_written:
  "ProgramCounter_Value ProgramCounter_new = Inl (SimExc INTERNAL_ERROR)"
  "GPRegister_Value GPRegister_new = Inl UB" "AddressRegister_Value AddressRegister_new = Inl UB"
  "ControlRegister_Value ControlRegister_new = Inl UB" "Register_Value Register_new = Inl UB"
  by (simp_all add: ProgramCounter_Value_def pc_validate_def ProgramCounter_new_def GPRegister_Value_def GPRegister_new_def
      AddressRegister_Value_def AddressRegister_new_def ControlRegister_Value_def ControlRegister_new_def Register_Value_def
      Register_new_def register_defs REGISTER_BASE.extend_def)

lemma assign_is_set:
  "ProgramCounter_assign v r = snd (ProgramCounter_SetValue v r)"
  "AddressRegister_assign v a = snd (AddressRegister_SetValue v a)"
  "ControlRegister_assign v c = snd (ControlRegister_SetValue v c)"
  by (simp_all add: ProgramCounter_assign_def ProgramCounter_SetValue_def AddressRegister_assign_def
      AddressRegister_SetValue_def ControlRegister_assign_def ControlRegister_SetValue_def reg_Set_def)

text \<open>
  Values written through one view of a floating point register are read back through the same view.
  On a little endian host a single is the low half of the register, as the comment says; on a big endian
  host it is the high half.
\<close>

lemma flpack_roundtrip: "flpack_single big (flpack_of_single big f) = f"
  by (rule bit_word_eqI)
    (auto simp: flpack_single_def flpack_of_single_def bit_ucast_iff bit_drop_bit_eq bit_push_bit_iff)

lemma float_views:
  "SetSingle big f r = (Inr f, r\<lparr>rval := Some (if big then push_bit 32 (ucast f) else ucast f), rval_hi := Some 0, ftype := FL_SINGLE\<rparr>)"
  "SetDouble d r = (Inr d, r\<lparr>rval := Some d, rval_hi := Some 0, ftype := FL_DOUBLE\<rparr>)"
  "Register_Value (snd (SetUnsigned f r)) = Inr (ucast f)"
  "Register_Value (snd (SetUnsignedLong d r)) = Inr d"
  "Register_Value (snd (SetHalf h r)) = Inr h"
  by (simp_all add: SetSingle_def Single_def Register_Value_def determinate_def flpack_roundtrip Let_def SetDouble_def Double_def
      SetUnsigned_def SetUnsignedLong_def SetHalf_def flpack_of_single_def [symmetric])

text \<open>Writing a floating point value does not mark the register as set, unlike \<open>Value\<close>.\<close>

lemma float_writes_unmarked: "IsSet (snd (SetSingle big f r)) = IsSet r" "IsSet (snd (SetDouble d r)) = IsSet r"
  by (simp_all add: SetSingle_def SetDouble_def IsSet_def Let_def)


section \<open>The register file\<close>

text \<open>The array as the constructor of the core leaves it, and the accesses \<open>GP\<close> and \<open>SetGP\<close> on it.\<close>

definition init_regs :: "GPRegister list" where
  "init_regs = replicate 32 (snd (GPRegister_SetValue 0 GPRegister_new))"

definition array_GP :: "u32 \<Rightarrow> GPRegister list \<Rightarrow> sim_throw + u64" where
  "array_GP rindex rs = (if rindex = 0 then Inr 0 else GPRegister_Value (rs ! unat rindex))"

definition array_SetGP :: "u32 \<Rightarrow> u64 \<Rightarrow> GPRegister list \<Rightarrow> GPRegister list" where
  "array_SetGP rindex nval rs =
     (if 0 < rindex then rs[unat rindex := snd (GPRegister_SetValue nval (rs ! unat rindex))] else rs)"

definition regs_rel :: "GPRegister list \<Rightarrow> RiscvState \<Rightarrow> bool" where
  "regs_rel rs s \<longleftrightarrow> list_all2 (\<lambda>r v. IsSet r \<and> GPRegister_Value r = Inr v) rs (X s) \<and> length rs = 32"

lemma regs_rel_init: "regs_rel init_regs (RiscvState_new a c)"
proof -
  have "X (RiscvState_new a c) = replicate 32 0"
    by (simp add: RiscvState_new_def SetMISA_def Let_def put_csr_def State.extend_def State_new_def)
  then show ?thesis by (simp add: regs_rel_def init_regs_def list_all2_conv_all_nth gpr.reads_back gpr.marks)
qed

lemma regs_rel_GP: "regs_rel rs s \<Longrightarrow> r < 32 \<Longrightarrow> array_GP r rs = Inr (GP r s)"
  by (auto simp: regs_rel_def array_GP_def GP_def list_all2_conv_all_nth word_less_nat_alt)

lemma regs_rel_SetGP: "regs_rel rs s \<Longrightarrow> r < 32 \<Longrightarrow> regs_rel (array_SetGP r v rs) (SetGP r v s)"
  by (auto simp: regs_rel_def array_SetGP_def SetGP_def list_all2_conv_all_nth nth_list_update word_less_nat_alt
      gpr.reads_back gpr.marks)

lemma regs_rel_writes:
  "regs_rel rs s \<Longrightarrow> list_all (\<lambda>(r, v). r < 32) ws \<Longrightarrow>
   regs_rel (fold (\<lambda>(r, v). array_SetGP r v) ws rs) (fold (\<lambda>(r, v). SetGP r v) ws s)"
  by (induction ws arbitrary: rs s) (auto intro!: regs_rel_SetGP)

text \<open>
  The general purpose registers of a new core behave as a list of words: after any sequence of
  writes to register objects, starting with those the constructor sets up, a read of a register is
  defined and returns what the abstract register file holds. No read ever sees an uninitialised
  register.
\<close>

theorem register_file_refines:
  assumes "list_all (\<lambda>(r, v). r < 32) ws" "r < 32"
  shows "array_GP r (fold (\<lambda>(r, v). array_SetGP r v) ws init_regs) =
    Inr (GP r (fold (\<lambda>(r, v). SetGP r v) ws (RiscvState_new a c)))"
  by (rule regs_rel_GP [OF regs_rel_writes [OF regs_rel_init assms(1)] assms(2)])

theorem register_file_refines_witness:
  "array_GP 5 (fold (\<lambda>(r, v). array_SetGP r v) [(5, 7), (0, 9)] init_regs) =
    Inr (GP 5 (fold (\<lambda>(r, v). SetGP r v) [(5, 7), (0, 9)] (RiscvState_new 0 (\<lambda>_. 0))))"
  by (rule register_file_refines) simp_all

end
