(* ===== verification/Disasm.thy ===== *)
theory Disasm
  imports Instr Format "HOL-Library.Monad_Syntax"
begin

text \<open>
  The printer of instructions: \<open>Disassembly\<close> of the encoding types and \<open>Display\<close> in
  \<open>include/riscv_instruction.h\<close>, the register names of \<open>include/riscv_core_state.h\<close>, \<open>CSR_NAME\<close> of
  \<open>src/riscv_core_state.C\<close>, and what the generator \<open>utils/make_rv32i_iclasses.pl\<close> puts into each
  instruction class: its name, the flags the printer looks at and the immediate that \<open>Decode\<close> extends.
  \<open>None\<close> is undefined behaviour: a field that \<open>Decode\<close> does not set, a name outside of its table, or a
  text that does not fit the buffer it is formatted in.
\<close>

unbundle bit_operations_syntax

section \<open>Names\<close>

definition reg_aliases :: "string list" where
  "reg_aliases =
     [''x0'', ''ra'', ''sp'', ''gp'', ''tp'', ''t0'', ''t1'', ''t2'', ''s0'', ''s1'',
      ''a0'', ''a1'', ''a2'', ''a3'', ''a4'', ''a5'', ''a6'', ''a7'',
      ''s2'', ''s3'', ''s4'', ''s5'', ''s6'', ''s7'', ''s8'', ''s9'', ''s10'', ''s11'',
      ''t3'', ''t4'', ''t5'', ''t6'']"

text \<open>The entry after the last one is the null pointer, which cannot be printed.\<close>

definition RegAlias :: "u32 \<Rightarrow> bool \<Rightarrow> string option" where
  "RegAlias reg_index frame_ptr =
     (if reg_index = 8 \<and> frame_ptr then Some ''fp''
      else if unat reg_index < length reg_aliases then Some (reg_aliases ! unat reg_index) else None)"

definition reg_aliases_float :: "string list" where
  "reg_aliases_float =
     [''ft0'', ''ft1'', ''ft2'', ''ft3'', ''ft4'', ''ft5'', ''ft6'', ''ft7'',
      ''fs0'', ''fs1'',
      ''fa0'', ''fa1'', ''fa2'', ''fa3'', ''fa4'', ''fa5'', ''fa6'', ''fa7'',
      ''fs2'', ''fs3'', ''fs4'', ''fs5'', ''fs6'', ''fs7'', ''fs8'', ''fs9'', ''fs10'', ''fs11'',
      ''ft8'', ''ft3'', ''ft4'', ''ft5'', ''ft6'', ''ft7'', ''ft8'', ''ft9'', ''ft10'', ''ft11'']"

definition RegAliasFloat :: "u32 \<Rightarrow> string option" where
  "RegAliasFloat reg_index =
     (if unat reg_index < length reg_aliases_float then Some (reg_aliases_float ! unat reg_index) else None)"

definition csr_names :: "(u32 \<times> string) list" where
  "csr_names =
     [(0x000, ''ustatus''), (0x001, ''fflags''), (0x002, ''frm''), (0x003, ''fcsr''), (0x180, ''satp''),
      (0x300, ''mstatus''), (0x301, ''misa''), (0x302, ''medeleg''), (0x303, ''mideleg''), (0x304, ''mie''),
      (0x305, ''mtvec''), (0x306, ''mcounteren''), (0x310, ''mstatush''), (0x340, ''mscratch''), (0x341, ''mepc''),
      (0x342, ''mcause''), (0x343, ''mtval''), (0x344, ''mip''), (0x34A, ''mtinst''), (0x3a0, ''pmpcfg0''),
      (0x3b0, ''pmpaddr0''), (0xb00, ''mycycle''), (0xb02, ''mtinstret''), (0xb80, ''mycycleh''), (0xb82, ''mtinstreth''),
      (0xc00, ''rdcycle''), (0xc01, ''rdtime''), (0xc02, ''rdinstret''), (0xc80, ''rdcycleh''), (0xc81, ''rdtimeh''),
      (0xc82, ''rdinstreth''), (0xf14, ''mhartid'')]"

text \<open>A buffer of \<open>n\<close> characters holds a text and its terminator.\<close>

definition sprintf :: "nat \<Rightarrow> string \<Rightarrow> string option" where
  "sprintf n t = (if length t < n then Some t else None)"

definition CSR_NAME :: "u32 \<Rightarrow> string option" where
  "CSR_NAME csr =
     (case map_of csr_names csr of Some rname \<Rightarrow> Some rname | None \<Rightarrow> sprintf 16 (''<0x'' @ fmt_x 3 csr @ ''>''))"

section \<open>What the generator gives each class\<close>

fun R_name :: "R_class \<Rightarrow> string" where
  "R_name ADD = ''add''" | "R_name SLT = ''slt''" | "R_name SLTU = ''sltu''" | "R_name ANDr = ''and''"
| "R_name ORr = ''or''" | "R_name XORr = ''xor''" | "R_name SLL = ''sll''" | "R_name SRL = ''srl''"
| "R_name SUB = ''sub''" | "R_name SRA = ''sra''" | "R_name MUL = ''mul''" | "R_name MULH = ''mulh''"
| "R_name MULHSU = ''mulhsu''" | "R_name MULHU = ''mulhu''" | "R_name DIV = ''div''" | "R_name DIVU = ''divu''"
| "R_name REM = ''rem''" | "R_name REMU = ''remu''"

fun I_name :: "I_class \<Rightarrow> string" where
  "I_name ADDI = ''addi''" | "I_name SLTI = ''slti''" | "I_name XORI = ''xori''" | "I_name ORI = ''ori''"
| "I_name ANDI = ''andi''" | "I_name SLTIU = ''sltiu''" | "I_name SLLI = ''slli''" | "I_name SRLI = ''srli''"
| "I_name SRAI = ''srai''" | "I_name JALR = ''jalr''" | "I_name LB = ''lb''" | "I_name LH = ''lh''" | "I_name LW = ''lw''"
| "I_name LBU = ''lbu''" | "I_name LHU = ''lhu''" | "I_name CSRRW = ''csrrw''" | "I_name CSRRC = ''csrrc''"
| "I_name CSRRS = ''csrrs''" | "I_name CSRRWI = ''csrrwi''" | "I_name CSRRSI = ''csrrsi''" | "I_name CSRRCI = ''csrrci''"
| "I_name URET = ''uret''" | "I_name SRET = ''sret''" | "I_name HRET = ''hret''" | "I_name MRET = ''mret''"
| "I_name WFI = ''wfi''" | "I_name SFENCE = ''sfence''"

fun S_name :: "S_class \<Rightarrow> string" where
  "S_name SB = ''sb''" | "S_name SH = ''sh''" | "S_name SW = ''sw''"

fun B_name :: "B_class \<Rightarrow> string" where
  "B_name BEQ = ''beq''" | "B_name BNE = ''bne''" | "B_name BLT = ''blt''" | "B_name BGE = ''bge''"
| "B_name BLTU = ''bltu''" | "B_name BGEU = ''bgeu''"

fun U_name :: "U_class \<Rightarrow> string" where
  "U_name LUI = ''lui''" | "U_name FENCE = ''fence''" | "U_name FENCE_I = ''fence.i''" | "U_name ECALL = ''ecall''"
| "U_name EBREAK = ''ebreak''" | "U_name AUIPC = ''auipc''"

fun CR_name :: "CR_class \<Rightarrow> string" where
  "CR_name C_MV = ''c.mv''" | "CR_name C_ADD = ''c.add''" | "CR_name C_EBREAK = ''c.ebreak''" | "CR_name C_JR = ''c.jr''"
| "CR_name C_JALR = ''c.jalr''"

fun CI_name :: "CI_class \<Rightarrow> string" where
  "CI_name C_LWSP = ''c.lwsp''" | "CI_name C_LI = ''c.li''" | "CI_name C_LUI = ''c.lui''" | "CI_name C_ADDI = ''c.addi''"
| "CI_name C_ADDI16SP = ''c.addi16sp''" | "CI_name C_SLLI = ''c.slli''" | "CI_name C_NOP = ''c.nop''"

fun CS_name :: "CS_class \<Rightarrow> string" where
  "CS_name C_SW = ''c.sw''" | "CS_name C_AND = ''c.and''" | "CS_name C_OR = ''c.or''" | "CS_name C_XOR = ''c.xor''"
| "CS_name C_SUB = ''c.sub''"

fun CB_name :: "CB_class \<Rightarrow> string" where
  "CB_name C_BEQZ = ''c.beqz''" | "CB_name C_BNEZ = ''c.bnez''" | "CB_name C_SRLI = ''c.srli''" | "CB_name C_SRAI = ''c.srai''"
| "CB_name C_ANDI = ''c.andi''"

fun CJ_name :: "CJ_class \<Rightarrow> string" where
  "CJ_name C_J = ''c.j''" | "CJ_name C_JAL = ''c.jal''"

fun InstrName :: "instr_class \<Rightarrow> string" where
  "InstrName (Rtype c) = R_name c" | "InstrName (Itype c) = I_name c" | "InstrName (Stype c) = S_name c"
| "InstrName (Btype c) = B_name c" | "InstrName (Utype c) = U_name c" | "InstrName (Jtype JAL) = ''jal''"
| "InstrName (CRtype c) = CR_name c" | "InstrName (CItype c) = CI_name c" | "InstrName (CSStype C_SWSP) = ''c.swsp''"
| "InstrName (CIWtype C_ADDI4SPN) = ''c.addi4spn''" | "InstrName (CLtype C_LW) = ''c.lw''"
| "InstrName (CStype c) = CS_name c" | "InstrName (CBtype c) = CB_name c" | "InstrName (CJtype c) = CJ_name c"
| "InstrName UnknownInstruction = ''?''"

text \<open>The flags that the constructors set, false for every other class.\<close>

fun load_store :: "instr_class \<Rightarrow> bool" where
  "load_store (Itype c) = (c \<in> {LB, LH, LW, LBU, LHU})"
| "load_store (Stype _) = True"
| "load_store (CLtype _) = True"
| "load_store (CStype _) = True"
| "load_store _ = False"

fun jal :: "instr_class \<Rightarrow> bool" where
  "jal (Itype c) = (c = JALR)"
| "jal (Jtype _) = True"
| "jal (CRtype c) = (c \<in> {C_JR, C_JALR})"
| "jal (CJtype _) = True"
| "jal _ = False"

definition uaui :: "instr_class \<Rightarrow> bool" where "uaui c \<longleftrightarrow> c = Utype AUIPC"
definition unsigned_sign_extension :: "instr_class \<Rightarrow> bool" where "unsigned_sign_extension c \<longleftrightarrow> c = Itype SLTIU"
definition shift :: "instr_class \<Rightarrow> bool" where "shift c \<longleftrightarrow> c \<in> {Itype SLLI, Itype SRLI, Itype SRAI}"
definition csrs :: "instr_class \<Rightarrow> bool" where "csrs c \<longleftrightarrow> c = Itype CSRRS"
definition csrr :: "instr_class \<Rightarrow> bool" where "csrr c \<longleftrightarrow> c \<in> {Itype CSRRW, Itype CSRRC}"
definition csri :: "instr_class \<Rightarrow> bool" where "csri c \<longleftrightarrow> c \<in> {Itype CSRRWI, Itype CSRRSI, Itype CSRRCI}"

definition trap :: "instr_class \<Rightarrow> bool" where
  "trap c \<longleftrightarrow> c \<in> {Itype URET, Itype SRET, Itype HRET, Itype MRET, Itype WFI, Itype SFENCE}"

text \<open>The width in the call of \<open>SIGN_EXTEND_IMM\<close> that is added to \<open>Decode\<close>.\<close>

fun decodes :: "instr_class \<Rightarrow> nat option" where
  "decodes (Itype c) =
     (if c \<in> {ADDI, SLTI, XORI, ORI, ANDI, JALR, LB, LH, LW, LBU, LHU} then Some 12 else None)"
| "decodes (Stype _) = Some 12"
| "decodes (Btype _) = Some 13"
| "decodes (Jtype _) = Some 20"
| "decodes (CJtype _) = Some 11"
| "decodes (CBtype c) = (if c \<in> {C_BEQZ, C_BNEZ} then Some 8 else if c = C_ANDI then Some 6 else None)"
| "decodes _ = None"

text \<open>The immediate as \<open>Decode\<close> leaves it in \<open>imm_sign_extended\<close> and \<open>unsigned_imm_sign_extended\<close>.\<close>

definition IMM_SIGN_EXTENDED :: "RiscvInstruction \<Rightarrow> u64 option" where
  "IMM_SIGN_EXTENDED i = do { w \<leftarrow> decodes (iclass i); v \<leftarrow> imm i; Some (SignExtend (ucast v) w) }"

definition UNSIGNED_IMM_SIGN_EXTENDED :: "RiscvInstruction \<Rightarrow> u64 option" where
  "UNSIGNED_IMM_SIGN_EXTENDED i =
     (if iclass i = Itype SLTIU then do { v \<leftarrow> imm i; Some (SignExtend (ucast v) 12) } else None)"

section \<open>Disassembly\<close>

definition reg_text :: "u32 option \<Rightarrow> string option" where
  "reg_text r = do { k \<leftarrow> r; RegAlias k False }"

text \<open>\<open>%d\<close> of a value converted to \<open>int\<close>, and \<open>%u\<close>.\<close>

definition as_d :: "u32 \<Rightarrow> string" where "as_d v = signed_decimal (sint v)"
definition as_u :: "u32 \<Rightarrow> string" where "as_u v = decimal (unat v)"

definition Rtype_Disassembly :: "RiscvInstruction \<Rightarrow> string option" where
  "Rtype_Disassembly i = do { d \<leftarrow> reg_text (rd i); a \<leftarrow> reg_text (rs1 i); b \<leftarrow> reg_text (rs2 i);
     sprintf 1024 (InstrName (iclass i) @ '' '' @ d @ '','' @ a @ '','' @ b) }"

definition Itype_Disassembly :: "RiscvInstruction \<Rightarrow> string option" where
  "Itype_Disassembly i =
     (let c = iclass i; n = InstrName c in
      if load_store c then do { d \<leftarrow> reg_text (rd i); v \<leftarrow> IMM_SIGN_EXTENDED i; a \<leftarrow> reg_text (rs1 i);
        sprintf 1024 (n @ '' '' @ d @ '','' @ as_d (ucast v) @ ''('' @ a @ '')'') }
      else if unsigned_sign_extension c then do { d \<leftarrow> reg_text (rd i); a \<leftarrow> reg_text (rs1 i); v \<leftarrow> UNSIGNED_IMM_SIGN_EXTENDED i;
        sprintf 1024 (n @ '' '' @ d @ '','' @ a @ '','' @ as_u (ucast v)) }
      else if shift c then do { d \<leftarrow> reg_text (rd i); a \<leftarrow> reg_text (rs1 i); v \<leftarrow> imm i;
        sprintf 1024 (n @ '' '' @ d @ '','' @ a @ '','' @ as_u (v AND 0x1f)) }
      else if csrs c then do { d \<leftarrow> reg_text (rd i); v \<leftarrow> imm i; s \<leftarrow> CSR_NAME v;
        sprintf 1024 (n @ '' '' @ d @ '','' @ s) }
      else if csrr c then do { d \<leftarrow> reg_text (rd i); v \<leftarrow> imm i; s \<leftarrow> CSR_NAME v; a \<leftarrow> reg_text (rs1 i);
        sprintf 1024 (n @ '' '' @ d @ '','' @ s @ '','' @ a) }
      else if csri c then do { d \<leftarrow> reg_text (rd i); v \<leftarrow> imm i; s \<leftarrow> CSR_NAME v; a \<leftarrow> rs1 i;
        sprintf 1024 (n @ '' '' @ d @ '','' @ s @ '','' @ as_d a) }
      else if trap c then sprintf 1024 n
      else do { d \<leftarrow> reg_text (rd i); a \<leftarrow> reg_text (rs1 i); v \<leftarrow> IMM_SIGN_EXTENDED i;
        sprintf 1024 (n @ '' '' @ d @ '','' @ a @ '','' @ as_d (ucast v)) })"

definition Stype_Disassembly :: "RiscvInstruction \<Rightarrow> string option" where
  "Stype_Disassembly i = do { b \<leftarrow> reg_text (rs2 i); v \<leftarrow> IMM_SIGN_EXTENDED i; a \<leftarrow> reg_text (rs1 i);
     sprintf 1024 (InstrName (iclass i) @ '' '' @ b @ '','' @ as_d (ucast v) @ ''('' @ a @ '')'') }"

definition Btype_Disassembly :: "RiscvInstruction \<Rightarrow> string option" where
  "Btype_Disassembly i = do { b \<leftarrow> reg_text (rs2 i); a \<leftarrow> reg_text (rs1 i); v \<leftarrow> IMM_SIGN_EXTENDED i;
     sprintf 1024 (InstrName (iclass i) @ '' '' @ b @ '','' @ a @ '','' @ as_d (ucast v)) }"

definition Utype_Disassembly :: "RiscvInstruction \<Rightarrow> string option" where
  "Utype_Disassembly i =
     (if uaui (iclass i) then do { d \<leftarrow> reg_text (rd i); v \<leftarrow> imm i;
        sprintf 1024 (InstrName (iclass i) @ '' '' @ d @ '',0x'' @ fmt_x 0 v) }
      else do { d \<leftarrow> reg_text (rd i); v \<leftarrow> imm i;
        sprintf 1024 (InstrName (iclass i) @ '' '' @ d @ '',0x'' @ fmt_x 0 v) })"

definition Jtype_Disassembly :: "RiscvInstruction \<Rightarrow> string option" where
  "Jtype_Disassembly i =
     (if jal (iclass i) then do { d \<leftarrow> reg_text (rd i); v \<leftarrow> IMM_SIGN_EXTENDED i;
        sprintf 1024 (InstrName (iclass i) @ '' '' @ d @ '',0x'' @ fmt_x 0 (ucast (ucast (instr_pc i) + v) :: u32)) }
      else do { d \<leftarrow> reg_text (rd i); v \<leftarrow> imm i;
        sprintf 1024 (InstrName (iclass i) @ '' '' @ d @ '',0x'' @ fmt_x 0 v) })"

definition CRtype_Disassembly :: "RiscvInstruction \<Rightarrow> string option" where
  "CRtype_Disassembly i = do { d \<leftarrow> reg_text (rd i); b \<leftarrow> reg_text (rs2 i);
     sprintf 1024 (InstrName (iclass i) @ '' '' @ d @ '','' @ b) }"

definition CItype_Disassembly :: "RiscvInstruction \<Rightarrow> string option" where
  "CItype_Disassembly i = do { d \<leftarrow> reg_text (rd i); v \<leftarrow> imm i;
     sprintf 1024 (InstrName (iclass i) @ '' '' @ d @ '',0x'' @ fmt_x 0 v) }"

definition CSStype_Disassembly :: "RiscvInstruction \<Rightarrow> string option" where
  "CSStype_Disassembly i = do { b \<leftarrow> reg_text (rs2 i); v \<leftarrow> imm i;
     sprintf 1024 (InstrName (iclass i) @ '' '' @ b @ '',0x'' @ fmt_x 0 v) }"

definition CIWtype_Disassembly :: "RiscvInstruction \<Rightarrow> string option" where
  "CIWtype_Disassembly i = do { d \<leftarrow> reg_text (rd i); v \<leftarrow> imm i;
     sprintf 1024 (InstrName (iclass i) @ '' '' @ d @ '',0x'' @ fmt_x 0 v) }"

definition CLtype_Disassembly :: "RiscvInstruction \<Rightarrow> string option" where
  "CLtype_Disassembly i = do { d \<leftarrow> reg_text (rd i); v \<leftarrow> imm i; a \<leftarrow> reg_text (rs1 i);
     sprintf 1024 (InstrName (iclass i) @ '' '' @ d @ '','' @ as_d v @ ''('' @ a @ '')'') }"

definition CStype_Disassembly :: "RiscvInstruction \<Rightarrow> string option" where
  "CStype_Disassembly i = do { d \<leftarrow> reg_text (rd i); v \<leftarrow> imm i; a \<leftarrow> reg_text (rs1 i);
     sprintf 1024 (InstrName (iclass i) @ '' '' @ d @ '','' @ as_d v @ ''('' @ a @ '')'') }"

definition CBtype_Disassembly :: "RiscvInstruction \<Rightarrow> string option" where
  "CBtype_Disassembly i = do { d \<leftarrow> reg_text (rd i); v \<leftarrow> imm i; a \<leftarrow> reg_text (rs1 i);
     sprintf 1024 (InstrName (iclass i) @ '' '' @ d @ '','' @ as_d v @ ''('' @ a @ '')'') }"

definition CJtype_Disassembly :: "RiscvInstruction \<Rightarrow> string option" where
  "CJtype_Disassembly i = do { v \<leftarrow> imm i; sprintf 1024 (InstrName (iclass i) @ '' 0x'' @ fmt_x 0 v) }"

definition Unknown_Disassembly :: "RiscvInstruction \<Rightarrow> string option" where
  "Unknown_Disassembly i = sprintf 1024 ''???''"

definition Disassembly :: "RiscvInstruction \<Rightarrow> string option" where
  "Disassembly i = (case iclass i of
      Rtype _ \<Rightarrow> Rtype_Disassembly i
    | Itype _ \<Rightarrow> Itype_Disassembly i
    | Stype _ \<Rightarrow> Stype_Disassembly i
    | Btype _ \<Rightarrow> Btype_Disassembly i
    | Utype _ \<Rightarrow> Utype_Disassembly i
    | Jtype _ \<Rightarrow> Jtype_Disassembly i
    | CRtype _ \<Rightarrow> CRtype_Disassembly i
    | CItype _ \<Rightarrow> CItype_Disassembly i
    | CSStype _ \<Rightarrow> CSStype_Disassembly i
    | CIWtype _ \<Rightarrow> CIWtype_Disassembly i
    | CLtype _ \<Rightarrow> CLtype_Disassembly i
    | CStype _ \<Rightarrow> CStype_Disassembly i
    | CBtype _ \<Rightarrow> CBtype_Disassembly i
    | CJtype _ \<Rightarrow> CJtype_Disassembly i
    | UnknownInstruction \<Rightarrow> Unknown_Disassembly i)"

text \<open>The lines printed.\<close>

definition Display :: "bool \<Rightarrow> RiscvInstruction \<Rightarrow> string list option" where
  "Display verbose i =
     (if verbose then do {
        t \<leftarrow> Disassembly i;
        line \<leftarrow> (if instr_size i = 2 then sprintf 128 (''0x'' @ fmt_x 8 (instr_pc i) @ '' 0x'' @ fmt_x 4 (encoding i) @ '' '' @ t)
                else sprintf 128 (''0x'' @ fmt_x 8 (instr_pc i) @ '' 0x'' @ fmt_x 8 (encoding i) @ '' '' @ t));
        Some [line] }
      else Some [])"

section \<open>Decoded fields\<close>

text \<open>The typing of an encoding type: whether it has rd, rs1 and rs2, and the width of its immediate.\<close>

fun field_types :: "instr_class \<Rightarrow> bool \<times> bool \<times> bool \<times> nat option" where
  "field_types (Rtype _) = (True, True, True, None)"
| "field_types (Itype _) = (True, True, False, Some 12)"
| "field_types (Stype _) = (False, True, True, Some 12)"
| "field_types (Btype _) = (False, True, True, Some 13)"
| "field_types (Utype _) = (True, False, False, Some 32)"
| "field_types (Jtype _) = (True, False, False, Some 20)"
| "field_types (CRtype _) = (True, True, True, None)"
| "field_types (CItype _) = (True, True, False, Some 6)"
| "field_types (CSStype _) = (False, False, True, Some 6)"
| "field_types (CIWtype _) = (True, False, False, Some 8)"
| "field_types (CLtype _) = (True, True, False, Some 5)"
| "field_types (CStype _) = (False, True, True, Some 5)"
| "field_types (CBtype _) = (False, True, False, Some 8)"
| "field_types (CJtype _) = (False, False, False, Some 11)"
| "field_types UnknownInstruction = (False, False, False, None)"

definition typed_reg :: "bool \<Rightarrow> u32 option \<Rightarrow> bool" where
  "typed_reg t f \<longleftrightarrow> (case f of None \<Rightarrow> \<not> t | Some v \<Rightarrow> t \<and> v < 32)"

definition typed_imm :: "nat option \<Rightarrow> u32 option \<Rightarrow> bool" where
  "typed_imm t f \<longleftrightarrow> (case (t, f) of (None, None) \<Rightarrow> True | (Some w, Some v) \<Rightarrow> take_bit w v = v | _ \<Rightarrow> False)"

definition well_typed :: "RiscvInstruction \<Rightarrow> bool" where
  "well_typed i \<longleftrightarrow> (case field_types (iclass i) of
     (d, a, b, w) \<Rightarrow> typed_reg d (rd i) \<and> typed_reg a (rs1 i) \<and> typed_reg b (rs2 i) \<and> typed_imm w (imm i))"

lemma typed_simps [simp]: "typed_reg t None = (\<not> t)" "typed_reg t (Some v) = (t \<and> v < 32)"
  "typed_imm None f = (f = None)" "typed_imm (Some w) None = False" "typed_imm (Some w) (Some v) = (take_bit w v = v)"
  by (simp_all add: typed_reg_def typed_imm_def split: option.split)

lemma unat_take_bit_mod: "unat (take_bit n v) = unat v mod 2 ^ n"
  unfolding unsigned_take_bit_eq by (rule take_bit_eq_mod)

lemma word_less_32: "v < 32 \<longleftrightarrow> take_bit 5 v = v" for v :: u32
  using mod_less [of "unat v" 32] by (auto simp: word_less_nat_alt word_unat_eq_iff unat_take_bit_mod intro: ccontr dest: mod_less_divisor)

lemma dec_regs_typed: "dec_RS2 e < 32" "dec_RS1 e < 32" "dec_RD e < 32" "dec_RD_RS1 e < 32"
  unfolding word_less_32 dec_RS2_def dec_RS1_def dec_RD_def dec_RD_RS1_def and_masks by simp_all

lemma rvc2reg_typed: "rvc2reg (x AND 3) < 32"
proof -
  have "unat (x AND 3) < 4" by (simp add: and_masks unat_take_bit_mod)
  then show ?thesis by (simp add: rvc2reg_def word_less_nat_alt unat_word_ariths)
qed

lemma dec_regs3_typed: "dec_RD3 e < 32" "dec_RS1_3 e < 32" "dec_RS2_3 e < 32"
  by (simp_all add: dec_RD3_def dec_RS1_3_def dec_RS2_3_def rvc2reg_typed)

lemma take_bit_selfI: "(\<And>k. k < 32 \<Longrightarrow> bit v k \<Longrightarrow> k < w) \<Longrightarrow> take_bit w v = v" for v :: u32
  by (rule bit_word_eqI) (auto simp: bit_take_bit_iff)

lemma dec_imms_typed:
  "take_bit 12 (dec_ITYPE_IMM e) = dec_ITYPE_IMM e" "take_bit 12 (dec_STYPE_IMM e) = dec_STYPE_IMM e"
  "take_bit 13 (dec_BTYPE_IMM e) = dec_BTYPE_IMM e" "take_bit 20 (dec_JTYPE_IMM e) = dec_JTYPE_IMM e"
  unfolding dec_ITYPE_IMM_def dec_STYPE_IMM_def dec_BTYPE_IMM_def dec_JTYPE_IMM_def and_masks
  by (rule take_bit_selfI; simp only: bit_field_simps; auto)+

lemma compressed_masks: "e AND 0x1fe0 = push_bit 5 (take_bit 8 (drop_bit 5 e))" "e AND 0x1ffc = push_bit 2 (take_bit 11 (drop_bit 2 e))"
  "e AND 0x1c00 = push_bit 10 (take_bit 3 (drop_bit 10 e))" "e AND 0x7c = push_bit 2 (take_bit 5 (drop_bit 2 e))"
  "e AND 0x1000 = push_bit 12 (take_bit 1 (drop_bit 12 e))" for e :: u32
  by (rule word32_eqI; simp add: bit_and_iff bit_push_bit_iff bit_take_bit_iff bit_drop_bit_eq
      numeral_2_eq_2 [symmetric] numeral_3_eq_3 [symmetric] bit_iff_odd_drop_bit [symmetric])+

lemma dec_imms_compressed_typed:
  "take_bit 6 (dec_IMM_CI e) = dec_IMM_CI e" "take_bit 6 (dec_IMM_CSS e) = dec_IMM_CSS e"
  "take_bit 8 (dec_IMM_CIW e) = dec_IMM_CIW e" "take_bit 5 (dec_IMM_CL e) = dec_IMM_CL e"
  "take_bit 8 (dec_CB_OFFSET e) = dec_CB_OFFSET e" "take_bit 11 (dec_CJ_TARGET e) = dec_CJ_TARGET e"
  unfolding dec_IMM_CI_def dec_IMM_CSS_def dec_IMM_CIW_def dec_IMM_CL_def dec_CB_OFFSET_def dec_CJ_TARGET_def and_masks
    compressed_masks
  by (rule take_bit_selfI; simp only: bit_field_simps; auto)+

lemmas dec_typed = dec_regs_typed dec_regs3_typed dec_imms_typed dec_imms_compressed_typed

lemmas Decode_types = Rtype_Decode_def Itype_Decode_def Stype_Decode_def Btype_Decode_def Utype_Decode_def Jtype_Decode_def
  CRtype_Decode_def CItype_Decode_def CSStype_Decode_def CIWtype_Decode_def CLtype_Decode_def CStype_Decode_def
  CBtype_Decode_def CJtype_Decode_def

lemma Decode_new_typed: "well_typed (Decode (RiscvInstruction_new c s p enc buf))"
  by (cases c) (simp_all add: well_typed_def Decode_def RiscvInstruction_new_def Let_def Decode_types dec_typed)

lemma Decode_keeps [simp]: "iclass (Decode i) = iclass i" "encoding (Decode i) = encoding i"
  "instr_size (Decode i) = instr_size i" "instr_pc (Decode i) = instr_pc i"
  by (simp_all add: Decode_def Decode_types split: instr_class.split)


section \<open>Lengths of texts\<close>

text \<open>A defined text of at most \<open>n\<close> characters.\<close>

definition short :: "nat \<Rightarrow> string option \<Rightarrow> bool" where
  "short n m \<longleftrightarrow> (\<exists>t. m = Some t \<and> length t \<le> n)"

lemma short_bind: "short k m \<Longrightarrow> (\<And>t. length t \<le> k \<Longrightarrow> short n (f t)) \<Longrightarrow> short n (m \<bind> f)"
  by (auto simp: short_def)

lemma short_bind_Some: "m = Some v \<Longrightarrow> short n (f v) \<Longrightarrow> short n (m \<bind> f)"
  by simp

lemma short_sprintf: "length t \<le> n \<Longrightarrow> n < b \<Longrightarrow> short n (sprintf b t)"
  by (simp add: short_def sprintf_def)

lemma length_InstrName: "length (InstrName c) \<le> 10"
proof (cases c)
  case (Rtype d) then show ?thesis by (cases d) simp_all
next
  case (Itype d) then show ?thesis by (cases d) simp_all
next
  case (Stype d) then show ?thesis by (cases d) simp_all
next
  case (Btype d) then show ?thesis by (cases d) simp_all
next
  case (Utype d) then show ?thesis by (cases d) simp_all
next
  case (Jtype d) then show ?thesis by (cases d) simp_all
next
  case (CRtype d) then show ?thesis by (cases d) simp_all
next
  case (CItype d) then show ?thesis by (cases d) simp_all
next
  case (CSStype d) then show ?thesis by (cases d) simp_all
next
  case (CIWtype d) then show ?thesis by (cases d) simp_all
next
  case (CLtype d) then show ?thesis by (cases d) simp_all
next
  case (CStype d) then show ?thesis by (cases d) simp_all
next
  case (CBtype d) then show ?thesis by (cases d) simp_all
next
  case (CJtype d) then show ?thesis by (cases d) simp_all
qed simp

lemma reg_aliases_table: "length reg_aliases = 32" "distinct reg_aliases"
  "list_all (\<lambda>t. length t \<le> 3 \<and> list_all (\<lambda>c. c \<notin> {CHR '' '', CHR '','', CHR ''('', CHR '')''}) t) reg_aliases"
  by (simp_all add: reg_aliases_def)

lemma RegAlias_nth: "r < 32 \<Longrightarrow> RegAlias r False = Some (reg_aliases ! unat r)"
  by (simp add: RegAlias_def reg_aliases_table word_less_nat_alt)

lemma short_reg: "typed_reg True f \<Longrightarrow> short 3 (reg_text f)"
  using reg_aliases_table(1,3)
  by (cases f) (auto simp: reg_text_def RegAlias_nth short_def list_all_length word_less_nat_alt)

lemma csr_names_table: "list_all (\<lambda>(k, t). length t \<le> 10 \<and> hd t \<noteq> CHR ''<'' \<and> CHR '','' \<notin> set t) csr_names"
  "distinct (map snd csr_names)" "distinct (map fst csr_names)"
  by (simp_all add: csr_names_def)

lemma unat_12: "take_bit 12 v = v \<Longrightarrow> unat v < 16 ^ 3" for v :: u32
  using unat_take_bit_mod [of 12 v] mod_less_divisor [of "2 ^ 12" "unat v"] by simp

lemma short_CSR_NAME: "take_bit 12 v = v \<Longrightarrow> short 10 (CSR_NAME v)"
proof -
  assume "take_bit 12 v = v"
  then have "length (fmt_x 3 v) \<le> 3"
    using length_hexadecimal [of 3 "unat v"] unat_12 [of v] by (simp add: fmt_x_def length_zero_padded)
  then show ?thesis using csr_names_table(1)
    by (auto simp: CSR_NAME_def short_def sprintf_def list_all_iff dest!: map_of_SomeD split: option.split)
qed

lemma length_as_d: "length (as_d v) \<le> 11" and length_as_u: "length (as_u v) \<le> 10"
proof -
  have "\<bar>sint v\<bar> < 10 ^ 10" using sint_greater_eq [of v] sint_less [of v] by simp
  then show "length (as_d v) \<le> 11" using length_signed_decimal [of 10 "sint v"] by (simp add: as_d_def)
  have "unat v < 10 ^ 10" using unsigned_less [of v, where ?'a = nat] by simp
  then show "length (as_u v) \<le> 10" unfolding as_u_def by (intro length_decimal) simp_all
qed

lemma length_fmt_x_u32: "w \<le> 8 \<Longrightarrow> length (fmt_x w (v :: u32)) \<le> 8"
  by (rule length_fmt_x) simp_all


text \<open>Every encoding type but CS and CB prints well typed instructions.\<close>

definition prints_unset_rd :: "instr_class \<Rightarrow> bool" where
  "prints_unset_rd c \<longleftrightarrow> (\<exists>d. c = CStype d) \<or> (\<exists>d. c = CBtype d)"

lemma typed_regE: "typed_reg True f \<Longrightarrow> (\<And>v. f = Some v \<Longrightarrow> v < 32 \<Longrightarrow> P) \<Longrightarrow> P"
  by (cases f) auto

lemma typed_immE: "typed_imm (Some w) f \<Longrightarrow> (\<And>v. f = Some v \<Longrightarrow> take_bit w v = v \<Longrightarrow> P) \<Longrightarrow> P"
  by (cases f) auto

lemma short_I: "typed_reg True (rd i) \<Longrightarrow> typed_reg True (rs1 i) \<Longrightarrow> typed_imm (Some 12) (imm i) \<Longrightarrow>
  iclass i = Itype c \<Longrightarrow> short 48 (Itype_Disassembly i)"
proof -
  assume r: "typed_reg True (rd i)" "typed_reg True (rs1 i)" and m: "typed_imm (Some 12) (imm i)" and c: "iclass i = Itype c"
  obtain v where v: "imm i = Some v" "take_bit 12 v = v" by (rule typed_immE [OF m])
  obtain a where a: "rs1 i = Some a" by (rule typed_regE [OF r(2)])
  note len = length_InstrName [of "Itype c"] length_as_d length_as_u
  have S: "short 48 (sprintf 1024 t)" if "length t \<le> 48" for t using that by (rule short_sprintf) simp
  show ?thesis
    using len(2) [of a] len(2,3) [of "ucast (SignExtend (ucast v) 12)"] len(3) [of "v AND 0x1f"] len(1)
    by (cases c) (auto simp: Itype_Disassembly_def c v a IMM_SIGN_EXTENDED_def UNSIGNED_IMM_SIGN_EXTENDED_def
      unsigned_sign_extension_def shift_def csrs_def csrr_def csri_def trap_def
      intro!: S short_bind [OF short_reg [OF r(1)]] short_bind [OF short_reg [OF r(2), unfolded a]] short_bind [OF short_CSR_NAME [OF v(2)]])
qed


lemmas Disassembly_types = Rtype_Disassembly_def Stype_Disassembly_def Btype_Disassembly_def Utype_Disassembly_def
  Jtype_Disassembly_def CRtype_Disassembly_def CItype_Disassembly_def CSStype_Disassembly_def CIWtype_Disassembly_def
  CLtype_Disassembly_def CJtype_Disassembly_def Unknown_Disassembly_def

lemma short_Disassembly:
  assumes t: "well_typed i" and c: "\<not> prints_unset_rd (iclass i)"
  shows "short 48 (Disassembly i)"
proof -
  have S: "short 48 (sprintf 1024 t)" if "length t \<le> 48" for t using that by (rule short_sprintf) simp
  have R: "typed_reg True f \<Longrightarrow> (\<And>t. length t \<le> 3 \<Longrightarrow> short 48 (g t)) \<Longrightarrow> short 48 (reg_text f \<bind> g)" for f g
    by (rule short_bind [OF short_reg])
  have I: "typed_imm (Some w) (imm i) \<Longrightarrow> (\<And>v. short 48 (g v)) \<Longrightarrow> short 48 (imm i \<bind> g)" for w g
    by (erule typed_immE) simp
  have E: "typed_imm (Some w) (imm i) \<Longrightarrow> decodes (iclass i) = Some k \<Longrightarrow> (\<And>v. short 48 (g v)) \<Longrightarrow>
    short 48 (IMM_SIGN_EXTENDED i \<bind> g)" for w k g
    by (erule typed_immE) (simp add: IMM_SIGN_EXTENDED_def)
  have x: "short 48 (sprintf 1024 (InstrName k @ '' '' @ d @ '',0x'' @ fmt_x 0 u))" if "length d \<le> 3" for k d and u :: u32
    using that length_InstrName [of k] length_fmt_x_u32 [of 0 u] by (intro S) simp
  have j: "short 48 (sprintf 1024 (InstrName k @ '' 0x'' @ fmt_x 0 u))" for k and u :: u32
    using length_InstrName [of k] length_fmt_x_u32 [of 0 u] by (intro S) simp
  have d: "short 48 (sprintf 1024 (InstrName k @ '' '' @ d @ '','' @ as_d u @ ''('' @ a @ '')''))"
    "short 48 (sprintf 1024 (InstrName k @ '' '' @ d @ '','' @ a @ '','' @ as_d u))" if "length d \<le> 3" "length a \<le> 3" for k d a u
    using that length_InstrName [of k] length_as_d [of u] by (auto intro!: S)
  have r: "short 48 (sprintf 1024 (InstrName k @ '' '' @ d @ '','' @ a @ '','' @ b))"
    if "length d \<le> 3" "length a \<le> 3" "length b \<le> 3" for k d a b
    using that length_InstrName [of k] by (auto intro!: S)
  have cr: "short 48 (sprintf 1024 (InstrName k @ '' '' @ d @ '','' @ a))" if "length d \<le> 3" "length a \<le> 3" for k d a
    using that length_InstrName [of k] by (auto intro!: S)
  have u: "short 48 (sprintf 1024 ''???'')" by (rule S) simp
  show ?thesis
  proof (cases "iclass i")
    case (Itype d)
    then show ?thesis using t short_I [of i d] by (simp add: well_typed_def Disassembly_def)
  next
    case (CRtype d)
    then show ?thesis using t
      by (auto simp: well_typed_def Disassembly_def CRtype_Disassembly_def intro!: R cr [simplified] simp del: InstrName.simps)
  qed (use t c in \<open>auto simp: well_typed_def Disassembly_def Disassembly_types prints_unset_rd_def uaui_def
      intro!: R I E x [simplified] j [simplified] d [simplified] r [simplified] u simp del: InstrName.simps\<close>)
qed


lemma Display_line:
  assumes t: "well_typed i" and c: "\<not> prints_unset_rd (iclass i)"
  shows "\<exists>l. Display True i = Some [l] \<and> length l \<le> 70"
proof -
  obtain d where d: "Disassembly i = Some d" "length d \<le> 48"
    using short_Disassembly [OF assms] by (auto simp: short_def)
  show ?thesis
    using d(2) length_fmt_x_u32 [of 8 "instr_pc i"] length_fmt_x_u32 [of 4 "encoding i"] length_fmt_x_u32 [of 8 "encoding i"]
    by (simp add: Display_def d(1) sprintf_def)
qed

lemma Display_unset:
  assumes t: "well_typed i" and c: "prints_unset_rd (iclass i)"
  shows "Display True i = None"
proof -
  have "rd i = None" using assms by (auto simp: well_typed_def prints_unset_rd_def typed_reg_def split: option.splits)
  then show ?thesis using c
    by (auto simp: Display_def Disassembly_def prints_unset_rd_def CStype_Disassembly_def CBtype_Disassembly_def reg_text_def)
qed


text \<open>
  C22. Whatever the encoding and whichever factory decodes it, a decoded instruction is well typed: it
  has exactly the register fields and the immediate of its encoding type, every register number is below
  32, and the immediate fits the width of its encoding type. So no later access to the register file or
  to the table of register names is out of range.
\<close>

theorem decoded_well_typed: "well_typed (Decode (NewInstruction s p enc compressed buf))"
  by (simp add: NewInstruction_def NewInstruction16_def Decode_new_typed)

text \<open>
  C37. Printing a decoded instruction in verbose mode gives one line of at most 70 characters, which fits
  its buffer of 128, and nothing of it is indeterminate, for every encoding type but two: CS and CB print
  rd, which their \<open>Decode\<close> never sets, so that printing them is undefined. Without verbose nothing is
  printed.
\<close>

theorem display_fits:
  "Display False i = Some [] \<and>
   (let d = Decode (NewInstruction s p enc compressed buf)
    in if prints_unset_rd (iclass d) then Display True d = None
       else \<exists>line. Display True d = Some [line] \<and> length line \<le> 70)"
proof -
  have t: "well_typed (Decode (NewInstruction s p enc compressed buf))"
    by (simp add: NewInstruction_def NewInstruction16_def Decode_new_typed)
  have "Display False i = Some []" by (simp add: Display_def)
  then show ?thesis using Display_line [OF t] Display_unset [OF t] by (simp add: Let_def)
qed

text \<open>
  The names of the last three floating point registers are wrong: after register 28, which is \<open>ft8\<close>, come
  \<open>ft3\<close> to \<open>ft5\<close> again instead of \<open>ft9\<close> to \<open>ft11\<close>.
\<close>

lemma RegAliasFloat_wrong: "map RegAliasFloat [28, 29, 30, 31] = map Some [''ft8'', ''ft3'', ''ft4'', ''ft5'']"
  by (simp add: RegAliasFloat_def reg_aliases_float_def)

lemma RegAliasFloat_ambiguous: "RegAliasFloat 29 = RegAliasFloat 3"
  by (simp add: RegAliasFloat_def reg_aliases_float_def)

end
