(* ===== verification/Disasm_Text.thy ===== *)
theory Disasm_Text
  imports Disasm
begin

text \<open>
  What the text of an instruction says about it: names of instructions, registers and control registers
  are distinct, fields end at their separators, and so the text determines the encoding except for the
  bits that the printer leaves out.
\<close>

unbundle bit_operations_syntax

section \<open>Fields of a text\<close>

lemma field_split: "c \<notin> set s \<Longrightarrow> c \<notin> set s' \<Longrightarrow> s @ c # t = s' @ c # t' \<longleftrightarrow> s = s' \<and> t = t'"
proof
  assume c: "c \<notin> set s" "c \<notin> set s'" and e: "s @ c # t = s' @ c # t'"
  have "takeWhile (\<lambda>x. x \<noteq> c) (s @ c # t) = s" "takeWhile (\<lambda>x. x \<noteq> c) (s' @ c # t') = s'"
    using c by (auto simp: takeWhile_append takeWhile_eq_all_conv)
  with e show "s = s' \<and> t = t'" by auto
qed simp

definition separators :: "char set" where
  "separators = {CHR '' '', CHR '','', CHR ''('', CHR '')''}"

lemma reg_text_plain: "typed_reg True f \<Longrightarrow> reg_text f = Some t \<Longrightarrow> c \<in> separators \<Longrightarrow> c \<notin> set t"
proof -
  assume f: "typed_reg True f" "reg_text f = Some t" and c: "c \<in> separators"
  obtain v where v: "f = Some v" "v < 32" by (rule typed_regE [OF f(1)])
  then have "t \<in> set reg_aliases"
    using f(2) reg_aliases_table(1) by (auto simp: reg_text_def RegAlias_nth word_less_nat_alt)
  then show ?thesis using reg_aliases_table(3) c by (auto simp: list_all_iff separators_def)
qed

lemma reg_text_inject:
  "typed_reg True f \<Longrightarrow> typed_reg True f' \<Longrightarrow> reg_text f = Some t \<Longrightarrow> reg_text f' = Some t \<Longrightarrow> f = f'"
  using reg_aliases_table(1) nth_eq_iff_index_eq [OF reg_aliases_table(2)]
  by (cases f; cases f') (auto simp: reg_text_def RegAlias_nth word_less_nat_alt word_unat_eq_iff)

lemma stops_separators [simp]: "stops (CHR ''('' # r)" "stops (CHR ''>'' # r)"
  by (simp_all add: stops_def hex_digit_def isdigit_def)

lemma as_d_inject: "stops r \<Longrightarrow> stops r' \<Longrightarrow> as_d u @ r = as_d v @ r' \<longleftrightarrow> u = v \<and> r = r'"
  by (auto simp: as_d_def signed_decimal_inject intro: signed_word_eqI)

lemma as_u_inject: "as_u u = as_u v \<longleftrightarrow> u = v"
  using decimal_inject [of "[]" "[]" "unat u" "unat v"] by (simp add: as_u_def word_unat_eq_iff)

lemma fmt_x_0_inject: "fmt_x 0 u = fmt_x 0 v \<longleftrightarrow> u = v"
  using fmt_x_inject [of "[]" "[]" 0 u v] by simp

lemma as_d_inject': "as_d u = as_d v \<longleftrightarrow> u = v"
  using as_d_inject [of "[]" "[]" u v] by simp

lemma CSR_NAME_default: "CSR_NAME v = Some t \<Longrightarrow> map_of csr_names v = None \<Longrightarrow> t = ''<0x'' @ fmt_x 3 v @ ''>''"
  by (auto simp: CSR_NAME_def sprintf_def split: if_splits)

lemma CSR_NAME_known: "map_of csr_names v = Some t \<Longrightarrow> CSR_NAME v = Some t"
  by (simp add: CSR_NAME_def)

lemma CSR_NAME_plain: "CSR_NAME v = Some t \<Longrightarrow> CHR '','' \<notin> set t"
proof -
  assume t: "CSR_NAME v = Some t"
  have "CHR '','' \<notin> set (fmt_x 3 v)"
    using hexadecimal_chars [of "CHR '',''" "unat v"] by (auto simp: fmt_x_def zero_padded_def hex_digit_def isdigit_def)
  then show ?thesis using t CSR_NAME_default [OF t] CSR_NAME_known [of v] csr_names_table(1)
    by (cases "map_of csr_names v") (auto simp: list_all_iff dest!: map_of_SomeD)
qed

lemma CSR_NAME_inject: "CSR_NAME u = Some t \<Longrightarrow> CSR_NAME v = Some t \<Longrightarrow> u = v"
proof -
  assume u: "CSR_NAME u = Some t" and v: "CSR_NAME v = Some t"
  have known: "hd t \<noteq> CHR ''<'' \<and> (w, t) \<in> set csr_names" if "map_of csr_names w = Some s" "CSR_NAME w = Some t" for w s
    using that csr_names_table(1) CSR_NAME_known [OF that(1)] by (auto simp: list_all_iff dest!: map_of_SomeD)
  show ?thesis
  proof (cases "map_of csr_names u")
    case None
    note t = CSR_NAME_default [OF u None]
    then have v': "map_of csr_names v = None" using known [OF _ v] by (cases "map_of csr_names v") auto
    have "fmt_x 3 u @ ''>'' = fmt_x 3 v @ ''>''" using t CSR_NAME_default [OF v v'] by simp
    then show ?thesis using fmt_x_inject [of "''>''" "''>''" 3 u v] by simp
  next
    case (Some s)
    have t: "(u, t) \<in> set csr_names" "hd t \<noteq> CHR ''<''" using known [OF Some u] by simp_all
    then obtain s' where "map_of csr_names v = Some s'"
      using CSR_NAME_default [OF v] by (cases "map_of csr_names v") auto
    then have "(v, t) \<in> set csr_names" using known [OF _ v] by blast
    with t csr_names_table(2) show ?thesis by (metis distinct_map inj_onD prod.inject snd_conv)
  qed
qed

section \<open>Names of instructions\<close>

definition classes32 :: "instr_class list" where
  "classes32 =
     map Rtype [ADD, SLT, SLTU, ANDr, ORr, XORr, SLL, SRL, SUB, SRA, MUL, MULH, MULHSU, MULHU, DIV, DIVU, REM, REMU] @
     map Itype [ADDI, SLTI, XORI, ORI, ANDI, SLTIU, SLLI, SRLI, SRAI, JALR, LB, LH, LW, LBU, LHU, CSRRW, CSRRC, CSRRS,
       CSRRWI, CSRRSI, CSRRCI, URET, SRET, HRET, MRET, WFI, SFENCE] @
     map Stype [SB, SH, SW] @ map Btype [BEQ, BNE, BLT, BGE, BLTU, BGEU] @
     map Utype [LUI, FENCE, FENCE_I, ECALL, EBREAK, AUIPC] @ [Jtype JAL]"

definition names32 :: "(string \<times> instr_class) list" where
  "names32 = map (\<lambda>c. (InstrName c, c)) classes32"

lemma names32_distinct: "distinct (map fst names32)"
  by (simp add: names32_def classes32_def)

lemma classes32_complete: "c \<in> set classes32 \<longleftrightarrow> class_size c = 4 \<and> c \<noteq> UnknownInstruction"
proof (cases c)
  case (Rtype d) then show ?thesis by (cases d) (simp_all add: classes32_def)
next
  case (Itype d) then show ?thesis by (cases d) (simp_all add: classes32_def)
next
  case (Stype d) then show ?thesis by (cases d) (simp_all add: classes32_def)
next
  case (Btype d) then show ?thesis by (cases d) (simp_all add: classes32_def)
next
  case (Utype d) then show ?thesis by (cases d) (simp_all add: classes32_def)
next
  case (Jtype d) then show ?thesis by (cases d) (simp_all add: classes32_def)
qed (auto simp: classes32_def)

lemma InstrName_inject: "c \<in> set classes32 \<Longrightarrow> d \<in> set classes32 \<Longrightarrow> InstrName c = InstrName d \<longleftrightarrow> c = d"
  using names32_distinct by (auto simp: names32_def o_def distinct_map dest: inj_onD)

lemma InstrName_plain: "list_all (\<lambda>c. CHR '' '' \<notin> set (InstrName c) \<and> InstrName c \<noteq> ''???'') classes32"
  by (simp add: classes32_def)


text \<open>The first word of a text is the name of the instruction.\<close>

lemma takeWhile_name: "c \<in> set classes32 \<Longrightarrow> takeWhile (\<lambda>x. x \<noteq> CHR '' '') (InstrName c @ CHR '' '' # r) = InstrName c"
  "c \<in> set classes32 \<Longrightarrow> takeWhile (\<lambda>x. x \<noteq> CHR '' '') (InstrName c) = InstrName c"
  using InstrName_plain by (auto simp: list_all_iff takeWhile_append takeWhile_eq_all_conv)

lemma sprintf_Some: "sprintf n t = Some u \<longleftrightarrow> length t < n \<and> u = t"
  by (auto simp: sprintf_def)

lemmas text_simps = bind_eq_Some_conv sprintf_Some

definition begins :: "string \<Rightarrow> string option \<Rightarrow> bool" where
  "begins n m \<longleftrightarrow> (\<forall>t. m = Some t \<longrightarrow> t = n \<or> (\<exists>r. t = n @ CHR '' '' # r))"

lemma begins_intros:
  "(\<And>x. begins n (f x)) \<Longrightarrow> begins n (m \<bind> f)" "begins n (sprintf k (n @ CHR '' '' # r))" "begins n (sprintf k n)"
  "(b \<Longrightarrow> begins n x) \<Longrightarrow> (\<not> b \<Longrightarrow> begins n y) \<Longrightarrow> begins n (if b then x else y)"
  by (auto simp: begins_def text_simps)

lemma begins_Disassembly: "class_size (iclass i) = 4 \<Longrightarrow> iclass i \<noteq> UnknownInstruction \<Longrightarrow> begins (InstrName (iclass i)) (Disassembly i)"
  by (cases "iclass i"; simp add: Disassembly_def Disassembly_types Itype_Disassembly_def Let_def del: InstrName.simps
    load_store.simps jal.simps split del: if_split; intro begins_intros; simp add: begins_intros del: InstrName.simps)

lemma first_word:
  assumes "iclass i \<in> set classes32" "Disassembly i = Some t"
  shows "takeWhile (\<lambda>x. x \<noteq> CHR '' '') t = InstrName (iclass i)"
proof -
  have "t = InstrName (iclass i) \<or> (\<exists>r. t = InstrName (iclass i) @ CHR '' '' # r)"
    using begins_Disassembly [of i] assms unfolding begins_def classes32_complete by blast
  then show ?thesis using takeWhile_name [OF assms(1)] by (elim disjE exE) simp_all
qed

lemma class_of_text:
  assumes "Disassembly i = Some t" "Disassembly j = Some t" "class_size (iclass i) = 4" "class_size (iclass j) = 4"
  shows "iclass i = iclass j"
proof -
  have u: "takeWhile (\<lambda>x. x \<noteq> CHR '' '') t = (if iclass k = UnknownInstruction then ''???'' else InstrName (iclass k))"
    if "Disassembly k = Some t" "class_size (iclass k) = 4" for k
    using that first_word [of k t]
    by (auto simp: classes32_complete Disassembly_def Unknown_Disassembly_def sprintf_Some)
  show ?thesis
    using u [OF assms(1,3)] u [OF assms(2,4)] InstrName_inject [of "iclass i" "iclass j"] InstrName_plain assms(3,4)
    by (auto simp: list_all_iff classes32_complete split: if_splits)
qed


section \<open>Operands\<close>

lemma reg_field:
  assumes "typed_reg True f" "typed_reg True g" "reg_text f = Some d" "reg_text g = Some e" "c \<in> separators"
    and eq: "d @ c # r = e @ c # r'"
  shows "f = g \<and> r = r'"
proof -
  have "c \<notin> set d" "c \<notin> set e" using reg_text_plain assms by blast+
  then have "d = e \<and> r = r'" using eq field_split by metis
  then show ?thesis using reg_text_inject [OF assms(1-3)] assms(4) by simp
qed

lemma comma_separator: "CHR '','' \<in> separators" "CHR '')'' \<in> separators"
  by (simp_all add: separators_def)

lemma two_regs:
  assumes "typed_reg True f" "typed_reg True g" "reg_text f = Some d" "reg_text g = Some e"
    "typed_reg True f2" "typed_reg True g2" "reg_text f2 = Some a" "reg_text g2 = Some b"
    and eq: "d @ CHR '','' # a @ CHR '','' # r = e @ CHR '','' # b @ CHR '','' # r'"
  shows "f = g \<and> f2 = g2 \<and> r = r'"
proof -
  have "f = g" "a @ CHR '','' # r = b @ CHR '','' # r'"
    using reg_field [OF assms(1-4) comma_separator(1) eq] by simp_all
  then show ?thesis using reg_field [OF assms(5-8) comma_separator(1)] by simp
qed

lemma reg_and_address:
  assumes "typed_reg True f" "typed_reg True g" "reg_text f = Some d" "reg_text g = Some e"
    "typed_reg True f2" "typed_reg True g2" "reg_text f2 = Some a" "reg_text g2 = Some b"
    and eq: "d @ CHR '','' # as_d u @ CHR ''('' # a @ '')'' = e @ CHR '','' # as_d v @ CHR ''('' # b @ '')''"
  shows "f = g \<and> u = v \<and> f2 = g2"
proof -
  have "f = g" "as_d u @ CHR ''('' # a @ '')'' = as_d v @ CHR ''('' # b @ '')''"
    using reg_field [OF assms(1-4) comma_separator(1) eq] by simp_all
  then have "f = g" "u = v" "a @ '')'' = b @ '')''" by (simp_all add: as_d_inject)
  then show ?thesis using reg_field [OF assms(5-8) comma_separator(2)] by simp
qed

lemma reg_and_csr:
  assumes "typed_reg True f" "typed_reg True g" "reg_text f = Some d" "reg_text g = Some e"
    "CSR_NAME u = Some a" "CSR_NAME v = Some b"
    and eq: "d @ CHR '','' # a @ CHR '','' # r = e @ CHR '','' # b @ CHR '','' # r'"
  shows "f = g \<and> u = v \<and> r = r'"
proof -
  have "f = g" "a @ CHR '','' # r = b @ CHR '','' # r'"
    using reg_field [OF assms(1-4) comma_separator(1) eq] by simp_all
  then have "f = g" "a = b" "r = r'"
    using field_split [OF CSR_NAME_plain [OF assms(5)] CSR_NAME_plain [OF assms(6)]] by simp_all
  then show ?thesis using CSR_NAME_inject assms(5,6) by blast
qed

lemma SignExtend_inject:
  fixes u v :: u32
  assumes "0 < w" "w \<le> 32" "take_bit w u = u" "take_bit w v = v"
    "(ucast (SignExtend (ucast u) w) :: u32) = ucast (SignExtend (ucast v) w)"
  shows "u = v"
proof -
  have "take_bit w (ucast (SignExtend (ucast x) w) :: u32) = x" if "take_bit w x = x" for x :: u32
  proof (rule bit_word_eqI)
    fix k assume "k < LENGTH(32)"
    have "bit x k \<longleftrightarrow> k < w \<and> bit x k" using arg_cong [OF that, of "\<lambda>y. bit y k"] by (simp add: bit_take_bit_iff)
    then show "bit (take_bit w (ucast (SignExtend (ucast x) w) :: u32)) k = bit x k"
      using \<open>0 < w\<close> by (cases "k = w - 1") (auto simp: bit_take_bit_iff bit_ucast_iff bit_SignExtend dest: bit_imp_le_length)
  qed
  then show ?thesis using assms(3-5) by metis
qed


section \<open>The operands of each encoding type\<close>

text \<open>Two well typed instructions of one class with the same text.\<close>

definition same_text :: "instr_class \<Rightarrow> RiscvInstruction \<Rightarrow> RiscvInstruction \<Rightarrow> bool" where
  "same_text c i j \<longleftrightarrow> well_typed i \<and> well_typed j \<and> iclass i = c \<and> iclass j = c \<and>
     Disassembly i = Disassembly j \<and> Disassembly i \<noteq> None"

lemma same_textE:
  assumes "same_text c i j"
  obtains t where "iclass i = c" "iclass j = c" "Disassembly i = Some t" "Disassembly j = Some t"
  using assms unfolding same_text_def by (metis option.exhaust)

lemma same_typed:
  assumes "same_text c i j" "field_types c = (d, a, b, w)"
  shows "typed_reg d (rd i)" "typed_reg d (rd j)" "typed_reg a (rs1 i)" "typed_reg a (rs1 j)"
    "typed_reg b (rs2 i)" "typed_reg b (rs2 j)" "typed_imm w (imm i)" "typed_imm w (imm j)" "iclass i = c" "iclass j = c"
  using assms unfolding same_text_def well_typed_def by auto

lemma R_operands:
  assumes "same_text (Rtype c) i j"
  shows "rd i = rd j \<and> rs1 i = rs1 j \<and> rs2 i = rs2 j"
proof -
  have ty: "typed_reg True (rd i)" "typed_reg True (rd j)" "typed_reg True (rs1 i)" "typed_reg True (rs1 j)"
    "typed_reg True (rs2 i)" "typed_reg True (rs2 j)"
    using same_typed [OF assms field_types.simps(1)] by simp_all
  obtain d a b e a' b' where t: "reg_text (rd i) = Some d" "reg_text (rs1 i) = Some a" "reg_text (rs2 i) = Some b"
    "reg_text (rd j) = Some e" "reg_text (rs1 j) = Some a'" "reg_text (rs2 j) = Some b'"
    and eq: "d @ CHR '','' # a @ CHR '','' # b = e @ CHR '','' # a' @ CHR '','' # b'"
    using assms by (elim same_textE) (auto simp: Disassembly_def Rtype_Disassembly_def text_simps)
  have "rd i = rd j \<and> rs1 i = rs1 j \<and> b = b'" by (rule two_regs [OF ty(1,2) t(1,4) ty(3,4) t(2,5) eq])
  then show ?thesis using reg_text_inject [OF ty(5,6) t(3)] t(6) by simp
qed

lemma imm_of_extended:
  assumes "typed_imm (Some w) (imm i)" "typed_imm (Some w) (imm j)" "0 < w" "w \<le> 32"
    "decodes (iclass i) = Some w" "decodes (iclass j) = Some w"
    "IMM_SIGN_EXTENDED i = Some u" "IMM_SIGN_EXTENDED j = Some v" "(ucast u :: u32) = ucast v"
  shows "imm i = imm j"
proof -
  obtain x y where "imm i = Some x" "take_bit w x = x" "imm j = Some y" "take_bit w y = y"
    using typed_immE [OF assms(1)] typed_immE [OF assms(2)] by metis
  then show ?thesis
    using assms(5-9) SignExtend_inject [OF assms(3,4), of x y] by (simp add: IMM_SIGN_EXTENDED_def)
qed

lemma S_operands:
  assumes "same_text (Stype c) i j"
  shows "rs1 i = rs1 j \<and> rs2 i = rs2 j \<and> imm i = imm j"
proof -
  have ty: "typed_reg True (rs1 i)" "typed_reg True (rs1 j)" "typed_reg True (rs2 i)" "typed_reg True (rs2 j)"
    "typed_imm (Some 12) (imm i)" "typed_imm (Some 12) (imm j)" and c: "iclass i = Stype c" "iclass j = Stype c"
    using same_typed [OF assms field_types.simps(3)] by simp_all
  obtain b u a b' v a' where t: "reg_text (rs2 i) = Some b" "IMM_SIGN_EXTENDED i = Some u" "reg_text (rs1 i) = Some a"
    "reg_text (rs2 j) = Some b'" "IMM_SIGN_EXTENDED j = Some v" "reg_text (rs1 j) = Some a'"
    and eq: "b @ CHR '','' # as_d (ucast u) @ CHR ''('' # a @ '')'' = b' @ CHR '','' # as_d (ucast v) @ CHR ''('' # a' @ '')''"
    using assms by (elim same_textE) (auto simp: Disassembly_def Stype_Disassembly_def text_simps)
  have "rs2 i = rs2 j \<and> (ucast u :: u32) = ucast v \<and> rs1 i = rs1 j"
    by (rule reg_and_address [OF ty(3,4) t(1,4) ty(1,2) t(3,6) eq])
  then show ?thesis using imm_of_extended [OF ty(5,6) _ _ _ _ t(2,5)] c by simp
qed

lemma B_operands:
  assumes "same_text (Btype c) i j"
  shows "rs1 i = rs1 j \<and> rs2 i = rs2 j \<and> imm i = imm j"
proof -
  have ty: "typed_reg True (rs1 i)" "typed_reg True (rs1 j)" "typed_reg True (rs2 i)" "typed_reg True (rs2 j)"
    "typed_imm (Some 13) (imm i)" "typed_imm (Some 13) (imm j)" and c: "iclass i = Btype c" "iclass j = Btype c"
    using same_typed [OF assms field_types.simps(4)] by simp_all
  obtain b u a b' v a' where t: "reg_text (rs2 i) = Some b" "IMM_SIGN_EXTENDED i = Some u" "reg_text (rs1 i) = Some a"
    "reg_text (rs2 j) = Some b'" "IMM_SIGN_EXTENDED j = Some v" "reg_text (rs1 j) = Some a'"
    and eq: "b @ CHR '','' # a @ CHR '','' # as_d (ucast u) = b' @ CHR '','' # a' @ CHR '','' # as_d (ucast v)"
    using assms by (elim same_textE) (auto simp: Disassembly_def Btype_Disassembly_def text_simps)
  have "rs2 i = rs2 j \<and> rs1 i = rs1 j \<and> as_d (ucast u) = as_d (ucast v)"
    by (rule two_regs [OF ty(3,4) t(1,4) ty(1,2) t(3,6) eq])
  then show ?thesis using imm_of_extended [OF ty(5,6) _ _ _ _ t(2,5)] c by (simp add: as_d_inject')
qed

lemma U_operands:
  assumes "same_text (Utype c) i j"
  shows "rd i = rd j \<and> imm i = imm j"
proof -
  have ty: "typed_reg True (rd i)" "typed_reg True (rd j)"
    using same_typed [OF assms field_types.simps(5)] by simp_all
  obtain d u e v where t: "reg_text (rd i) = Some d" "reg_text (rd j) = Some e" "imm i = Some u" "imm j = Some v"
    and eq: "d @ CHR '','' # ''0x'' @ fmt_x 0 u = e @ CHR '','' # ''0x'' @ fmt_x 0 v"
    using assms by (elim same_textE) (auto simp: Disassembly_def Utype_Disassembly_def text_simps)
  have "rd i = rd j \<and> ''0x'' @ fmt_x 0 u = ''0x'' @ fmt_x 0 v"
    by (rule reg_field [OF ty t(1,2) comma_separator(1) eq])
  then show ?thesis using t(3,4) by (simp add: fmt_x_0_inject)
qed


text \<open>
  The immediate instructions whose text keeps everything: not \<open>csrrs\<close>, which leaves rs1 out, and not the
  returns, \<open>wfi\<close> and \<open>sfence\<close>, which are printed without operands. Of a shift the low five bits are printed.
\<close>

definition I_printed :: "I_class \<Rightarrow> bool" where
  "I_printed c \<longleftrightarrow> \<not> csrs (Itype c) \<and> \<not> trap (Itype c)"

definition printed_imm :: "I_class \<Rightarrow> u32 option \<Rightarrow> u32 option" where
  "printed_imm c f = (if shift (Itype c) then map_option (\<lambda>v. v AND 0x1f) f else f)"

lemma I_regs_imm:
  assumes s: "same_text (Itype c) i j" and c: "\<not> load_store (Itype c)" "\<not> csrs (Itype c)" "\<not> csrr (Itype c)" "\<not> csri (Itype c)"
    "\<not> trap (Itype c)"
  shows "rd i = rd j \<and> rs1 i = rs1 j \<and> printed_imm c (imm i) = printed_imm c (imm j)"
proof -
  note ty = same_typed [OF s field_types.simps(2)]
  obtain x y where im: "imm i = Some x" "take_bit 12 x = x" "imm j = Some y" "take_bit 12 y = y"
    using typed_immE [OF ty(7)] typed_immE [OF ty(8)] by metis
  define tail where "tail v = (if unsigned_sign_extension (Itype c) then as_u (ucast (SignExtend (ucast v) 12))
    else if shift (Itype c) then as_u (v AND 0x1f) else as_d (ucast (SignExtend (ucast v) 12)))" for v :: u32
  have w: "decodes (Itype c) = Some 12" if "\<not> unsigned_sign_extension (Itype c)" "\<not> shift (Itype c)"
    using c that by (cases c) (simp_all add: unsigned_sign_extension_def shift_def csrs_def csrr_def csri_def trap_def)
  obtain d a e b where t: "reg_text (rd i) = Some d" "reg_text (rd j) = Some e" "reg_text (rs1 i) = Some a" "reg_text (rs1 j) = Some b"
    and eq: "d @ CHR '','' # a @ CHR '','' # tail x = e @ CHR '','' # b @ CHR '','' # tail y"
    using s c w by (elim same_textE)
      (auto simp: Disassembly_def Itype_Disassembly_def text_simps Let_def im tail_def IMM_SIGN_EXTENDED_def
        UNSIGNED_IMM_SIGN_EXTENDED_def unsigned_sign_extension_def split: if_splits simp del: load_store.simps decodes.simps)
  have "rd i = rd j \<and> rs1 i = rs1 j \<and> tail x = tail y" by (rule two_regs [OF ty(1,2) t(1,2) ty(3,4) t(3,4) eq])
  then show ?thesis
    using SignExtend_inject [of 12 x y] im
    by (auto simp: tail_def printed_imm_def as_u_inject as_d_inject' split: if_splits)
qed

lemma I_operands:
  assumes s: "same_text (Itype c) i j" and c: "I_printed c"
  shows "rd i = rd j \<and> rs1 i = rs1 j \<and> printed_imm c (imm i) = printed_imm c (imm j)"
proof -
  note ty = same_typed [OF s field_types.simps(2)]
  obtain x y where im: "imm i = Some x" "take_bit 12 x = x" "imm j = Some y" "take_bit 12 y = y"
    using typed_immE [OF ty(7)] typed_immE [OF ty(8)] by metis
  obtain p q where r: "rs1 i = Some p" "rs1 j = Some q"
    using typed_regE [OF ty(3)] typed_regE [OF ty(4)] by metis
  consider (load) "load_store (Itype c)" | (csr) "csrr (Itype c) \<or> csri (Itype c)" "\<not> load_store (Itype c)"
    | (other) "\<not> load_store (Itype c)" "\<not> csrr (Itype c)" "\<not> csri (Itype c)" by blast
  then show ?thesis
  proof cases
    case load
    then have w: "decodes (Itype c) = Some 12" "\<not> shift (Itype c)" by (cases c; simp add: shift_def)+
    obtain d a e b where t: "reg_text (rd i) = Some d" "reg_text (rd j) = Some e" "reg_text (rs1 i) = Some a" "reg_text (rs1 j) = Some b"
      and eq: "d @ CHR '','' # as_d (ucast (SignExtend (ucast x) 12)) @ CHR ''('' # a @ '')'' =
        e @ CHR '','' # as_d (ucast (SignExtend (ucast y) 12)) @ CHR ''('' # b @ '')''"
      using s load w(1) by (elim same_textE)
        (auto simp: Disassembly_def Itype_Disassembly_def text_simps Let_def im IMM_SIGN_EXTENDED_def simp del: load_store.simps decodes.simps)
    have "rd i = rd j \<and> ucast (SignExtend (ucast x) 12) = (ucast (SignExtend (ucast y) 12) :: u32) \<and> rs1 i = rs1 j"
      by (rule reg_and_address [OF ty(1,2) t(1,2) ty(3,4) t(3,4) eq])
    then show ?thesis using SignExtend_inject [of 12 x y] im w(2) by (simp add: printed_imm_def)
  next
    case csr
    then have f: "\<not> unsigned_sign_extension (Itype c)" "\<not> shift (Itype c)" "\<not> csrs (Itype c)"
      by (cases c; simp add: shift_def csrr_def csri_def csrs_def unsigned_sign_extension_def)+
    define tail where "tail g = (if csrr (Itype c) then the (reg_text g) else as_d (the g))" for g
    obtain d n e m where t: "reg_text (rd i) = Some d" "reg_text (rd j) = Some e" "CSR_NAME x = Some n" "CSR_NAME y = Some m"
      and eq: "d @ CHR '','' # n @ CHR '','' # tail (rs1 i) = e @ CHR '','' # m @ CHR '','' # tail (rs1 j)"
      using s csr f by (elim same_textE)
        (auto simp: Disassembly_def Itype_Disassembly_def text_simps Let_def im tail_def split: if_splits simp del: load_store.simps)
    have "rd i = rd j \<and> x = y \<and> tail (rs1 i) = tail (rs1 j)" by (rule reg_and_csr [OF ty(1,2) t eq])
    moreover have "tail (rs1 i) = tail (rs1 j) \<Longrightarrow> rs1 i = rs1 j"
      using reg_text_inject [OF ty(3,4)] short_reg [OF ty(3)] short_reg [OF ty(4)]
      by (auto simp: tail_def r as_d_inject' short_def split: if_splits)
    ultimately show ?thesis using im by simp
  next
    case other
    then show ?thesis using I_regs_imm [OF s] c by (simp add: I_printed_def del: load_store.simps)
  qed
qed


section \<open>The encoding behind a text\<close>

text \<open>The classes whose text shows every bit; of JAL the decoder drops bit 31.\<close>

fun lossless :: "instr_class \<Rightarrow> bool" where
  "lossless (Rtype _) = True"
| "lossless (Itype c) = I_printed c"
| "lossless (Stype _) = True"
| "lossless (Btype _) = True"
| "lossless (Utype _) = True"
| "lossless _ = False"

lemma switch_size: "list_all (\<lambda>(k, c). class_size c = 4) cs \<Longrightarrow> class_size (switch x cs) = 4"
  by (auto simp: switch_def list_all_iff split: option.split dest!: map_of_SomeD)

lemma class_of_encoding_size: "class_size (class_of_encoding e) = 4"
  by (simp only: class_of_encoding_def Let_def if_distrib [of class_size] switch_size class_size.simps list.pred_inject prod.case if_cancel simp_thms)

fun U_opc :: "U_class \<Rightarrow> u32" where
  "U_opc LUI = 0x37" | "U_opc AUIPC = 0x17" | "U_opc FENCE = 0xf" | "U_opc FENCE_I = 0xf" | "U_opc ECALL = 0x73" | "U_opc EBREAK = 0x73"

lemma class_U_opc: "class_of_encoding e = Utype c \<Longrightarrow> sel_opc e = U_opc c"
  by (cases c) (auto simp: class_unfold split: if_splits)

lemma shift_RS2: "dec_RS2 e = dec_ITYPE_IMM e AND 0x1f"
  unfolding dec_RS2_def dec_ITYPE_IMM_def and_masks by simp

lemma I_same_encoding:
  assumes "class_of_encoding e = Itype c" "class_of_encoding e' = Itype c" "dec_RD e = dec_RD e'" "dec_RS1 e = dec_RS1 e'"
    and im: "printed_imm c (Some (dec_ITYPE_IMM e)) = printed_imm c (Some (dec_ITYPE_IMM e'))"
  shows "e = e'"
proof (cases "shift (Itype c)")
  case True
  then have "c \<in> {SLLI, SRLI, SRAI}" by (auto simp: shift_def)
  then have "sel_f7 e = sel_f7 e'" using class_I_sel [OF assms(1)] class_I_sel [OF assms(2)] by auto
  moreover have "dec_RS2 e = dec_RS2 e'" using im True by (simp add: printed_imm_def shift_RS2)
  ultimately show ?thesis
    using class_I_sel [OF assms(1)] class_I_sel [OF assms(2)] assms(3,4) enc_of_sel [of e] enc_of_sel [of e'] by metis
next
  case False
  then have "dec_ITYPE_IMM e = dec_ITYPE_IMM e'" using im by (simp add: printed_imm_def)
  then show ?thesis
    using class_I_sel [OF assms(1)] class_I_sel [OF assms(2)] assms(3,4) enc_of_sel [of e] enc_of_sel [of e'] I_fields_of_imm by metis
qed

text \<open>The encoding from its class and fields.\<close>

lemma R_encoding: "class_of_encoding e = Rtype c \<Longrightarrow>
    enc_fields (fst (R_code c)) (dec_RS2 e) (dec_RS1 e) (snd (R_code c)) (dec_RD e) 0x33 = e"
  using class_R_sel [of e c] enc_of_sel [of e] by simp

lemma S_encoding: "class_of_encoding e = Stype c \<Longrightarrow>
    enc_fields (drop_bit 5 (dec_STYPE_IMM e)) (dec_RS2 e) (dec_RS1 e) (S_code c) (dec_STYPE_IMM e) 0x23 = e"
  using class_S_sel [of e c] enc_of_sel [of e] by (simp add: S_fields_of_imm)

lemma B_encoding: "class_of_encoding e = Btype c \<Longrightarrow>
    enc_fields (push_bit 6 (drop_bit 12 (dec_BTYPE_IMM e)) OR take_bit 6 (drop_bit 5 (dec_BTYPE_IMM e))) (dec_RS2 e) (dec_RS1 e) (B_code c)
     (push_bit 1 (take_bit 4 (drop_bit 1 (dec_BTYPE_IMM e))) OR take_bit 1 (drop_bit 11 (dec_BTYPE_IMM e))) 0x63 = e"
  unfolding B_fields_of_imm using class_B_sel [of e c] enc_of_sel [of e] by simp

lemma U_encoding: "class_of_encoding e = Utype c \<Longrightarrow>
    enc_fields (drop_bit 25 (dec_UTYPE_IMM e)) (drop_bit 20 (dec_UTYPE_IMM e)) (drop_bit 15 (dec_UTYPE_IMM e))
     (drop_bit 12 (dec_UTYPE_IMM e)) (dec_RD e) (U_opc c) = e"
  unfolding U_fields_of_imm using class_U_opc [of e c] enc_of_sel [of e] by simp

text \<open>The fields of a new instruction.\<close>

lemma new_instruction: "iclass (NewInstruction s p e False buf) = class_of_encoding e" "encoding (NewInstruction s p e False buf) = e"
  by (simp_all add: NewInstruction_def RiscvInstruction_new_def Let_def)

lemma decoded_R:
  assumes "class_of_encoding e = Rtype c"
  shows "rd (Decode (NewInstruction s p e False buf)) = Some (dec_RD e)"
    "rs1 (Decode (NewInstruction s p e False buf)) = Some (dec_RS1 e)"
    "rs2 (Decode (NewInstruction s p e False buf)) = Some (dec_RS2 e)"
  using assms by (simp_all add: new_instruction Decode_R [where i = "NewInstruction s p e False buf"])

lemma decoded_I:
  assumes "class_of_encoding e = Itype c"
  shows "rd (Decode (NewInstruction s p e False buf)) = Some (dec_RD e)"
    "rs1 (Decode (NewInstruction s p e False buf)) = Some (dec_RS1 e)"
    "imm (Decode (NewInstruction s p e False buf)) = Some (dec_ITYPE_IMM e)"
  using assms by (simp_all add: new_instruction Decode_I [where i = "NewInstruction s p e False buf"])

lemma decoded_S:
  assumes "class_of_encoding e = Stype c"
  shows "rs1 (Decode (NewInstruction s p e False buf)) = Some (dec_RS1 e)"
    "rs2 (Decode (NewInstruction s p e False buf)) = Some (dec_RS2 e)"
    "imm (Decode (NewInstruction s p e False buf)) = Some (dec_STYPE_IMM e)"
  using assms by (simp_all add: new_instruction Decode_S [where i = "NewInstruction s p e False buf"])

lemma decoded_B:
  assumes "class_of_encoding e = Btype c"
  shows "rs1 (Decode (NewInstruction s p e False buf)) = Some (dec_RS1 e)"
    "rs2 (Decode (NewInstruction s p e False buf)) = Some (dec_RS2 e)"
    "imm (Decode (NewInstruction s p e False buf)) = Some (dec_BTYPE_IMM e)"
  using assms by (simp_all add: new_instruction Decode_B [where i = "NewInstruction s p e False buf"])

lemma decoded_U:
  assumes "class_of_encoding e = Utype c"
  shows "rd (Decode (NewInstruction s p e False buf)) = Some (dec_RD e)"
    "imm (Decode (NewInstruction s p e False buf)) = Some (dec_UTYPE_IMM e)"
  using assms by (simp_all add: new_instruction Decode_U [where i = "NewInstruction s p e False buf"])

lemma same_text_encoding:
  assumes lossless: "lossless (class_of_encoding e)" and c': "class_of_encoding e' = class_of_encoding e"
    and st: "same_text (class_of_encoding e) (Decode (NewInstruction s p e False buf)) (Decode (NewInstruction s' p' e' False buf'))"
      (is "same_text _ ?i ?j")
  shows "e = e'"
proof (cases "class_of_encoding e")
  case (Rtype d)
  note e' = trans [OF c' Rtype]
  have st': "same_text (Rtype d) ?i ?j" using st unfolding Rtype .
  have "dec_RD e = dec_RD e' \<and> dec_RS1 e = dec_RS1 e' \<and> dec_RS2 e = dec_RS2 e'"
    using R_operands [OF st'] unfolding decoded_R [OF Rtype] decoded_R [OF e'] by (simp only: option.inject)
  then show ?thesis using R_encoding [OF Rtype] R_encoding [OF e'] by metis
next
  case (Itype d)
  note e' = trans [OF c' Itype]
  have st': "same_text (Itype d) ?i ?j" using st unfolding Itype .
  have "I_printed d" using lossless unfolding Itype by simp
  have "dec_RD e = dec_RD e' \<and> dec_RS1 e = dec_RS1 e' \<and>
      printed_imm d (Some (dec_ITYPE_IMM e)) = printed_imm d (Some (dec_ITYPE_IMM e'))"
    using I_operands [OF st' \<open>I_printed d\<close>] unfolding decoded_I [OF Itype] decoded_I [OF e'] by (simp only: option.inject)
  then show ?thesis using I_same_encoding [OF Itype e'] by blast
next
  case (Stype d)
  note e' = trans [OF c' Stype]
  have st': "same_text (Stype d) ?i ?j" using st unfolding Stype .
  have "dec_RS1 e = dec_RS1 e' \<and> dec_RS2 e = dec_RS2 e' \<and> dec_STYPE_IMM e = dec_STYPE_IMM e'"
    using S_operands [OF st'] unfolding decoded_S [OF Stype] decoded_S [OF e'] by (simp only: option.inject)
  then show ?thesis using S_encoding [OF Stype] S_encoding [OF e'] by metis
next
  case (Btype d)
  note e' = trans [OF c' Btype]
  have st': "same_text (Btype d) ?i ?j" using st unfolding Btype .
  have "dec_RS1 e = dec_RS1 e' \<and> dec_RS2 e = dec_RS2 e' \<and> dec_BTYPE_IMM e = dec_BTYPE_IMM e'"
    using B_operands [OF st'] unfolding decoded_B [OF Btype] decoded_B [OF e'] by (simp only: option.inject)
  then show ?thesis using B_encoding [OF Btype] B_encoding [OF e'] by metis
next
  case (Utype d)
  note e' = trans [OF c' Utype]
  have st': "same_text (Utype d) ?i ?j" using st unfolding Utype .
  have "dec_RD e = dec_RD e' \<and> dec_UTYPE_IMM e = dec_UTYPE_IMM e'"
    using U_operands [OF st'] unfolding decoded_U [OF Utype] decoded_U [OF e'] by (simp only: option.inject)
  then show ?thesis using U_encoding [OF Utype] U_encoding [OF e'] by metis
qed (use lossless in simp_all)

lemma text_determines_encoding:
  assumes "lossless (class_of_encoding e)"
    and eq: "Disassembly (Decode (NewInstruction s p e False buf)) = Disassembly (Decode (NewInstruction s' p' e' False buf'))"
  shows "e = e'"
proof -
  define i j where ij: "i = Decode (NewInstruction s p e False buf)" "j = Decode (NewInstruction s' p' e' False buf')"
  have c: "iclass i = class_of_encoding e" "iclass j = class_of_encoding e'" by (simp_all add: ij new_instruction)
  have ty: "well_typed i" "well_typed j" by (simp_all add: ij NewInstruction_def Decode_new_typed)
  have "\<not> prints_unset_rd (iclass i)"
    using class_of_encoding_size [of e] by (auto simp: c prints_unset_rd_def)
  then obtain t where t: "Disassembly i = Some t" "Disassembly j = Some t"
    using short_Disassembly [OF ty(1)] eq by (auto simp: short_def ij)
  have c': "class_of_encoding e' = class_of_encoding e"
    using class_of_text [OF t(2,1)] by (simp add: c class_of_encoding_size)
  have st: "same_text (class_of_encoding e) i j"
    unfolding same_text_def c c' t by (simp add: ty)
  show ?thesis by (rule same_text_encoding [OF assms(1) c' st [unfolded ij]])
qed

text \<open>The text of such an instruction depends on its encoding alone.\<close>

lemma text_of_encoding:
  assumes "lossless (class_of_encoding e)"
  shows "Disassembly (Decode (NewInstruction s p e False buf)) = Disassembly (Decode (NewInstruction s' p' e False buf'))"
proof -
  note defs = Disassembly_def Disassembly_types Itype_Disassembly_def IMM_SIGN_EXTENDED_def UNSIGNED_IMM_SIGN_EXTENDED_def
  show ?thesis
  proof (cases "class_of_encoding e")
    case (Rtype d) then show ?thesis by (simp add: defs new_instruction decoded_R [OF Rtype])
  next
    case (Itype d) then show ?thesis by (simp add: defs new_instruction decoded_I [OF Itype] Let_def)
  next
    case (Stype d) then show ?thesis by (simp add: defs new_instruction decoded_S [OF Stype])
  next
    case (Btype d) then show ?thesis by (simp add: defs new_instruction decoded_B [OF Btype])
  next
    case (Utype d) then show ?thesis by (simp add: defs new_instruction decoded_U [OF Utype])
  qed (use assms in simp_all)
qed

text \<open>A branch is printed with rs2 before rs1, and \<open>csrrs\<close> without its source register.\<close>

lemma branch_operands_swapped:
  "Disassembly (Decode (NewInstruction s p (assemble (AsmB BLT 10 11 8)) False buf)) = Some ''blt a1,a0,8''"
proof -
  let ?e = "assemble (AsmB BLT 10 11 8)"
  have c: "class_of_encoding ?e = Btype BLT" by code_simp
  have f: "dec_RS1 ?e = 10" "dec_RS2 ?e = 11" "dec_BTYPE_IMM ?e = 8" by code_simp+
  have t: "as_d (ucast (SignExtend 8 13)) = ''8''" by code_simp
  show ?thesis
    unfolding Disassembly_def Decode_keeps new_instruction c instr_class.case Btype_Disassembly_def decoded_B [OF c] f IMM_SIGN_EXTENDED_def
    by (simp add: reg_text_def RegAlias_def reg_aliases_def sprintf_def t)
qed

lemma csrrs_hides_source:
  "Disassembly (Decode (NewInstruction s p (assemble (AsmI CSRRS 10 r 0x300)) False buf)) = Some ''csrrs a0,mstatus''"
proof -
  let ?e = "assemble (AsmI CSRRS 10 r 0x300)"
  have c: "class_of_encoding ?e = Itype CSRRS" by (rule class_I)
  have i: "dec_ITYPE_IMM ?e = 0x300" unfolding dec_ITYPE_IMM_def assemble.simps ITYPE_IMM_enc by simp
  have d: "dec_RD ?e = 10" unfolding dec_RD_def assemble.simps dec_enc_fields by simp
  show ?thesis
    unfolding Disassembly_def Decode_keeps new_instruction c instr_class.case Itype_Disassembly_def decoded_I [OF c] i d Let_def
    by (simp add: reg_text_def RegAlias_def reg_aliases_def sprintf_def CSR_NAME_def csr_names_def unsigned_sign_extension_def
        shift_def csrs_def)
qed

text \<open>
  C25. The printed form of a 32-bit instruction is faithful: for the classes whose operands are all
  printed, an instruction, on whatever state and memory it is created, prints the same text as another
  one exactly when both have the same encoding. Left out are CSRRS, which is printed without rs1, the
  returns, WFI and SFENCE, which are printed without rd, and JAL, of which bit 31 is not decoded.
\<close>

theorem disassembly_faithful:
  assumes "lossless (class_of_encoding e)"
  shows "Disassembly (Decode (NewInstruction s p e False buf)) = Disassembly (Decode (NewInstruction s' p' e' False buf')) \<longleftrightarrow> e = e'"
  using text_determines_encoding [OF assms] text_of_encoding [OF assms] by blast

theorem disassembly_faithful_witness:
  "lossless (class_of_encoding 0x00c58533) \<and>
   (\<forall>s p buf. Disassembly (Decode (NewInstruction s p 0x00c58533 False buf)) = Some ''add a0,a1,a2'') \<and>
   (\<forall>s p buf. Disassembly (Decode (NewInstruction s p 0x00c585b3 False buf)) \<noteq> Some ''add a0,a1,a2'')"
proof -
  have c: "class_of_encoding 0x00c58533 = Rtype ADD" by code_simp
  have f: "dec_RD 0x00c58533 = 10" "dec_RS1 0x00c58533 = 11" "dec_RS2 0x00c58533 = 12" by code_simp+
  have l: "lossless (class_of_encoding 0x00c58533)" by (simp add: c)
  have t: "Disassembly (Decode (NewInstruction s p 0x00c58533 False buf)) = Some ''add a0,a1,a2''" for s p buf
    by (simp add: Disassembly_def Rtype_Disassembly_def new_instruction c decoded_R [OF c] f reg_text_def RegAlias_def
      reg_aliases_def sprintf_def)
  have "Disassembly (Decode (NewInstruction s p 0x00c585b3 False buf)) \<noteq> Some ''add a0,a1,a2''" for s p buf
  proof
    assume "Disassembly (Decode (NewInstruction s p 0x00c585b3 False buf)) = Some ''add a0,a1,a2''"
    then have "Disassembly (Decode (NewInstruction s p 0x00c58533 False buf)) = Disassembly (Decode (NewInstruction s p 0x00c585b3 False buf))"
      by (simp only: t)
    then show False unfolding disassembly_faithful [OF l] by simp
  qed
  then show ?thesis using l t by blast
qed

end
