(* ===== verification/Trace.thy ===== *)
theory Trace
  imports Disasm_Text
begin

text \<open>
  What the simulator prints about an instruction besides its text: the log of register accesses of
  \<open>include/riscv_core_state.h\<close>, the lines of \<open>Writeback\<close> and the message of \<open>DecodeException\<close>. The core
  state of the other theories has no log; here it is a record of its own beside the state, and the logged
  operations call the plain ones. \<open>None\<close> is undefined behaviour, as in \<open>Disasm\<close>.
\<close>

unbundle bit_operations_syntax

section \<open>The log\<close>

record access_log =
  log_updates :: bool
  reg_updates :: "string list"

definition newline :: string where "newline = [CHR 0x0A]"

definition access_mark :: "bool \<Rightarrow> char" where
  "access_mark update = (if update then CHR ''W'' else CHR ''R'')"

definition FindRegisterAccess :: "string \<Rightarrow> access_log \<Rightarrow> bool" where
  "FindRegisterAccess t l = list_ex (\<lambda>us. us = t) (reg_updates l)"

definition log_once :: "string \<Rightarrow> access_log \<Rightarrow> access_log" where
  "log_once t l = (if \<not> FindRegisterAccess t l then l\<lparr>reg_updates := reg_updates l @ [t]\<rparr> else l)"

definition register_line :: "bool \<Rightarrow> string \<Rightarrow> u32 \<Rightarrow> u64 \<Rightarrow> string" where
  "register_line update rname rindex rval =
     ''  # '' @ [access_mark update] @ '' '' @ rname @ '' (x'' @ as_d rindex @ '') = 0x'' @ fmt_x 0 rval @ newline"

definition ShowRegisterAccess :: "string \<Rightarrow> u32 \<Rightarrow> u64 \<Rightarrow> bool \<Rightarrow> access_log \<Rightarrow> access_log option" where
  "ShowRegisterAccess rname rindex rval update l =
     do { t \<leftarrow> sprintf 256 (register_line update rname rindex rval); Some (log_once t l) }"

definition csr_line :: "bool \<Rightarrow> string \<Rightarrow> u32 \<Rightarrow> u64 \<Rightarrow> string" where
  "csr_line update csr_name csr_index rval =
     ''  # '' @ [access_mark update] @ '' '' @ csr_name @ '' (csr 0x'' @ fmt_x 3 csr_index @ '') = 0x'' @ fmt_x 0 rval @ newline"

definition ShowCSRAccess :: "string \<Rightarrow> u32 \<Rightarrow> u64 \<Rightarrow> bool \<Rightarrow> access_log \<Rightarrow> access_log option" where
  "ShowCSRAccess csr_name csr_index rval update l =
     do { t \<leftarrow> sprintf 256 (csr_line update csr_name csr_index rval); Some (log_once t l) }"

definition ShowComment :: "string \<Rightarrow> access_log \<Rightarrow> access_log" where
  "ShowComment comment l = l\<lparr>reg_updates := reg_updates l @ [comment]\<rparr>"

definition ShowRegisterAccesses :: "access_log \<Rightarrow> string" where
  "ShowRegisterAccesses l = concat (reg_updates l)"

section \<open>Logged register accesses\<close>

definition when_logging :: "(access_log \<Rightarrow> access_log option) \<Rightarrow> access_log \<Rightarrow> access_log option" where
  "when_logging f l = (if log_updates l then f l else Some l)"

definition show_alias :: "u32 \<Rightarrow> u64 \<Rightarrow> bool \<Rightarrow> access_log \<Rightarrow> access_log option" where
  "show_alias rindex rval update =
     when_logging (\<lambda>l. do { n \<leftarrow> RegAlias rindex False; ShowRegisterAccess n rindex rval update l })"

definition logged_GP :: "u32 \<Rightarrow> RiscvState \<times> access_log \<Rightarrow> (u64 \<times> RiscvState \<times> access_log) option" where
  "logged_GP rindex = (\<lambda>(s, l).
     if rindex = 0 then do { l \<leftarrow> when_logging (ShowRegisterAccess ''zero'' 0 0 False) l; Some (0, s, l) }
     else do { l \<leftarrow> show_alias rindex (GP rindex s) False l; Some (GP rindex s, s, l) })"

definition logged_SetGP :: "u32 \<Rightarrow> u64 \<Rightarrow> RiscvState \<times> access_log \<Rightarrow> (RiscvState \<times> access_log) option" where
  "logged_SetGP rindex rval = (\<lambda>(s, l).
     if 0 < rindex then do { l \<leftarrow> show_alias rindex rval True l; Some (SetGP rindex rval s, l) } else Some (s, l))"

text \<open>The statement that would log a read of the stack pointer comes after the return.\<close>

definition logged_SP :: "RiscvState \<times> access_log \<Rightarrow> (u64 \<times> RiscvState \<times> access_log) option" where
  "logged_SP = (\<lambda>(s, l). Some (SP s, s, l))"

definition logged_SetSP :: "u64 \<Rightarrow> RiscvState \<times> access_log \<Rightarrow> (RiscvState \<times> access_log) option" where
  "logged_SetSP rval = (\<lambda>(s, l). do { l \<leftarrow> show_alias 2 (SP (SetSP rval s)) True l; Some (SetSP rval s, l) })"

definition logged_FP :: "RiscvState \<times> access_log \<Rightarrow> (u64 \<times> RiscvState \<times> access_log) option" where
  "logged_FP = (\<lambda>(s, l). do { l \<leftarrow> show_alias 8 (FP s) False l; Some (FP s, s, l) })"

definition logged_SetFP :: "u64 \<Rightarrow> RiscvState \<times> access_log \<Rightarrow> (RiscvState \<times> access_log) option" where
  "logged_SetFP rval = (\<lambda>(s, l). do { l \<leftarrow> show_alias 8 (FP (SetFP rval s)) True l; Some (SetFP rval s, l) })"

section \<open>Logged accesses to control registers\<close>

text \<open>The name and index each setter logs; the value is the one stored.\<close>

definition csr_log_names :: "(csr_reg \<times> string \<times> u32) list" where
  "csr_log_names =
     [(USTATUS, ''ustatus'', 0), (FFLAGS, ''fflags'', 1), (FRM, ''frm'', 2), (FCSR, ''fcsr'', 3), (SATP, ''satp'', 0x180),
      (MISA, ''misa'', 0x301), (MSTATUS, ''mstatus'', 0x300), (MSTATUSH, ''mstatush'', 0x310), (MEDELEG, ''medeleg'', 0x302),
      (MIDELEG, ''mideleg'', 0x303), (MIE, ''mie'', 0x304), (MTVEC, ''mtvec'', 0x305), (MCOUNTEREN, ''mcounteren'', 0x306),
      (MSCRATCH, ''mscratch'', 0x340), (MEPC, ''mepc'', 0x341), (MCAUSE, ''mcause'', 0x342), (MTVAL, ''mtval'', 0x343),
      (MIP, ''mip'', 0x344), (MTINST, ''mtinst'', 0x34a), (PMPCFG0, ''pmpcfg0'', 0x3a0), (PMPADDR0, ''pmpaddr0'', 0x3b0),
      (MCYCLE, ''mcycle'', 0xb00), (MTINSTRET, ''mtinstret'', 0xb02), (MCYCLEH, ''mcycleh'', 0xb80), (MTINSTRETH, ''mtinstreth'', 0xb82)]"

text \<open>The comments of the two setters that ignore bits; that about MISA.C is not tied to the flag.\<close>

definition set_comments :: "csr_reg \<Rightarrow> u64 \<Rightarrow> RiscvState \<Rightarrow> access_log \<Rightarrow> access_log" where
  "set_comments r rval s l =
     (case r of
        MISA \<Rightarrow>
          (let l = (if rval AND NOT DEFINED_MISA_VALUE \<noteq> 0 \<and> log_updates l
                    then ShowComment ''Ignoring attempt to set unsupported bits of MISA'' l else l)
           in if reg_value MISA s AND 4 = 4 \<and> PC s AND 0x3 \<noteq> 0
              then ShowComment ''Ignoring attempt to clear MISA.C bit since current PC is not word-aligned.'' l else l)
      | MSTATUS \<Rightarrow>
          (let v = rval AND (rval AND 0x7fa21e9d)
           in if (v AND 0x1800 = 0x800 \<or> v AND 0x1800 = 0x1000) \<and> log_updates l
              then ShowComment (''  # ignoring writes to MSTATUS.MPP (values of 01 (S) or 02 (reserved))...'' @ newline) l else l)
      | _ \<Rightarrow> l)"

definition logged_set_reg :: "csr_reg \<Rightarrow> u64 \<Rightarrow> RiscvState \<times> access_log \<Rightarrow> (RiscvState \<times> access_log) option" where
  "logged_set_reg r rval = (\<lambda>(s, l).
     let s' = set_reg r rval s; l = set_comments r rval s l
     in case map_of csr_log_names r of
          None \<Rightarrow> Some (s', l)
        | Some (n, k) \<Rightarrow> do { l \<leftarrow> when_logging (ShowCSRAccess n k (csr_file s' r) True) l; Some (s', l) })"

definition logged_CSR ::
    "u32 \<Rightarrow> u32 \<Rightarrow> RiscvState \<times> access_log \<Rightarrow> ((sim_throw + u64) \<times> RiscvState \<times> access_log) option" where
  "logged_CSR csr privilege_level = (\<lambda>(s, l).
     case CSR csr privilege_level s of
       Inl e \<Rightarrow> Some (Inl e, s, l)
     | Inr v \<Rightarrow> do { l \<leftarrow> when_logging (\<lambda>l. do { n \<leftarrow> CSR_NAME csr; ShowCSRAccess n csr v False l }) l; Some (Inr v, s, l) })"

definition logged_SetCSR ::
    "u32 \<Rightarrow> u32 \<Rightarrow> u64 \<Rightarrow> RiscvState \<times> access_log \<Rightarrow> ((sim_throw + unit) \<times> RiscvState \<times> access_log) option" where
  "logged_SetCSR csr privilege_level rval = (\<lambda>(s, l).
     case ValidateCSRAccess csr privilege_level True of
       Inl e \<Rightarrow> Some (Inl e, s, l)
     | Inr _ \<Rightarrow>
         (case map_of csr_table csr of
            Some r \<Rightarrow> map_option (Pair (Inr ())) (logged_set_reg r rval (s, l))
          | None \<Rightarrow> Some (Inl (SimExc ILLEGAL_INSTRUCTION_UNKNOWN_CSR), s, l)))"

text \<open>
  The comments of interrupts and of WFI. What a trap does to the control registers it does through the
  setters above.
\<close>

definition logged_InterruptPending :: "RiscvState \<times> access_log \<Rightarrow> SIM_EXCEPTIONS option \<times> RiscvState \<times> access_log" where
  "logged_InterruptPending = (\<lambda>(s, l).
     case InterruptPending s of
       Some MACHINE_EXTERNAL_INT \<Rightarrow>
         (Some MACHINE_EXTERNAL_INT, s, if log_updates l then ShowComment (''  # machine external interrupt...'' @ newline) l else l)
     | Some e \<Rightarrow> (Some e, s, if log_updates l then ShowComment (''  # timer interrupt...'' @ newline) l else l)
     | None \<Rightarrow> (None, s, l))"

definition logged_WFI :: "RiscvState \<times> access_log \<Rightarrow> (RiscvState \<times> access_log) option" where
  "logged_WFI sl = do {
     sl \<leftarrow> logged_set_reg MCAUSE (ucast (enum_value PROCESS_WFI AND 0xf)) sl;
     sl \<leftarrow> logged_set_reg MTVAL 0 sl;
     (s, l) \<leftarrow> logged_set_reg MEPC (PC (fst sl) + 4) sl;
     Some (SetLowPowerMode s, if log_updates l then ShowComment (''  # Entering low power mode...'' @ newline) l else l) }"

section \<open>Lines of a write back\<close>

text \<open>The buffer of a read access is never filled, so that printing it shows indeterminate bytes.\<close>

definition memory_line :: "MemoryAccess \<Rightarrow> string option" where
  "memory_line a =
     (if nat (ma_size a) \<le> length (membuffer a)
      then Some (''  # M'' @ [access_mark (ma_IsWrite a)] @ '' 0x'' @ fmt_x 0 (ma_address a) @ '' '' @
        concat (map (\<lambda>b. '' '' @ hex2 b) (take (nat (ma_size a)) (membuffer a))) @ newline)
      else None)"

definition Writeback_lines :: "RiscvInstruction \<Rightarrow> access_log \<Rightarrow> bool \<Rightarrow> string option" where
  "Writeback_lines i l show_updates =
     (if show_updates
      then map_option (\<lambda>ms. ShowRegisterAccesses l @ concat ms) (those (map memory_line (mOpsMemory i)))
      else Some [])"

section \<open>Messages about exceptions\<close>

definition DecodeException :: "SIM_EXCEPTIONS \<Rightarrow> u64 \<Rightarrow> u32 \<Rightarrow> string option" where
  "DecodeException sim_exception pc opc =
     (let at = '' PC: 0x'' @ fmt_x 8 pc; enc = '', encoded instruction: 0x'' @ fmt_x 8 opc @ newline
      in sprintf 1024
        (case sim_exception of
           MACHINE_SWI \<Rightarrow> ''SWI issued in Machine Mode.'' @ at @ enc
         | MACHINE_TIMER_INT \<Rightarrow> ''Timer interrupt, Machine Mode. On or around'' @ at @ newline
         | MACHINE_EXTERNAL_INT_UART \<Rightarrow> ''Interrupt from Uart, Machine Mode. On or around'' @ at @ ''.'' @ newline
         | PROCESS_WFI \<Rightarrow> ''WFI issued in Machine Mode.'' @ at @ '', encoded (assumed WFI) instruction: 0x'' @ fmt_x 8 opc @ newline
         | PROCESS_MRET \<Rightarrow> ''MRET issued.'' @ at @ enc
         | ENV_CALL_UMODE \<Rightarrow> ''ECALL issued from User Mode.'' @ at @ enc
         | ENV_CALL_MMODE \<Rightarrow> ''ECALL issued from Machine Mode.'' @ at @ enc
         | ILLEGAL_INSTRUCTION_UNKNOWN_INSTR \<Rightarrow> ''Unknown instruction.'' @ at @ enc
         | ILLEGAL_INSTRUCTION_UNIMPL_INSTR \<Rightarrow> ''Unimplemented instruction.'' @ at @ enc
         | ILLEGAL_INSTRUCTION_PRIVILEGED_INSTR \<Rightarrow> ''Attempt to execute privileged instruction.'' @ at @ enc
         | ILLEGAL_INSTRUCTION_UNKNOWN_CSR \<Rightarrow> ''Access to unknown CSR.'' @ at @ enc
         | ILLEGAL_INSTRUCTION_PRIVILEGED_CSR \<Rightarrow> ''Privileged csr access.'' @ at @ enc
         | _ \<Rightarrow> ''Unknown or unsupported exception type: 0x'' @ fmt_x 3 (enum_value sim_exception)))"


section \<open>Every line fits\<close>

lemma length_register_line: "length rname \<le> 10 \<Longrightarrow> length (register_line update rname rindex rval) \<le> 56"
  using length_as_d [of rindex] length_fmt_x [of 0 16 rval] by (simp add: register_line_def newline_def)

lemma length_csr_line: "length csr_name \<le> 10 \<Longrightarrow> length (csr_line update csr_name csr_index rval) \<le> 60"
  using length_fmt_x_u32 [of 3 csr_index] length_fmt_x [of 0 16 rval] by (simp add: csr_line_def newline_def)

lemma ShowRegisterAccess_fits:
  "length rname \<le> 10 \<Longrightarrow> ShowRegisterAccess rname rindex rval update l = Some (log_once (register_line update rname rindex rval) l)"
  using length_register_line [of rname update rindex rval] by (simp add: ShowRegisterAccess_def sprintf_def)

lemma ShowCSRAccess_fits:
  "length csr_name \<le> 10 \<Longrightarrow> ShowCSRAccess csr_name csr_index rval update l = Some (log_once (csr_line update csr_name csr_index rval) l)"
  using length_csr_line [of csr_name update csr_index rval] by (simp add: ShowCSRAccess_def sprintf_def)

text \<open>The name a general purpose register is logged under.\<close>

definition log_name :: "bool \<Rightarrow> u32 \<Rightarrow> string" where
  "log_name update r = (if r = 0 \<and> \<not> update then ''zero'' else reg_aliases ! unat r)"

lemma log_name_plain: "r < 32 \<Longrightarrow> length (log_name w r) \<le> 4 \<and> CHR '' '' \<notin> set (log_name w r)"
proof (cases "r = 0 \<and> \<not> w")
  case False
  assume "r < 32"
  then have k: "unat r < length reg_aliases" using reg_aliases_table(1) by (simp add: word_less_nat_alt)
  have "length (reg_aliases ! unat r) \<le> 3 \<and> list_all (\<lambda>c. c \<notin> {CHR '' '', CHR '','', CHR ''('', CHR '')''}) (reg_aliases ! unat r)"
    using reg_aliases_table(3) nth_mem [OF k] unfolding list_all_iff by blast
  moreover have "log_name w r = reg_aliases ! unat r" using False by (auto simp: log_name_def)
  ultimately show ?thesis by (auto simp: list_all_iff)
qed (simp add: log_name_def)

definition access_line :: "bool \<times> u32 \<times> u64 \<Rightarrow> string" where
  "access_line = (\<lambda>(w, r, v). register_line w (log_name w r) r v)"

text \<open>A line says which register was accessed, how, and with which value.\<close>

lemma stops_paren [simp]: "stops (CHR '')'' # r)" and stops_newline [simp]: "stops newline"
  by (simp_all add: stops_def hex_digit_def isdigit_def newline_def)

lemma access_line_inject:
  assumes "r < 32" "r' < 32" and eq: "access_line (w, r, v) = access_line (w', r', v')"
  shows "(w, r, v) = (w', r', v')"
proof -
  have w: "w = w'" using eq by (auto simp: access_line_def register_line_def access_mark_def split: if_splits)
  have "log_name w r @ CHR '' '' # ''(x'' @ as_d r @ '') = 0x'' @ fmt_x 0 v @ newline =
      log_name w' r' @ CHR '' '' # ''(x'' @ as_d r' @ '') = 0x'' @ fmt_x 0 v' @ newline"
    using eq by (simp add: access_line_def register_line_def)
  then have "''(x'' @ as_d r @ '') = 0x'' @ fmt_x 0 v @ newline = ''(x'' @ as_d r' @ '') = 0x'' @ fmt_x 0 v' @ newline"
    using field_split [OF conjunct2 [OF log_name_plain] conjunct2 [OF log_name_plain], OF assms(1,2)] by blast
  then have "as_d r @ CHR '')'' # '' = 0x'' @ fmt_x 0 v @ newline = as_d r' @ CHR '')'' # '' = 0x'' @ fmt_x 0 v' @ newline"
    by simp
  then have "r = r'" "'' = 0x'' @ fmt_x 0 v @ newline = '' = 0x'' @ fmt_x 0 v' @ newline"
    unfolding as_d_inject [OF stops_paren stops_paren] by blast+
  then show ?thesis using w fmt_x_inject [of newline newline 0 v v'] by simp
qed

lemma logged_GP_log:
  "r < 32 \<Longrightarrow> log_updates l \<Longrightarrow> logged_GP r (s, l) = Some (GP r s, s, log_once (access_line (False, r, GP r s)) l)"
  using log_name_plain [of r False]
  by (auto simp: logged_GP_def when_logging_def show_alias_def RegAlias_nth ShowRegisterAccess_fits access_line_def log_name_def GP_def)

lemma logged_SetGP_log:
  "0 < r \<Longrightarrow> r < 32 \<Longrightarrow> log_updates l \<Longrightarrow> logged_SetGP r v (s, l) = Some (SetGP r v s, log_once (access_line (True, r, v)) l)"
  using log_name_plain [of r True]
  by (auto simp: logged_SetGP_def when_logging_def show_alias_def RegAlias_nth ShowRegisterAccess_fits access_line_def log_name_def)

lemma log_once_simps: "log_updates (log_once t l) = log_updates l" "set (reg_updates (log_once t l)) = insert t (set (reg_updates l))"
  "distinct (reg_updates (log_once t l)) = distinct (reg_updates l)"
  by (auto simp: log_once_def FindRegisterAccess_def list_ex_iff)

section \<open>The log of a sequence of accesses\<close>

datatype reg_op = ReadGP u32 | WriteGP u32 u64

primrec op_reg :: "reg_op \<Rightarrow> u32" where
  "op_reg (ReadGP r) = r" | "op_reg (WriteGP r v) = r"

text \<open>A sequence on the plain state: the state after it and the accesses made, but for writes to register 0.\<close>

primrec run_plain :: "reg_op list \<Rightarrow> RiscvState \<Rightarrow> RiscvState \<times> (bool \<times> u32 \<times> u64) list" where
  "run_plain [] s = (s, [])"
| "run_plain (x # xs) s =
     (case x of
        ReadGP r \<Rightarrow> (case run_plain xs s of (s', as) \<Rightarrow> (s', (False, r, GP r s) # as))
      | WriteGP r v \<Rightarrow> (case run_plain xs (SetGP r v s) of (s', as) \<Rightarrow> (s', (if 0 < r then [(True, r, v)] else []) @ as)))"

primrec run_logged :: "reg_op list \<Rightarrow> RiscvState \<times> access_log \<Rightarrow> (RiscvState \<times> access_log) option" where
  "run_logged [] sl = Some sl"
| "run_logged (x # xs) sl =
     (case x of
        ReadGP r \<Rightarrow> do { (_, sl) \<leftarrow> logged_GP r sl; run_logged xs sl }
      | WriteGP r v \<Rightarrow> do { sl \<leftarrow> logged_SetGP r v sl; run_logged xs sl })"

lemma run_logged_log:
  "list_all (\<lambda>x. op_reg x < 32) ops \<Longrightarrow> log_updates l \<Longrightarrow>
   \<exists>l'. run_logged ops (s, l) = Some (fst (run_plain ops s), l') \<and>
     log_updates l' \<and> set (reg_updates l') = set (reg_updates l) \<union> access_line ` set (snd (run_plain ops s)) \<and>
     (distinct (reg_updates l) \<longrightarrow> distinct (reg_updates l'))"
proof (induction ops arbitrary: s l)
  case (Cons x xs)
  show ?case
  proof (cases x)
    case (ReadGP r)
    then show ?thesis
      using Cons.IH [of "log_once (access_line (False, r, GP r s)) l" s] Cons.prems
      by (auto simp: logged_GP_log log_once_simps split: prod.split)
  next
    case (WriteGP r v)
    show ?thesis
    proof (cases "0 < r")
      case True
      then show ?thesis
        using Cons.IH [of "log_once (access_line (True, r, v)) l" "SetGP r v s"] Cons.prems WriteGP
        by (auto simp: logged_SetGP_log log_once_simps split: prod.split)
    next
      case False
      then show ?thesis
        using Cons.IH [of l s] Cons.prems WriteGP by (auto simp: logged_SetGP_def SetGP_def split: prod.split)
    qed
  qed
qed simp

lemma accesses_below:
  "list_all (\<lambda>x. op_reg x < 32) ops \<Longrightarrow> (w, r, v) \<in> set (snd (run_plain ops s)) \<Longrightarrow> r < 32"
  by (induction ops arbitrary: s) (auto split: reg_op.splits prod.splits if_splits, (metis snd_conv)+)

text \<open>
  With register updates shown, a sequence of reads and writes of general purpose registers leaves
  the state it leaves without, and its log is exact: no line occurs twice, and the line of an access is
  in it if and only if that access, with its register, direction and value, was made. Writes to
  register 0 are not logged. Every line fits the buffer it is formatted in.
\<close>

theorem trace_exact:
  assumes "list_all (\<lambda>x. op_reg x < 32) ops" "r < 32"
  shows "\<exists>lines. run_logged ops (s, \<lparr>log_updates = True, reg_updates = []\<rparr>) =
      Some (fst (run_plain ops s), \<lparr>log_updates = True, reg_updates = lines\<rparr>) \<and> distinct lines \<and>
    (access_line (w, r, v) \<in> set lines \<longleftrightarrow> (w, r, v) \<in> set (snd (run_plain ops s)))"
proof -
  let ?l = "\<lparr>log_updates = True, reg_updates = []\<rparr>"
  obtain l where l: "run_logged ops (s, ?l) = Some (fst (run_plain ops s), l)" "log_updates l"
    "set (reg_updates l) = access_line ` set (snd (run_plain ops s))" "distinct (reg_updates l)"
    using run_logged_log [OF assms(1), of ?l s] by auto
  have "access_line (w, r, v) \<in> set (reg_updates l) \<longleftrightarrow> (w, r, v) \<in> set (snd (run_plain ops s))"
    unfolding l(3)
  proof
    assume "access_line (w, r, v) \<in> access_line ` set (snd (run_plain ops s))"
    then obtain w' r' v' where a: "(w', r', v') \<in> set (snd (run_plain ops s))" "access_line (w, r, v) = access_line (w', r', v')"
      by auto
    then show "(w, r, v) \<in> set (snd (run_plain ops s))"
      using access_line_inject [OF assms(2) accesses_below [OF assms(1) a(1)] a(2)] by simp
  qed (rule imageI)
  moreover have "l = \<lparr>log_updates = True, reg_updates = reg_updates l\<rparr>" using l(2) by simp
  ultimately show ?thesis using l(1,4) by metis
qed

theorem trace_exact_witness:
  "\<exists>lines. run_logged [WriteGP 10 5, ReadGP 10, ReadGP 0] (demo_core, \<lparr>log_updates = True, reg_updates = []\<rparr>) =
      Some (fst (run_plain [WriteGP 10 5, ReadGP 10, ReadGP 0] demo_core), \<lparr>log_updates = True, reg_updates = lines\<rparr>) \<and>
    distinct lines \<and> ''  # W a0 (x10) = 0x5'' @ newline \<in> set lines"
proof -
  let ?ops = "[WriteGP 10 5, ReadGP 10, ReadGP 0]"
  have t: "access_line (True, 10, 5) = ''  # W a0 (x10) = 0x5'' @ newline" by code_simp
  have m: "(True, 10, 5) \<in> set (snd (run_plain ?ops demo_core))" by simp
  show ?thesis
    using trace_exact [of ?ops 10 demo_core True 5] m unfolding t by auto
qed

section \<open>Other texts\<close>

text \<open>Every message about an exception fits the buffer of the caller.\<close>

lemma DecodeException_fits: "\<exists>t. DecodeException e pc opc = Some t \<and> length t \<le> 120"
  using length_fmt_x [of 8 16 pc] length_fmt_x_u32 [of 8 opc] length_fmt_x_u32 [of 3 "enum_value e"]
  by (cases e) (simp_all add: DecodeException_def sprintf_def newline_def Let_def)

text \<open>Reading a control register logs the names of the disassembler; two of them differ from the name its setter logs.\<close>

lemma csr_names_differ:
  "list_all (\<lambda>(r, n, k). map_of csr_table k = Some r \<and> (CSR_NAME k = Some n \<longleftrightarrow> r \<notin> {MCYCLE, MCYCLEH})) csr_log_names"
  by (simp add: csr_log_names_def csr_table_def CSR_NAME_def csr_names_def)

text \<open>Logging does not change what an access to a control register does.\<close>

lemma logged_set_reg_state: "map_option fst (logged_set_reg r v (s, l)) = Some (set_reg r v s)"
proof (cases "map_of csr_log_names r")
  case (Some nk)
  have "list_all (\<lambda>(r, n, k). length n \<le> 10) csr_log_names" by (simp add: csr_log_names_def)
  then have "length (fst nk) \<le> 10" using map_of_SomeD [OF Some] by (auto simp: list_all_iff)
  then show ?thesis
    using Some by (cases nk) (simp add: logged_set_reg_def when_logging_def ShowCSRAccess_fits Let_def)
qed (simp add: logged_set_reg_def Let_def)

lemma logged_set_regE:
  obtains l' where "logged_set_reg r v (s, l) = Some (set_reg r v s, l')"
  using logged_set_reg_state [of r v s l] by (cases "logged_set_reg r v (s, l)") auto

lemma logged_WFI_state: "map_option (Inr \<circ> fst) (logged_WFI (s, l)) = Some (ProcessException PROCESS_WFI s)"
proof -
  let ?s1 = "set_reg MCAUSE (ucast (enum_value PROCESS_WFI AND 0xf)) s"
  obtain l1 where 1: "logged_set_reg MCAUSE (ucast (enum_value PROCESS_WFI AND 0xf)) (s, l) = Some (?s1, l1)" by (rule logged_set_regE)
  obtain l2 where 2: "logged_set_reg MTVAL 0 (?s1, l1) = Some (set_reg MTVAL 0 ?s1, l2)" by (rule logged_set_regE)
  obtain l3 where 3: "logged_set_reg MEPC (PC (set_reg MTVAL 0 ?s1) + 4) (set_reg MTVAL 0 ?s1, l2) =
      Some (set_reg MEPC (PC (set_reg MTVAL 0 ?s1) + 4) (set_reg MTVAL 0 ?s1), l3)" by (rule logged_set_regE)
  show ?thesis
    unfolding logged_WFI_def 1 bind.bind_lunit 2 fst_conv 3 by (simp add: ProcessException_def Let_def)
qed

lemma logged_SetCSR_state:
  "map_option (\<lambda>(r, s', l'). (map_sum id (\<lambda>_. s') r)) (logged_SetCSR csr lev v (s, l)) = Some (SetCSR csr lev v s)"
proof -
  have "\<exists>l'. logged_set_reg r v (s, l) = Some (set_reg r v s, l')" for r
    by (rule logged_set_regE [of r v s l]) blast
  then obtain f where "\<And>r. logged_set_reg r v (s, l) = Some (set_reg r v s, f r)" by metis
  then show ?thesis by (simp add: logged_SetCSR_def SetCSR_def split: sum.split option.split)
qed

text \<open>A load leaves an access in the list whose bytes nobody has set: printing it is undefined.\<close>

lemma load_line_undefined: "0 < sz \<Longrightarrow> memory_line (MemoryAccess_new a sz DATA 0 sz False buf) = None"
  and store_line: "valid_access_size sz \<Longrightarrow> nat sz \<le> length buf \<Longrightarrow> memory_line (MemoryAccess_new a sz DATA 1 sz False buf) =
    Some (''  # MW 0x'' @ fmt_x 0 a @ '' '' @ concat (map (\<lambda>b. '' '' @ hex2 b) (take (nat sz) buf)) @ newline)"
  by (auto simp: memory_line_def MemoryAccess_new_def ma_IsWrite_def access_mark_def)

end
