(* ===== verification/Tcp_Server.thy ===== *)
theory Tcp_Server
  imports Prelude
begin

text \<open>
  The socket of the debug server, \<open>src/tcp_server.C\<close>. The system calls are outside: \<open>socket_api\<close> holds one
  function per call, from its arguments and the state of the operating system to its result and the next
  state. An exception is the text of its \<open>std::runtime_error\<close>.
\<close>

unbundle bit_operations_syntax

section \<open>System calls\<close>

record 'os socket_api =
  sys_socket :: "bool \<Rightarrow> 'os \<Rightarrow> int \<times> 'os"
  sys_bind :: "int \<Rightarrow> 16 word \<Rightarrow> 'os \<Rightarrow> int \<times> 'os"
  sys_listen :: "int \<Rightarrow> nat \<Rightarrow> 'os \<Rightarrow> 'os"
  sys_accept :: "int \<Rightarrow> 'os \<Rightarrow> int \<times> 'os"
  sys_read :: "int \<Rightarrow> nat \<Rightarrow> 'os \<Rightarrow> (int \<times> string) \<times> 'os"
  sys_write :: "int \<Rightarrow> string \<Rightarrow> 'os \<Rightarrow> int \<times> 'os"
  sys_close :: "int \<Rightarrow> 'os \<Rightarrow> 'os"

section \<open>Class TCPServer\<close>

record TCPServer =
  sockfd :: int
  newsockfd :: int

text \<open>The port is cut to 16 bits by \<open>htons\<close>; the result of \<open>listen\<close> is not looked at.\<close>

definition TCPServer_new :: "'os socket_api \<Rightarrow> u32 \<Rightarrow> bool \<Rightarrow> 'os \<Rightarrow> (string + TCPServer) \<times> 'os" where
  "TCPServer_new api portnum do_block os =
     (let (fd, os) = sys_socket api (\<not> do_block) os
      in if fd < 0 then (Inl ''ERROR opening socket'', os)
         else let (r, os) = sys_bind api fd (ucast portnum) os
              in if r < 0 then (Inl ''ERROR on binding'', os)
                 else let os = sys_listen api fd 5 os; (nfd, os) = sys_accept api fd os
                      in if nfd < 0 then (Inl ''ERROR on accept'', os)
                         else (Inr \<lparr>sockfd = fd, newsockfd = nfd\<rparr>, os))"

definition TCPServer_close :: "'os socket_api \<Rightarrow> TCPServer \<Rightarrow> 'os \<Rightarrow> 'os" where
  "TCPServer_close api t os = sys_close api (sockfd t) os"

text \<open>The buffer is zeroed before the bytes are stored at its beginning.\<close>

definition TCPServer_Read :: "'os socket_api \<Rightarrow> TCPServer \<Rightarrow> nat \<Rightarrow> 'os \<Rightarrow> (string + int \<times> string) \<times> 'os" where
  "TCPServer_Read api t sz os =
     (let ((numread, bytes), os) = sys_read api (newsockfd t) sz os
      in if numread < 0 then (Inl ''ERROR reading from socket'', os)
         else (Inr (numread, bytes @ replicate (sz - length bytes) (CHR 0x00)), os))"

definition TCPServer_Write :: "'os socket_api \<Rightarrow> TCPServer \<Rightarrow> string \<Rightarrow> 'os \<Rightarrow> (string + int) \<times> 'os" where
  "TCPServer_Write api t mbuf os =
     (let (numwritten, os) = sys_write api (newsockfd t) mbuf os
      in if numwritten \<noteq> int (length mbuf) then (Inl ''ERROR writing to socket'', os)
         else (Inr (int (length mbuf)), os))"

section \<open>The system calls keep their promises\<close>

text \<open>What the manual pages promise of \<open>read\<close> and \<open>write\<close>.\<close>

definition stream_calls :: "'os socket_api \<Rightarrow> bool" where
  "stream_calls api \<longleftrightarrow>
     (\<forall>fd n os. case sys_read api fd n os of ((k, bytes), _) \<Rightarrow> k \<le> int n \<and> (0 \<le> k \<longrightarrow> length bytes = nat k)) \<and>
     (\<forall>fd m os. fst (sys_write api fd m os) \<le> int (length m))"

lemma read_fills:
  assumes "stream_calls api" "TCPServer_Read api t n os = (Inr (k, buf), os')"
  shows "0 \<le> k \<and> k \<le> int n \<and> length buf = n"
proof -
  obtain j bytes os2 where r: "sys_read api (newsockfd t) n os = ((j, bytes), os2)" by (metis prod.exhaust)
  have "case sys_read api (newsockfd t) n os of ((k, bytes), _) \<Rightarrow> k \<le> int n \<and> (0 \<le> k \<longrightarrow> length bytes = nat k)"
    by (rule assms(1) [unfolded stream_calls_def, THEN conjunct1, rule_format])
  then have "j \<le> int n \<and> (0 \<le> j \<longrightarrow> length bytes = nat j)" by (simp add: r)
  then show ?thesis using assms(2) by (auto simp: TCPServer_Read_def r split: if_splits)
qed

lemma short_write_fails:
  "stream_calls api \<Longrightarrow>
   (\<exists>r os'. TCPServer_Write api t m os = (Inr r, os')) \<longleftrightarrow> \<not> fst (sys_write api (newsockfd t) m os) < int (length m)"
  using order_antisym [of "fst (sys_write api (newsockfd t) m os)" "int (length m)"]
  by (auto simp: TCPServer_Write_def Let_def stream_calls_def split: prod.split) force

text \<open>Only the low sixteen bits of the port count.\<close>

lemma port_wraps: "TCPServer_new api p b os = TCPServer_new api (take_bit 16 p) b os"
proof -
  have "(ucast (take_bit 16 p) :: 16 word) = ucast p"
    by (rule bit_word_eqI) (simp add: bit_ucast_iff bit_take_bit_iff)
  then show ?thesis unfolding TCPServer_new_def by (simp only:)
qed

end
