(* ===== verification/Spec2Isabelle.thy ===== *)
theory Spec2Isabelle
  imports Sleeping Signature Elf_Save Main_Program Registers Trace Tcp_Server
begin

text \<open>
  This library models dimebox, a simulator of RISC-V (RV32IMC) systems: cores with machine and user mode,
  a block store of physical memory, a timer, a PL011 uart, and a debug server that speaks the remote
  serial protocol of gdb. It follows the C++ sources, class by class.

  \<^bold>\<open>How the program works.\<close> The main program turns options into a configuration, runs \<open>Go\<close>, writes the
  signature and dumps the memory. \<open>RiscvSimulator::Go\<close> loads ELF images into memory and then turns a
  loop: every ready core is stepped once, the clock advances, devices are serviced and may signal core
  0. A step copies the core, takes a pending interrupt on the copy, fetches through \<open>Memory\<close>, lets the
  factory decode the instruction, asks the debug server, executes on the copy, and writes the copy back
  to the core and the queued stores to memory. A jump to itself ends the test of a core.

  \<^bold>\<open>Conventions.\<close> Unsigned integers are words of their width, \<open>int\<close> values are integers with
  overflow written out. Exceptions are values of \<open>sim_throw\<close>: the simulator's own codes, errors of the
  block store, run time errors, \<open>std::out_of_range\<close>, and \<open>UB\<close> for what the language leaves undefined. Operations
  on objects take and return their record, mostly in the state and exception monad \<open>smx\<close> of \<open>Prelude\<close>; its
  rules \<open>keeps_intros\<close> carry the invariant proofs. Console output is left out there; what the simulator prints
  about instructions and accesses has theories of its own.

  \<^bold>\<open>Theories, in the order of use.\<close>
  \<^item> \<open>Prelude\<close>: words, buffers, the monad, spans of bytes in a memory, byte order.
  \<^item> \<open>Phys_Mem\<close> (\<open>physical_memory.C\<close>, \<open>physical_memory.h\<close>): the store of 32-byte blocks. Writes refine the update of a
    map of bytes, reads return the bytes in use, also across blocks.
  \<^item> \<open>Exceptions\<close> (\<open>exceptions.h\<close>): the codes.
  \<^item> \<open>Mm_Device\<close>, \<open>Timer\<close>, \<open>Uart\<close>, \<open>Uart_PL011\<close> (\<open>memmap_device.h\<close>, \<open>timer.C\<close>, \<open>uart.h\<close>, \<open>uart_pl011.C\<close>): the
    interface of devices as a locale, interpreted by timer and uart; queues, registers and interrupts.
  \<^item> \<open>State_Base\<close>, \<open>Memory_Sys\<close> (\<open>core_state.h\<close>, \<open>memory.C\<close>, \<open>memory.h\<close>): what cores have in common, address checks,
    dispatch to devices, accesses of any length as refinements of byte updates, byte order.
  \<^item> \<open>Core_State\<close> (\<open>riscv_core_state.C\<close>, \<open>riscv_core_state.h\<close>): registers, control registers, privilege, traps,
    interrupts, and the copying of states. \<open>wf_core\<close> is the invariant of a core; \<open>core_step\<close> is the relation of
    everything the rest does to it.
  \<^item> \<open>Registers\<close> (\<open>registers.h\<close>): the register classes behind a locale for registers that hold a value; the list of
    words in \<open>Core_State\<close> is a correct abstraction of the array of register objects.
  \<^item> \<open>Instr_Decode\<close>, \<open>Instr\<close>, \<open>Instr_Alu\<close>, \<open>Instr_Mem\<close>, \<open>Instr_Sys\<close> (\<open>riscv_instruction.C\<close>, \<open>riscv_instruction.h\<close>,
    \<open>rv32i_instrs.C\<close>): the factory with an assembler as its inverse, every instruction, and their
    correctness against reference definitions: arithmetic, branches and jumps, loads and stores, control
    registers and privilege.
  \<^item> \<open>Scan\<close>, \<open>Format\<close>: the part of the C library on texts (\<open>sscanf\<close>, \<open>isprint\<close>, the conversions of \<open>sprintf\<close>); numbers
    that are formatted are read back.
  \<^item> \<open>Disasm\<close>, \<open>Disasm_Text\<close> (\<open>riscv_instruction.h\<close>, \<open>riscv_core_state.C\<close>, \<open>make_rv32i_iclasses.pl\<close>): the disassembler.
    Decoded instructions are well typed, their texts fit the buffers, and the text determines the
    encoding but for the bits that are not printed. \<open>Trace\<close>: the log of accesses is exact and does not
    change what is computed.
  \<^item> \<open>RSP\<close> (\<open>rsp.C\<close>): packets and requests; the target of the requests is a locale, with the invariant of a
    session proved once. \<open>Debug_Server\<close>, \<open>Debug_Session\<close> (\<open>debug_server.C\<close>, \<open>riscv_debug_server.h\<close>): the handlers and
    what a client can do; the server interprets the locale, with a locale for the invariants of polling. \<open>Tcp_Server\<close> (\<open>tcp_server.C\<close>): the socket class over the
    system calls; the server sees the results of its reads and writes as lists.
  \<^item> \<open>Elf_File\<close> (\<open>libelf_interface.c\<close>), \<open>Elf_IO\<close> (\<open>elfio.C\<close>): the layer over libelf with its table of names, a locale, and
    loading and saving. After a load, memory is what it was with the sections put at their addresses;
    \<open>Elf_Save\<close>: a saved memory is loaded again, and how blocks are sized.
  \<^item> \<open>Simulator\<close> (\<open>riscv_simulator.C\<close>, \<open>sim_config.C\<close>): configuration, steps, the loop. \<open>Simulation\<close>: what a step
    can change, the invariant of a run, termination. \<open>Programs\<close>: instructions and programs in memory.
    \<open>Sleeping\<close>: waiting for devices. \<open>Signature\<close>: the signature file.
  \<^item> \<open>Main_Program\<close> (\<open>program_options.C\<close>, \<open>main.C\<close>): options, configuration file, exit code.

  \<^bold>\<open>What comes from outside\<close> is an argument: the values of uninitialised memory and of
  \<open>rand\<close> (\<open>host_env\<close>, \<open>uninit\<close>), the orders of \<open>random_shuffle\<close> and of an unordered map, the keyboard and the messages
  of the socket with its failures (lists), what libelf shows of a file and which of its calls succeed
  (\<open>elf_lib\<close>), the system calls of the socket (\<open>socket_api\<close>), and what boost makes of the command line (\<open>options\<close>) and the configuration file (\<open>config_tree\<close>).
  Where a theorem relies on one of these it says so: \<open>permutes_cores\<close> (a shuffle returns the same cores),
  \<open>sane_uninit\<close> (a copied register file has 32 registers), \<open>shows_image\<close> (libelf shows a file as it was written),
  \<open>wf_mstatus\<close> of the word a new core finds in MSTATUS, which its constructor does not set.

  \<^bold>\<open>Fuel.\<close> The loop of \<open>Go\<close> is \<open>go_loop\<close> with a number of turns, and \<open>None\<close> says that they were not
  enough. With an instruction limit and no debugger, one turn more than the instructions left is enough
  unless all cores wait (\<open>go_terminates\<close>); waiting ends when the timer is due (\<open>timer_wakes_core\<close>) and never
  without a device (\<open>sleeps_forever\<close>). More fuel never changes a result. All other loops are structural.

  \<^bold>\<open>Not modelled\<close>: libelf, boost and the operating system themselves, the terminal settings of the uart,
  messages on the console other than the disassembly and the trace, the verbose variants of loading and
  saving, destructors that only free memory, code that is never compiled, and classes that no code of
  the simulator creates (\<open>packet.h\<close>, \<open>riscv_packet.h\<close>, \<open>instruction.h\<close>).
\<close>

end
